theory Spec2Isabelle
  imports Main "HOL-Library.Word" "HOL-Library.AList"
begin

section \<open>The wire protocol (protocol.py)\<close>

subsection \<open>Bytes, strings and exceptions\<close>

text \<open>
  A Python \<open>bytes\<close> value is a list of 8-bit words. A Python \<open>str\<close> is a list of
  Unicode code points, each a natural number; \<open>len\<close> of a \<open>str\<close> counts code
  points, \<open>len\<close> of its UTF-8 encoding counts bytes. Python integers are unbounded:
  values handed to \<open>struct.pack\<close> are of type \<open>int\<close>, values read back are
  natural numbers.
\<close>

type_synonym byte = "8 word"
type_synonym bytes = "byte list"
type_synonym str = "nat list"

text \<open>
  The exceptions the program can raise. \<open>struct_error\<close> is \<open>struct.error\<close>; the
  \<open>ValueError\<close>s of \<open>decode_message\<close> and of the \<open>IntEnum\<close> constructors are
  kept apart by what raised them. \<open>AttributeError\<close> and \<open>DatabaseError\<close> arise in
  server.py only.
\<close>

datatype error =
    struct_error
  | UnicodeEncodeError
  | UnicodeDecodeError
  | InvalidMagic
  | UnsupportedVersion
  | UnknownCommand
  | UnhandledCommand
  | InvalidEnumValue
  | UnknownMessageType
  | AttributeError
  | DatabaseError

text \<open>A string literal of the source, as a list of code points.\<close>

definition lit :: "string \<Rightarrow> str" where
  "lit s = map of_char s"

definition PROTOCOL_MAGIC :: bytes where
  "PROTOCOL_MAGIC = [0x51, 0x50]"

definition PROTOCOL_VERSION :: byte where
  "PROTOCOL_VERSION = 0x01"

definition HEADER_SIZE :: nat where
  "HEADER_SIZE = 9"

definition MAX_MESSAGE_SIZE :: nat where
  "MAX_MESSAGE_SIZE = 10 * 1024 * 1024"

definition MAX_AVATAR_SIZE :: nat where
  "MAX_AVATAR_SIZE = 512 * 1024"

subsection \<open>The enumerations\<close>

datatype Command =
    QPROTO_REGISTER
  | QPROTO_LOGIN
  | QPROTO_LOGOUT
  | QPROTO_MSG_SEND
  | QPROTO_MSG_RECEIVE
  | QPROTO_MSG_ACK
  | QPROTO_CONTACT_ADD
  | QPROTO_CONTACT_REMOVE
  | QPROTO_CONTACT_LIST_REQ
  | QPROTO_CONTACT_LIST
  | QPROTO_USER_SEARCH
  | QPROTO_USER_SEARCH_RES
  | QPROTO_USER_LIST_REQ
  | QPROTO_USER_LIST
  | QPROTO_PRESENCE
  | QPROTO_RESPONSE
  | QPROTO_ERROR
  | QPROTO_EARTHQUAKE_SEND
  | QPROTO_EARTHQUAKE_RECV
  | QPROTO_AVATAR_SET
  | QPROTO_AVATAR_GET
  | QPROTO_AVATAR_DATA

fun Command_value :: "Command \<Rightarrow> nat" where
  "Command_value QPROTO_REGISTER = 0x0001"
| "Command_value QPROTO_LOGIN = 0x0002"
| "Command_value QPROTO_LOGOUT = 0x0003"
| "Command_value QPROTO_MSG_SEND = 0x0100"
| "Command_value QPROTO_MSG_RECEIVE = 0x0101"
| "Command_value QPROTO_MSG_ACK = 0x0102"
| "Command_value QPROTO_CONTACT_ADD = 0x0200"
| "Command_value QPROTO_CONTACT_REMOVE = 0x0201"
| "Command_value QPROTO_CONTACT_LIST_REQ = 0x0202"
| "Command_value QPROTO_CONTACT_LIST = 0x0203"
| "Command_value QPROTO_USER_SEARCH = 0x0300"
| "Command_value QPROTO_USER_SEARCH_RES = 0x0301"
| "Command_value QPROTO_USER_LIST_REQ = 0x0302"
| "Command_value QPROTO_USER_LIST = 0x0303"
| "Command_value QPROTO_PRESENCE = 0x0400"
| "Command_value QPROTO_RESPONSE = 0x0500"
| "Command_value QPROTO_ERROR = 0x0501"
| "Command_value QPROTO_EARTHQUAKE_SEND = 0x0600"
| "Command_value QPROTO_EARTHQUAKE_RECV = 0x0601"
| "Command_value QPROTO_AVATAR_SET = 0x0700"
| "Command_value QPROTO_AVATAR_GET = 0x0701"
| "Command_value QPROTO_AVATAR_DATA = 0x0702"

text \<open>\<open>Command(value)\<close>: the member with that value, \<open>ValueError\<close> when there is none.\<close>

definition Command_of :: "nat \<Rightarrow> Command option" where
  "Command_of v =
    (if v = 0x0001 then Some QPROTO_REGISTER
     else if v = 0x0002 then Some QPROTO_LOGIN
     else if v = 0x0003 then Some QPROTO_LOGOUT
     else if v = 0x0100 then Some QPROTO_MSG_SEND
     else if v = 0x0101 then Some QPROTO_MSG_RECEIVE
     else if v = 0x0102 then Some QPROTO_MSG_ACK
     else if v = 0x0200 then Some QPROTO_CONTACT_ADD
     else if v = 0x0201 then Some QPROTO_CONTACT_REMOVE
     else if v = 0x0202 then Some QPROTO_CONTACT_LIST_REQ
     else if v = 0x0203 then Some QPROTO_CONTACT_LIST
     else if v = 0x0300 then Some QPROTO_USER_SEARCH
     else if v = 0x0301 then Some QPROTO_USER_SEARCH_RES
     else if v = 0x0302 then Some QPROTO_USER_LIST_REQ
     else if v = 0x0303 then Some QPROTO_USER_LIST
     else if v = 0x0400 then Some QPROTO_PRESENCE
     else if v = 0x0500 then Some QPROTO_RESPONSE
     else if v = 0x0501 then Some QPROTO_ERROR
     else if v = 0x0600 then Some QPROTO_EARTHQUAKE_SEND
     else if v = 0x0601 then Some QPROTO_EARTHQUAKE_RECV
     else if v = 0x0700 then Some QPROTO_AVATAR_SET
     else if v = 0x0701 then Some QPROTO_AVATAR_GET
     else if v = 0x0702 then Some QPROTO_AVATAR_DATA
     else None)"

datatype ResponseCode = SUCCESS | FAIL

fun ResponseCode_value :: "ResponseCode \<Rightarrow> nat" where
  "ResponseCode_value SUCCESS = 0x00"
| "ResponseCode_value FAIL = 0x01"

definition ResponseCode_of :: "nat \<Rightarrow> error + ResponseCode" where
  "ResponseCode_of v =
    (if v = 0x00 then Inr SUCCESS else if v = 0x01 then Inr FAIL else Inl InvalidEnumValue)"

datatype PresenceStatus = OFFLINE | ONLINE

fun PresenceStatus_value :: "PresenceStatus \<Rightarrow> nat" where
  "PresenceStatus_value OFFLINE = 0x00"
| "PresenceStatus_value ONLINE = 0x01"

definition PresenceStatus_of :: "nat \<Rightarrow> error + PresenceStatus" where
  "PresenceStatus_of v =
    (if v = 0x00 then Inr OFFLINE else if v = 0x01 then Inr ONLINE else Inl InvalidEnumValue)"

datatype AckStatus = DELIVERED | USER_OFFLINE | DELIVERY_FAILED | INVALID_MESSAGE

fun AckStatus_value :: "AckStatus \<Rightarrow> nat" where
  "AckStatus_value DELIVERED = 0x00"
| "AckStatus_value USER_OFFLINE = 0x01"
| "AckStatus_value DELIVERY_FAILED = 0x02"
| "AckStatus_value INVALID_MESSAGE = 0x03"

definition AckStatus_of :: "nat \<Rightarrow> error + AckStatus" where
  "AckStatus_of v =
    (if v = 0x00 then Inr DELIVERED
     else if v = 0x01 then Inr USER_OFFLINE
     else if v = 0x02 then Inr DELIVERY_FAILED
     else if v = 0x03 then Inr INVALID_MESSAGE
     else Inl InvalidEnumValue)"

datatype ActionCode =
  REGISTER | LOGIN | LOGOUT | ADD_CONTACT | REMOVE_CONTACT | AVATAR_SET

fun ActionCode_value :: "ActionCode \<Rightarrow> nat" where
  "ActionCode_value REGISTER = 0x01"
| "ActionCode_value LOGIN = 0x02"
| "ActionCode_value LOGOUT = 0x03"
| "ActionCode_value ADD_CONTACT = 0x04"
| "ActionCode_value REMOVE_CONTACT = 0x05"
| "ActionCode_value AVATAR_SET = 0x06"

definition ActionCode_of :: "nat \<Rightarrow> error + ActionCode" where
  "ActionCode_of v =
    (if v = 0x01 then Inr REGISTER
     else if v = 0x02 then Inr LOGIN
     else if v = 0x03 then Inr LOGOUT
     else if v = 0x04 then Inr ADD_CONTACT
     else if v = 0x05 then Inr REMOVE_CONTACT
     else if v = 0x06 then Inr AVATAR_SET
     else Inl InvalidEnumValue)"

subsection \<open>struct.pack and struct.unpack, big-endian\<close>

definition be16 :: "nat \<Rightarrow> bytes" where
  "be16 n = [of_nat (n div 256), of_nat (n mod 256)]"

definition be32 :: "nat \<Rightarrow> bytes" where
  "be32 n = [of_nat (n div 16777216), of_nat (n div 65536 mod 256),
             of_nat (n div 256 mod 256), of_nat (n mod 256)]"

text \<open>\<open>struct.pack('>B' | '>H' | '>I', value)\<close> raises \<open>struct.error\<close> out of range.\<close>

definition pack_B :: "int \<Rightarrow> error + bytes" where
  "pack_B v = (if 0 \<le> v \<and> v < 256 then Inr [of_nat (nat v)] else Inl struct_error)"

definition pack_H :: "int \<Rightarrow> error + bytes" where
  "pack_H v = (if 0 \<le> v \<and> v < 65536 then Inr (be16 (nat v)) else Inl struct_error)"

definition pack_I :: "int \<Rightarrow> error + bytes" where
  "pack_I v = (if 0 \<le> v \<and> v < 4294967296 then Inr (be32 (nat v)) else Inl struct_error)"

text \<open>
  \<open>struct.unpack_from(fmt, data, offset)\<close> raises \<open>struct.error\<close> unless the buffer
  holds the whole field at that offset.
\<close>

definition unpack_from_B :: "bytes \<Rightarrow> nat \<Rightarrow> error + nat" where
  "unpack_from_B d off =
    (if off + 1 \<le> length d then Inr (unat (d ! off)) else Inl struct_error)"

definition unpack_from_H :: "bytes \<Rightarrow> nat \<Rightarrow> error + nat" where
  "unpack_from_H d off =
    (if off + 2 \<le> length d
     then Inr (unat (d ! off) * 256 + unat (d ! (off + 1)))
     else Inl struct_error)"

definition unpack_from_I :: "bytes \<Rightarrow> nat \<Rightarrow> error + nat" where
  "unpack_from_I d off =
    (if off + 4 \<le> length d
     then Inr (unat (d ! off) * 16777216 + unat (d ! (off + 1)) * 65536
               + unat (d ! (off + 2)) * 256 + unat (d ! (off + 3)))
     else Inl struct_error)"

text \<open>The Python slice \<open>data[a:b]\<close> for \<open>0 \<le> a\<close>: it never raises, it truncates.\<close>

definition slice :: "'a list \<Rightarrow> nat \<Rightarrow> nat \<Rightarrow> 'a list" where
  "slice xs a b = take (b - a) (drop a xs)"

subsection \<open>UTF-8: str.encode('utf-8') and bytes.decode('utf-8')\<close>

text \<open>
  Both are Python built-ins, strict by default. Encoding raises on a surrogate code
  point; decoding accepts exactly the well-formed sequences of RFC 3629 (no overlong
  forms, no surrogates, nothing above U+10FFFF).
\<close>

definition scalar_value :: "nat \<Rightarrow> bool" where
  "scalar_value c = (c < 0x110000 \<and> \<not> (0xD800 \<le> c \<and> c \<le> 0xDFFF))"

definition utf8_char :: "nat \<Rightarrow> bytes" where
  "utf8_char c =
    (if c < 0x80 then [of_nat c]
     else if c < 0x800 then [of_nat (0xC0 + c div 64), of_nat (0x80 + c mod 64)]
     else if c < 0x10000 then
       [of_nat (0xE0 + c div 4096), of_nat (0x80 + c div 64 mod 64), of_nat (0x80 + c mod 64)]
     else
       [of_nat (0xF0 + c div 262144), of_nat (0x80 + c div 4096 mod 64),
        of_nat (0x80 + c div 64 mod 64), of_nat (0x80 + c mod 64)])"

definition str_encode :: "str \<Rightarrow> error + bytes" where
  "str_encode s =
    (if list_all scalar_value s then Inr (concat (map utf8_char s))
     else Inl UnicodeEncodeError)"

definition continuation :: "byte \<Rightarrow> bool" where
  "continuation b = (0x80 \<le> unat b \<and> unat b \<le> 0xBF)"

fun bytes_decode :: "bytes \<Rightarrow> error + str" where
  "bytes_decode [] = Inr []"
| "bytes_decode (b0 # bs) =
    (if unat b0 < 0x80 then
       (case bytes_decode bs of Inl e \<Rightarrow> Inl e | Inr s \<Rightarrow> Inr (unat b0 # s))
     else if 0xC2 \<le> unat b0 \<and> unat b0 \<le> 0xDF then
       (case bs of
          b1 # r1 \<Rightarrow>
            if continuation b1 then
              (case bytes_decode r1 of
                 Inl e \<Rightarrow> Inl e
               | Inr s \<Rightarrow> Inr (((unat b0 - 0xC0) * 64 + (unat b1 - 0x80)) # s))
            else Inl UnicodeDecodeError
        | _ \<Rightarrow> Inl UnicodeDecodeError)
     else if 0xE0 \<le> unat b0 \<and> unat b0 \<le> 0xEF then
       (case bs of
          b1 # b2 # r2 \<Rightarrow>
            if continuation b1 \<and> continuation b2
               \<and> (unat b0 = 0xE0 \<longrightarrow> 0xA0 \<le> unat b1)
               \<and> (unat b0 = 0xED \<longrightarrow> unat b1 < 0xA0) then
              (case bytes_decode r2 of
                 Inl e \<Rightarrow> Inl e
               | Inr s \<Rightarrow>
                   Inr (((unat b0 - 0xE0) * 4096 + (unat b1 - 0x80) * 64 + (unat b2 - 0x80)) # s))
            else Inl UnicodeDecodeError
        | _ \<Rightarrow> Inl UnicodeDecodeError)
     else if 0xF0 \<le> unat b0 \<and> unat b0 \<le> 0xF4 then
       (case bs of
          b1 # b2 # b3 # r3 \<Rightarrow>
            if continuation b1 \<and> continuation b2 \<and> continuation b3
               \<and> (unat b0 = 0xF0 \<longrightarrow> 0x90 \<le> unat b1)
               \<and> (unat b0 = 0xF4 \<longrightarrow> unat b1 < 0x90) then
              (case bytes_decode r3 of
                 Inl e \<Rightarrow> Inl e
               | Inr s \<Rightarrow>
                   Inr (((unat b0 - 0xF0) * 262144 + (unat b1 - 0x80) * 4096
                         + (unat b2 - 0x80) * 64 + (unat b3 - 0x80)) # s))
            else Inl UnicodeDecodeError
        | _ \<Rightarrow> Inl UnicodeDecodeError)
     else Inl UnicodeDecodeError)"

subsection \<open>BinaryWriter\<close>

text \<open>
  The writer's only state is its buffer: each method takes the buffer and returns the
  extended one, or the exception raised.
\<close>

definition write_uint8 :: "int \<Rightarrow> bytes \<Rightarrow> error + bytes" where
  "write_uint8 v buf = (case pack_B v of Inl e \<Rightarrow> Inl e | Inr b \<Rightarrow> Inr (buf @ b))"

definition write_uint16 :: "int \<Rightarrow> bytes \<Rightarrow> error + bytes" where
  "write_uint16 v buf = (case pack_H v of Inl e \<Rightarrow> Inl e | Inr b \<Rightarrow> Inr (buf @ b))"

definition write_uint32 :: "int \<Rightarrow> bytes \<Rightarrow> error + bytes" where
  "write_uint32 v buf = (case pack_I v of Inl e \<Rightarrow> Inl e | Inr b \<Rightarrow> Inr (buf @ b))"

definition write_string :: "str \<Rightarrow> bytes \<Rightarrow> error + bytes" where
  "write_string v buf =
    (case str_encode v of
       Inl e \<Rightarrow> Inl e
     | Inr encoded \<Rightarrow>
         (case write_uint16 (int (length encoded)) buf of
            Inl e \<Rightarrow> Inl e
          | Inr buf' \<Rightarrow> Inr (buf' @ encoded)))"

definition write_bytes :: "bytes \<Rightarrow> bytes \<Rightarrow> error + bytes" where
  "write_bytes v buf =
    (case write_uint32 (int (length v)) buf of
       Inl e \<Rightarrow> Inl e
     | Inr buf' \<Rightarrow> Inr (buf' @ v))"

text \<open>Sequencing of writer calls: the first exception ends the sequence.\<close>

definition and_then :: "error + 'a \<Rightarrow> ('a \<Rightarrow> error + 'b) \<Rightarrow> error + 'b" where
  "and_then m f = (case m of Inl e \<Rightarrow> Inl e | Inr x \<Rightarrow> f x)"

subsection \<open>BinaryReader\<close>

record BinaryReader =
  data :: bytes
  offset :: nat

text \<open>
  A reader method returns its value and the reader with the offset advanced, or the
  exception raised.
\<close>

type_synonym 'a reading = "BinaryReader \<Rightarrow> error + ('a \<times> BinaryReader)"

definition read_uint8 :: "nat reading" where
  "read_uint8 r =
    (case unpack_from_B (data r) (offset r) of
       Inl e \<Rightarrow> Inl e
     | Inr v \<Rightarrow> Inr (v, r\<lparr>offset := offset r + 1\<rparr>))"

definition read_uint16 :: "nat reading" where
  "read_uint16 r =
    (case unpack_from_H (data r) (offset r) of
       Inl e \<Rightarrow> Inl e
     | Inr v \<Rightarrow> Inr (v, r\<lparr>offset := offset r + 2\<rparr>))"

definition read_uint32 :: "nat reading" where
  "read_uint32 r =
    (case unpack_from_I (data r) (offset r) of
       Inl e \<Rightarrow> Inl e
     | Inr v \<Rightarrow> Inr (v, r\<lparr>offset := offset r + 4\<rparr>))"

definition read_string :: "str reading" where
  "read_string r =
    (case read_uint16 r of
       Inl e \<Rightarrow> Inl e
     | Inr (len, r1) \<Rightarrow>
         (case bytes_decode (slice (data r1) (offset r1) (offset r1 + len)) of
            Inl e \<Rightarrow> Inl e
          | Inr v \<Rightarrow> Inr (v, r1\<lparr>offset := offset r1 + len\<rparr>)))"

definition read_bytes :: "bytes reading" where
  "read_bytes r =
    (case read_uint32 r of
       Inl e \<Rightarrow> Inl e
     | Inr (len, r1) \<Rightarrow>
         Inr (slice (data r1) (offset r1) (offset r1 + len), r1\<lparr>offset := offset r1 + len\<rparr>))"

text \<open>
  Sequencing of reader calls, left to right as Python evaluates constructor arguments;
  \<open>read_map\<close> applies a conversion that may raise (an \<open>IntEnum\<close> constructor) to
  the value just read.
\<close>

definition read_then :: "'a reading \<Rightarrow> ('a \<Rightarrow> 'b reading) \<Rightarrow> 'b reading" where
  "read_then m f r = (case m r of Inl e \<Rightarrow> Inl e | Inr (x, r') \<Rightarrow> f x r')"

definition read_done :: "'a \<Rightarrow> 'a reading" where
  "read_done x r = Inr (x, r)"

definition read_map :: "'a reading \<Rightarrow> ('a \<Rightarrow> error + 'b) \<Rightarrow> 'b reading" where
  "read_map m g r =
    (case m r of
       Inl e \<Rightarrow> Inl e
     | Inr (x, r') \<Rightarrow> (case g x of Inl e \<Rightarrow> Inl e | Inr y \<Rightarrow> Inr (y, r')))"

subsection \<open>Messages\<close>

datatype ContactInfo = ContactInfo str PresenceStatus

text \<open>
  One constructor per dataclass. \<open>PlainMessage\<close> is an instance of the base class
  \<open>Message\<close> itself, which carries a command and nothing else.
\<close>

datatype Message =
    RegisterMessage str str
  | LoginMessage str str
  | LogoutMessage
  | SendMsgMessage str str str
  | ReceiveMsgMessage str str str str
  | MsgAckMessage str AckStatus
  | AddContactMessage str
  | RemoveContactMessage str
  | ContactListReqMessage
  | ContactListMessage "ContactInfo list"
  | UserSearchMessage str
  | UserSearchResultMessage "str list"
  | PresenceMessage str PresenceStatus
  | ResponseMessage ActionCode ResponseCode str
  | ErrorMessage str
  | EarthquakeSendMessage str int
  | EarthquakeRecvMessage str int
  | AvatarSetMessage bytes
  | AvatarGetMessage str
  | AvatarDataMessage str bytes
  | PlainMessage Command

fun command :: "Message \<Rightarrow> Command" where
  "command (RegisterMessage _ _) = QPROTO_REGISTER"
| "command (LoginMessage _ _) = QPROTO_LOGIN"
| "command LogoutMessage = QPROTO_LOGOUT"
| "command (SendMsgMessage _ _ _) = QPROTO_MSG_SEND"
| "command (ReceiveMsgMessage _ _ _ _) = QPROTO_MSG_RECEIVE"
| "command (MsgAckMessage _ _) = QPROTO_MSG_ACK"
| "command (AddContactMessage _) = QPROTO_CONTACT_ADD"
| "command (RemoveContactMessage _) = QPROTO_CONTACT_REMOVE"
| "command ContactListReqMessage = QPROTO_CONTACT_LIST_REQ"
| "command (ContactListMessage _) = QPROTO_CONTACT_LIST"
| "command (UserSearchMessage _) = QPROTO_USER_SEARCH"
| "command (UserSearchResultMessage _) = QPROTO_USER_SEARCH_RES"
| "command (PresenceMessage _ _) = QPROTO_PRESENCE"
| "command (ResponseMessage _ _ _) = QPROTO_RESPONSE"
| "command (ErrorMessage _) = QPROTO_ERROR"
| "command (EarthquakeSendMessage _ _) = QPROTO_EARTHQUAKE_SEND"
| "command (EarthquakeRecvMessage _ _) = QPROTO_EARTHQUAKE_RECV"
| "command (AvatarSetMessage _) = QPROTO_AVATAR_SET"
| "command (AvatarGetMessage _) = QPROTO_AVATAR_GET"
| "command (AvatarDataMessage _ _) = QPROTO_AVATAR_DATA"
| "command (PlainMessage c) = c"

subsection \<open>encode_message\<close>

text \<open>The two \<open>for\<close> loops of \<open>encode_message\<close>, over the contacts and over the users.\<close>

fun write_contacts :: "ContactInfo list \<Rightarrow> bytes \<Rightarrow> error + bytes" where
  "write_contacts [] buf = Inr buf"
| "write_contacts (ContactInfo name st # cs) buf =
    and_then (write_string name buf) (\<lambda>b1.
    and_then (write_uint8 (int (PresenceStatus_value st)) b1) (\<lambda>b2.
    write_contacts cs b2))"

fun write_users :: "str list \<Rightarrow> bytes \<Rightarrow> error + bytes" where
  "write_users [] buf = Inr buf"
| "write_users (u # us) buf = and_then (write_string u buf) (\<lambda>b1. write_users us b1)"

text \<open>The \<open>isinstance\<close> chain: the payload of each message class.\<close>

fun write_payload :: "Message \<Rightarrow> error + bytes" where
  "write_payload (RegisterMessage username password) =
    and_then (write_string username []) (write_string password)"
| "write_payload (LoginMessage username password) =
    and_then (write_string username []) (write_string password)"
| "write_payload LogoutMessage = Inr []"
| "write_payload (SendMsgMessage to content msg_id) =
    and_then (and_then (write_string to []) (write_string content)) (write_string msg_id)"
| "write_payload (ReceiveMsgMessage from_user content msg_id timestamp) =
    and_then (and_then (and_then (write_string from_user []) (write_string content))
      (write_string msg_id)) (write_string timestamp)"
| "write_payload (MsgAckMessage msg_id status) =
    and_then (write_string msg_id []) (write_uint8 (int (AckStatus_value status)))"
| "write_payload (AddContactMessage contact) = write_string contact []"
| "write_payload (RemoveContactMessage contact) = write_string contact []"
| "write_payload ContactListReqMessage = Inr []"
| "write_payload (ContactListMessage contacts) =
    and_then (write_uint16 (int (length contacts)) []) (write_contacts contacts)"
| "write_payload (UserSearchMessage query) = write_string query []"
| "write_payload (UserSearchResultMessage users) =
    and_then (write_uint16 (int (length users)) []) (write_users users)"
| "write_payload (PresenceMessage username status) =
    and_then (write_string username []) (write_uint8 (int (PresenceStatus_value status)))"
| "write_payload (ResponseMessage action code message) =
    and_then (and_then (write_uint8 (int (ActionCode_value action)) [])
      (write_uint8 (int (ResponseCode_value code)))) (write_string message)"
| "write_payload (ErrorMessage message) = write_string message []"
| "write_payload (EarthquakeSendMessage to intensity) =
    and_then (write_string to []) (write_uint8 intensity)"
| "write_payload (EarthquakeRecvMessage from_user intensity) =
    and_then (write_string from_user []) (write_uint8 intensity)"
| "write_payload (AvatarSetMessage avatar_data) = write_bytes avatar_data []"
| "write_payload (AvatarGetMessage username) = write_string username []"
| "write_payload (AvatarDataMessage username avatar_data) =
    and_then (write_string username []) (write_bytes avatar_data)"
| "write_payload (PlainMessage c) = Inl UnknownMessageType"

definition encode_message :: "Message \<Rightarrow> error + bytes" where
  "encode_message msg =
    and_then (write_payload msg) (\<lambda>payload.
    and_then (pack_H (int (Command_value (command msg)))) (\<lambda>cmd.
    and_then (pack_I (int (length payload))) (\<lambda>len.
    Inr (PROTOCOL_MAGIC @ [PROTOCOL_VERSION] @ cmd @ len @ payload))))"

subsection \<open>decode_message\<close>

text \<open>The two counted loops of \<open>decode_message\<close>.\<close>

fun read_contacts :: "nat \<Rightarrow> ContactInfo list reading" where
  "read_contacts 0 = read_done []"
| "read_contacts (Suc n) =
    read_then read_string (\<lambda>name.
    read_then (read_map read_uint8 PresenceStatus_of) (\<lambda>st.
    read_then (read_contacts n) (\<lambda>cs.
    read_done (ContactInfo name st # cs))))"

fun read_users :: "nat \<Rightarrow> str list reading" where
  "read_users 0 = read_done []"
| "read_users (Suc n) =
    read_then read_string (\<lambda>u.
    read_then (read_users n) (\<lambda>us.
    read_done (u # us)))"

fun read_payload :: "Command \<Rightarrow> Message reading" where
  "read_payload QPROTO_REGISTER =
    read_then read_string (\<lambda>u. read_then read_string (\<lambda>p. read_done (RegisterMessage u p)))"
| "read_payload QPROTO_LOGIN =
    read_then read_string (\<lambda>u. read_then read_string (\<lambda>p. read_done (LoginMessage u p)))"
| "read_payload QPROTO_LOGOUT = read_done LogoutMessage"
| "read_payload QPROTO_MSG_SEND =
    read_then read_string (\<lambda>to. read_then read_string (\<lambda>content.
    read_then read_string (\<lambda>msg_id. read_done (SendMsgMessage to content msg_id))))"
| "read_payload QPROTO_MSG_RECEIVE =
    read_then read_string (\<lambda>from_user. read_then read_string (\<lambda>content.
    read_then read_string (\<lambda>msg_id. read_then read_string (\<lambda>timestamp.
    read_done (ReceiveMsgMessage from_user content msg_id timestamp)))))"
| "read_payload QPROTO_MSG_ACK =
    read_then read_string (\<lambda>msg_id. read_then (read_map read_uint8 AckStatus_of) (\<lambda>status.
    read_done (MsgAckMessage msg_id status)))"
| "read_payload QPROTO_CONTACT_ADD =
    read_then read_string (\<lambda>contact. read_done (AddContactMessage contact))"
| "read_payload QPROTO_CONTACT_REMOVE =
    read_then read_string (\<lambda>contact. read_done (RemoveContactMessage contact))"
| "read_payload QPROTO_CONTACT_LIST_REQ = read_done ContactListReqMessage"
| "read_payload QPROTO_CONTACT_LIST =
    read_then read_uint16 (\<lambda>count. read_then (read_contacts count) (\<lambda>contacts.
    read_done (ContactListMessage contacts)))"
| "read_payload QPROTO_USER_SEARCH =
    read_then read_string (\<lambda>query. read_done (UserSearchMessage query))"
| "read_payload QPROTO_USER_SEARCH_RES =
    read_then read_uint16 (\<lambda>count. read_then (read_users count) (\<lambda>users.
    read_done (UserSearchResultMessage users)))"
| "read_payload QPROTO_PRESENCE =
    read_then read_string (\<lambda>username.
    read_then (read_map read_uint8 PresenceStatus_of) (\<lambda>status.
    read_done (PresenceMessage username status)))"
| "read_payload QPROTO_RESPONSE =
    read_then (read_map read_uint8 ActionCode_of) (\<lambda>action.
    read_then (read_map read_uint8 ResponseCode_of) (\<lambda>code.
    read_then read_string (\<lambda>message. read_done (ResponseMessage action code message))))"
| "read_payload QPROTO_ERROR =
    read_then read_string (\<lambda>message. read_done (ErrorMessage message))"
| "read_payload QPROTO_EARTHQUAKE_SEND =
    read_then read_string (\<lambda>to. read_then read_uint8 (\<lambda>intensity.
    read_done (EarthquakeSendMessage to (int intensity))))"
| "read_payload QPROTO_EARTHQUAKE_RECV =
    read_then read_string (\<lambda>from_user. read_then read_uint8 (\<lambda>intensity.
    read_done (EarthquakeRecvMessage from_user (int intensity))))"
| "read_payload QPROTO_AVATAR_SET =
    read_then read_bytes (\<lambda>avatar_data. read_done (AvatarSetMessage avatar_data))"
| "read_payload QPROTO_AVATAR_GET =
    read_then read_string (\<lambda>username. read_done (AvatarGetMessage username))"
| "read_payload QPROTO_AVATAR_DATA =
    read_then read_string (\<lambda>username. read_then read_bytes (\<lambda>avatar_data.
    read_done (AvatarDataMessage username avatar_data)))"
| "read_payload QPROTO_USER_LIST_REQ = (\<lambda>r. Inl UnhandledCommand)"
| "read_payload QPROTO_USER_LIST = (\<lambda>r. Inl UnhandledCommand)"

text \<open>
  \<open>decode_message\<close> returns \<open>None\<close> on a short header (\<open>Inr None\<close>), raises
  (\<open>Inl\<close>) or returns a message (\<open>Inr (Some m)\<close>). The header fields are read with
  \<open>struct.unpack\<close> on slices that the length test has made whole.
\<close>

definition decode_message :: "bytes \<Rightarrow> error + Message option" where
  "decode_message d =
    (if length d < HEADER_SIZE then Inr None
     else
       let magic = slice d 0 2;
           version = d ! 2;
           cmd_value = unat (d ! 3) * 256 + unat (d ! 4);
           payload_len = unat (d ! 5) * 16777216 + unat (d ! 6) * 65536
                         + unat (d ! 7) * 256 + unat (d ! 8)
       in
         if magic \<noteq> PROTOCOL_MAGIC then Inl InvalidMagic
         else if version \<noteq> PROTOCOL_VERSION then Inl UnsupportedVersion
         else
           let payload = slice d HEADER_SIZE (HEADER_SIZE + payload_len);
               reader = \<lparr>data = payload, offset = 0\<rparr>
           in
             (case Command_of cmd_value of
                None \<Rightarrow> Inl UnknownCommand
              | Some cmd \<Rightarrow>
                  (case read_payload cmd reader of
                     Inl e \<Rightarrow> Inl e
                   | Inr (msg, r) \<Rightarrow> Inr (Some msg))))"


subsection \<open>Valid field values and the bytes they take on the wire\<close>

text \<open>
  The UTF-8 bytes of a string whose code points are all scalar values; a string is valid
  for the wire when it can be encoded and its encoding fits the 2-byte length prefix.
\<close>

definition utf8 :: "str \<Rightarrow> bytes" where
  "utf8 s = concat (map utf8_char s)"

definition valid_str :: "str \<Rightarrow> bool" where
  "valid_str s = (list_all scalar_value s \<and> length (utf8 s) \<le> 65535)"

definition str_bytes :: "str \<Rightarrow> bytes" where
  "str_bytes s = be16 (length (utf8 s)) @ utf8 s"

text \<open>
  The field values the round-trip property is stated for: strings valid for the wire,
  blobs within \<open>MAX_MESSAGE_SIZE\<close>, \<open>uint8\<close> fields in 0..255. The enumeration
  fields are in range by their type. \<open>list_count\<close> is the number written into the
  2-byte count of the two list-carrying messages, and \<open>payload_of\<close> the payload bytes
  that the fields of a message take.
\<close>

fun contact_bytes :: "ContactInfo \<Rightarrow> bytes" where
  "contact_bytes (ContactInfo name st) = str_bytes name @ [of_nat (PresenceStatus_value st)]"

fun payload_of :: "Message \<Rightarrow> bytes" where
  "payload_of (RegisterMessage username password) = str_bytes username @ str_bytes password"
| "payload_of (LoginMessage username password) = str_bytes username @ str_bytes password"
| "payload_of LogoutMessage = []"
| "payload_of (SendMsgMessage to content msg_id) =
    str_bytes to @ str_bytes content @ str_bytes msg_id"
| "payload_of (ReceiveMsgMessage from_user content msg_id timestamp) =
    str_bytes from_user @ str_bytes content @ str_bytes msg_id @ str_bytes timestamp"
| "payload_of (MsgAckMessage msg_id status) = str_bytes msg_id @ [of_nat (AckStatus_value status)]"
| "payload_of (AddContactMessage contact) = str_bytes contact"
| "payload_of (RemoveContactMessage contact) = str_bytes contact"
| "payload_of ContactListReqMessage = []"
| "payload_of (ContactListMessage contacts) =
    be16 (length contacts) @ concat (map contact_bytes contacts)"
| "payload_of (UserSearchMessage query) = str_bytes query"
| "payload_of (UserSearchResultMessage users) =
    be16 (length users) @ concat (map str_bytes users)"
| "payload_of (PresenceMessage username status) =
    str_bytes username @ [of_nat (PresenceStatus_value status)]"
| "payload_of (ResponseMessage action code message) =
    [of_nat (ActionCode_value action), of_nat (ResponseCode_value code)] @ str_bytes message"
| "payload_of (ErrorMessage message) = str_bytes message"
| "payload_of (EarthquakeSendMessage to intensity) = str_bytes to @ [of_nat (nat intensity)]"
| "payload_of (EarthquakeRecvMessage from_user intensity) =
    str_bytes from_user @ [of_nat (nat intensity)]"
| "payload_of (AvatarSetMessage avatar_data) = be32 (length avatar_data) @ avatar_data"
| "payload_of (AvatarGetMessage username) = str_bytes username"
| "payload_of (AvatarDataMessage username avatar_data) =
    str_bytes username @ be32 (length avatar_data) @ avatar_data"
| "payload_of (PlainMessage c) = []"

fun valid_contact :: "ContactInfo \<Rightarrow> bool" where
  "valid_contact (ContactInfo name st) = valid_str name"

definition valid_uint8 :: "int \<Rightarrow> bool" where
  "valid_uint8 v = (0 \<le> v \<and> v \<le> 255)"

definition valid_blob :: "bytes \<Rightarrow> bool" where
  "valid_blob b = (length b \<le> MAX_MESSAGE_SIZE)"

fun valid_fields :: "Message \<Rightarrow> bool" where
  "valid_fields (RegisterMessage username password) = (valid_str username \<and> valid_str password)"
| "valid_fields (LoginMessage username password) = (valid_str username \<and> valid_str password)"
| "valid_fields LogoutMessage = True"
| "valid_fields (SendMsgMessage to content msg_id) =
    (valid_str to \<and> valid_str content \<and> valid_str msg_id)"
| "valid_fields (ReceiveMsgMessage from_user content msg_id timestamp) =
    (valid_str from_user \<and> valid_str content \<and> valid_str msg_id \<and> valid_str timestamp)"
| "valid_fields (MsgAckMessage msg_id status) = valid_str msg_id"
| "valid_fields (AddContactMessage contact) = valid_str contact"
| "valid_fields (RemoveContactMessage contact) = valid_str contact"
| "valid_fields ContactListReqMessage = True"
| "valid_fields (ContactListMessage contacts) = list_all valid_contact contacts"
| "valid_fields (UserSearchMessage query) = valid_str query"
| "valid_fields (UserSearchResultMessage users) = list_all valid_str users"
| "valid_fields (PresenceMessage username status) = valid_str username"
| "valid_fields (ResponseMessage action code message) = valid_str message"
| "valid_fields (ErrorMessage message) = valid_str message"
| "valid_fields (EarthquakeSendMessage to intensity) = (valid_str to \<and> valid_uint8 intensity)"
| "valid_fields (EarthquakeRecvMessage from_user intensity) =
    (valid_str from_user \<and> valid_uint8 intensity)"
| "valid_fields (AvatarSetMessage avatar_data) = valid_blob avatar_data"
| "valid_fields (AvatarGetMessage username) = valid_str username"
| "valid_fields (AvatarDataMessage username avatar_data) =
    (valid_str username \<and> valid_blob avatar_data)"
| "valid_fields (PlainMessage c) = False"

fun list_count :: "Message \<Rightarrow> nat" where
  "list_count (ContactListMessage contacts) = length contacts"
| "list_count (UserSearchResultMessage users) = length users"
| "list_count _ = 0"

text \<open>
  \<open>reads m e v\<close>: wherever the bytes \<open>e\<close> stand in a buffer, with the offset at
  their start, the reader method \<open>m\<close> returns \<open>v\<close> and leaves the offset at their end.
\<close>

definition reads :: "'a reading \<Rightarrow> bytes \<Rightarrow> 'a \<Rightarrow> bool" where
  "reads m e v = (\<forall>pre post. m \<lparr>data = pre @ e @ post, offset = length pre\<rparr>
      = Inr (v, \<lparr>data = pre @ e @ post, offset = length pre + length e\<rparr>))"

section \<open>The server (server.py)\<close>

subsection \<open>Sessions, the registry and the world outside\<close>

text \<open>
  A \<open>ClientSession\<close> object is known by its identity, a number; the socket it owns is
  known by the same number. Its lock orders concurrent writers and has no part in a
  sequential run. \<open>closed\<close> records that \<open>close\<close> was called.
\<close>

type_synonym sid = nat

record ClientSession =
  username :: "str option"
  user_id :: "int option"
  authenticated :: bool
  closed :: bool

definition new_session :: ClientSession where
  "new_session = \<lparr>username = None, user_id = None, authenticated = False, closed = False\<rparr>"

text \<open>
  The \<open>Database\<close> class is a wrapper around sqlite3, hashlib and secrets, which lie
  outside the program: its methods are parameters. Each takes the store and returns
  its result, or the exception it lets through, and the store afterwards.
\<close>

record 'db Database =
  register_user :: "str \<Rightarrow> str \<Rightarrow> 'db \<Rightarrow> (error + bool \<times> str) \<times> 'db"
  authenticate_user :: "str \<Rightarrow> str \<Rightarrow> 'db \<Rightarrow> (error + bool \<times> str \<times> int option) \<times> 'db"
  add_contact :: "int option \<Rightarrow> str \<Rightarrow> 'db \<Rightarrow> (error + bool \<times> str) \<times> 'db"
  remove_contact :: "int option \<Rightarrow> str \<Rightarrow> 'db \<Rightarrow> (error + bool \<times> str) \<times> 'db"
  get_contacts :: "int option \<Rightarrow> 'db \<Rightarrow> (error + str list) \<times> 'db"
  search_users :: "str \<Rightarrow> int option \<Rightarrow> 'db \<Rightarrow> (error + str list) \<times> 'db"
  set_avatar :: "int option \<Rightarrow> bytes \<Rightarrow> 'db \<Rightarrow> (error + bool) \<times> 'db"
  get_avatar :: "str \<Rightarrow> 'db \<Rightarrow> (error + bytes option) \<times> 'db"

text \<open>
  What else the server meets and does not decide: whether \<open>sendall\<close> on a session's
  socket succeeds, the text of \<open>datetime.now().isoformat()\<close>, and the Unicode table
  behind \<open>str.isalnum\<close>.
\<close>

record 'db World =
  database :: "'db Database"
  sendall_ok :: "sid \<Rightarrow> bool"
  now :: str
  isalnum :: "str \<Rightarrow> bool"

text \<open>
  The state of an \<open>IMServer\<close>: the store, the registry \<open>clients\<close> (a Python dict keeps
  insertion order: an association list with \<open>AList.update\<close> and \<open>AList.delete\<close>),
  the session objects, and \<open>wire\<close>, the record of every \<open>sendall\<close> attempted: the
  socket, the message whose frame was written, and whether the write succeeded.
\<close>

record 'db IMServer =
  db :: 'db
  clients :: "(str \<times> sid) list"
  sessions :: "sid \<Rightarrow> ClientSession"
  wire :: "(sid \<times> Message \<times> bool) list"

text \<open>
  A handler returns its value or the exception it raises, and the state it leaves
  either way.
\<close>

type_synonym ('db, 'a) handler = "'db IMServer \<Rightarrow> (error + 'a) \<times> 'db IMServer"

definition then_do ::
  "(error + 'a) \<times> 'db IMServer \<Rightarrow> ('a \<Rightarrow> ('db, 'b) handler) \<Rightarrow> (error + 'b) \<times> 'db IMServer" where
  "then_do m f = (case m of (Inl e, st) \<Rightarrow> (Inl e, st) | (Inr x, st) \<Rightarrow> f x st)"

definition returning :: "(error + 'a) \<times> 'db IMServer \<Rightarrow> (error + unit) \<times> 'db IMServer" where
  "returning m = (case m of (Inl e, st) \<Rightarrow> (Inl e, st) | (Inr x, st) \<Rightarrow> (Inr (), st))"

subsection \<open>str.strip\<close>

text \<open>The code points for which \<open>str.isspace\<close> holds.\<close>

definition isspace :: "nat \<Rightarrow> bool" where
  "isspace c =
    (c \<in> set [0x09, 0x0A, 0x0B, 0x0C, 0x0D, 0x1C, 0x1D, 0x1E, 0x1F, 0x20, 0x85, 0xA0,
               0x1680, 0x2028, 0x2029, 0x202F, 0x205F, 0x3000]
     \<or> (0x2000 \<le> c \<and> c \<le> 0x200A))"

definition strip :: "str \<Rightarrow> str" where
  "strip s = rev (dropWhile isspace (rev (dropWhile isspace s)))"

subsection \<open>send_message, recv_message and ClientSession.send\<close>

text \<open>
  \<open>send_message\<close> encodes and writes. An exception of \<open>encode_message\<close> is not
  among those it catches and goes up to the caller; a failed write makes it return
  \<open>False\<close>. \<open>ClientSession.send\<close> is \<open>send_message\<close> on the session's socket.
\<close>

definition send_message :: "'db World \<Rightarrow> sid \<Rightarrow> Message \<Rightarrow> ('db, bool) handler" where
  "send_message w sock msg st =
    (case encode_message msg of
       Inl e \<Rightarrow> (Inl e, st)
     | Inr frame \<Rightarrow>
         (Inr (sendall_ok w sock), st\<lparr>wire := wire st @ [(sock, msg, sendall_ok w sock)]\<rparr>))"

definition send :: "'db World \<Rightarrow> sid \<Rightarrow> Message \<Rightarrow> ('db, bool) handler" where
  "send w session msg st = send_message w session msg st"

text \<open>
  The bytes a peer sends until it closes are a list; \<open>_recv_exactly\<close> takes \<open>n\<close> of
  them, or returns \<open>None\<close> when the peer closes first.
\<close>

definition recv_exactly :: "nat \<Rightarrow> bytes \<Rightarrow> (bytes \<times> bytes) option" where
  "recv_exactly n stream =
    (if length stream < n then None else Some (take n stream, drop n stream))"

definition recv_message :: "bytes \<Rightarrow> Message option \<times> bytes" where
  "recv_message stream =
    (case recv_exactly HEADER_SIZE stream of
       None \<Rightarrow> (None, [])
     | Some (header, rest) \<Rightarrow>
         if slice header 0 2 \<noteq> PROTOCOL_MAGIC then (None, rest)
         else
           let payload_len = unat (header ! 5) * 16777216 + unat (header ! 6) * 65536
                             + unat (header ! 7) * 256 + unat (header ! 8)
           in
             if payload_len > MAX_MESSAGE_SIZE then (None, rest)
             else
               (case (if payload_len > 0 then recv_exactly payload_len rest
                      else Some ([], rest)) of
                  None \<Rightarrow> (None, [])
                | Some (payload, rest') \<Rightarrow>
                    (case decode_message (header @ payload) of
                       Inl e \<Rightarrow> (None, rest')
                     | Inr m \<Rightarrow> (m, rest'))))"

subsection \<open>Presence broadcast and cleanup\<close>

text \<open>The loop of \<open>_broadcast_presence\<close> over \<open>self.clients.items()\<close>.\<close>

fun broadcast_loop ::
  "'db World \<Rightarrow> str \<Rightarrow> Message \<Rightarrow> (str \<times> sid) list \<Rightarrow> ('db, unit) handler" where
  "broadcast_loop w name presence_msg [] st = (Inr (), st)"
| "broadcast_loop w name presence_msg ((uname, client_session) # items) st =
    (if uname \<noteq> name then
       then_do (send w client_session presence_msg st)
         (\<lambda>sent. broadcast_loop w name presence_msg items)
     else broadcast_loop w name presence_msg items st)"

text \<open>
  A session that is authenticated has a user name. Were it \<open>None\<close>, every key would
  differ from it and the first \<open>send\<close> would raise inside \<open>encode_message\<close>.
\<close>

definition broadcast_presence ::
  "'db World \<Rightarrow> sid \<Rightarrow> PresenceStatus \<Rightarrow> ('db, unit) handler" where
  "broadcast_presence w session status st =
    (if \<not> authenticated (sessions st session) then (Inr (), st)
     else
       (case username (sessions st session) of
          None \<Rightarrow> (if clients st = [] then (Inr (), st) else (Inl AttributeError, st))
        | Some name \<Rightarrow>
            broadcast_loop w name (PresenceMessage name status) (clients st) st))"

definition close :: "sid \<Rightarrow> 'db IMServer \<Rightarrow> 'db IMServer" where
  "close session st =
    st\<lparr>sessions := (sessions st)(session := (sessions st session)\<lparr>closed := True\<rparr>)\<rparr>"

definition cleanup_session :: "'db World \<Rightarrow> sid \<Rightarrow> ('db, unit) handler" where
  "cleanup_session w session st =
    (case username (sessions st session) of
       Some name \<Rightarrow>
         if authenticated (sessions st session) \<and> name \<noteq> [] then
           then_do
             (broadcast_presence w session OFFLINE
                (st\<lparr>clients := AList.delete name (clients st)\<rparr>))
             (\<lambda>u st'. (Inr (), close session st'))
         else (Inr (), close session st)
     | None \<Rightarrow> (Inr (), close session st))"

subsection \<open>The handlers\<close>

definition NOT_AUTHENTICATED :: Message where
  "NOT_AUTHENTICATED = ErrorMessage (lit ''Not authenticated'')"

definition handle_register :: "'db World \<Rightarrow> sid \<Rightarrow> str \<Rightarrow> str \<Rightarrow> ('db, unit) handler" where
  "handle_register w session msg_username password st =
    (let uname = strip msg_username in
     if length uname < 3 \<or> length uname > 20 then
       returning (send w session
         (ResponseMessage REGISTER FAIL (lit ''Username must be 3-20 characters'')) st)
     else if length password < 4 then
       returning (send w session
         (ResponseMessage REGISTER FAIL (lit ''Password must be at least 4 characters'')) st)
     else if \<not> isalnum w uname then
       returning (send w session
         (ResponseMessage REGISTER FAIL (lit ''Username must be alphanumeric'')) st)
     else
       (case register_user (database w) uname password (db st) of
          (Inl e, d) \<Rightarrow> (Inl e, st\<lparr>db := d\<rparr>)
        | (Inr (success, message), d) \<Rightarrow>
            returning (send w session
              (ResponseMessage REGISTER (if success then SUCCESS else FAIL) message)
              (st\<lparr>db := d\<rparr>))))"

text \<open>
  \<open>_handle_login\<close>: the registry is looked at first, under the lock; the lock is
  released; the store is asked; the lock is taken again for the assignment
  \<open>self.clients[username] = session\<close>.
\<close>

definition handle_login :: "'db World \<Rightarrow> sid \<Rightarrow> str \<Rightarrow> str \<Rightarrow> ('db, unit) handler" where
  "handle_login w session msg_username password st =
    (let uname = strip msg_username in
     if map_of (clients st) uname \<noteq> None then
       returning (send w session
         (ResponseMessage LOGIN FAIL (lit ''User already logged in'')) st)
     else
       (case authenticate_user (database w) uname password (db st) of
          (Inl e, d) \<Rightarrow> (Inl e, st\<lparr>db := d\<rparr>)
        | (Inr (success, message, uid), d) \<Rightarrow>
            if success then
              then_do
                (send w session (ResponseMessage LOGIN SUCCESS message)
                   (st\<lparr>db := d,
                       sessions := (sessions st)(session := (sessions st session)
                         \<lparr>username := Some uname, user_id := uid, authenticated := True\<rparr>),
                       clients := AList.update uname session (clients st)\<rparr>))
                (\<lambda>sent. broadcast_presence w session ONLINE)
            else
              returning (send w session (ResponseMessage LOGIN FAIL message)
                (st\<lparr>db := d\<rparr>))))"

text \<open>
  The two critical sections of \<open>_handle_login\<close>, each on its own, for runs in which
  another thread works between them. \<open>login_guard\<close> is the first
  \<open>with self.clients_lock\<close> block: it answers whether the login goes on.
  \<open>login_enter\<close> is what follows it, in the state the server has by then: the call
  of the store, the assignments to the session, the second \<open>with self.clients_lock\<close>
  block with \<open>self.clients[username] = session\<close>, the reply and the broadcast.
\<close>

definition login_guard :: "'db World \<Rightarrow> sid \<Rightarrow> str \<Rightarrow> ('db, bool) handler" where
  "login_guard w session uname st =
    (if map_of (clients st) uname \<noteq> None then
       then_do
         (send w session (ResponseMessage LOGIN FAIL (lit ''User already logged in'')) st)
         (\<lambda>sent st'. (Inr False, st'))
     else (Inr True, st))"

definition login_enter :: "'db World \<Rightarrow> sid \<Rightarrow> str \<Rightarrow> str \<Rightarrow> ('db, unit) handler" where
  "login_enter w session uname password st =
    (case authenticate_user (database w) uname password (db st) of
       (Inl e, d) \<Rightarrow> (Inl e, st\<lparr>db := d\<rparr>)
     | (Inr (success, message, uid), d) \<Rightarrow>
         if success then
           then_do
             (send w session (ResponseMessage LOGIN SUCCESS message)
                (st\<lparr>db := d,
                    sessions := (sessions st)(session := (sessions st session)
                      \<lparr>username := Some uname, user_id := uid, authenticated := True\<rparr>),
                    clients := AList.update uname session (clients st)\<rparr>))
             (\<lambda>sent. broadcast_presence w session ONLINE)
         else
           returning (send w session (ResponseMessage LOGIN FAIL message)
             (st\<lparr>db := d\<rparr>)))"

definition handle_logout :: "'db World \<Rightarrow> sid \<Rightarrow> ('db, unit) handler" where
  "handle_logout w session st =
    (if authenticated (sessions st session) then
       returning (send w session (ResponseMessage LOGOUT SUCCESS (lit ''Goodbye!'')) st)
     else (Inr (), st))"

definition handle_send_msg ::
  "'db World \<Rightarrow> sid \<Rightarrow> str \<Rightarrow> str \<Rightarrow> str \<Rightarrow> ('db, unit) handler" where
  "handle_send_msg w session to content msg_id st =
    (if \<not> authenticated (sessions st session) then
       returning (send w session NOT_AUTHENTICATED st)
     else
       let recipient = strip to in
       if recipient = [] \<or> content = [] then
         returning (send w session (MsgAckMessage msg_id INVALID_MESSAGE) st)
       else
         (case map_of (clients st) recipient of
            Some recipient_session \<Rightarrow>
              (case username (sessions st session) of
                 None \<Rightarrow> (Inl AttributeError, st)
               | Some sender \<Rightarrow>
                   then_do
                     (send w recipient_session
                        (ReceiveMsgMessage sender content msg_id (now w)) st)
                     (\<lambda>delivered st'.
                        returning (send w session
                          (MsgAckMessage msg_id
                             (if delivered then DELIVERED else DELIVERY_FAILED)) st')))
          | None \<Rightarrow>
              returning (send w session (MsgAckMessage msg_id USER_OFFLINE) st)))"

definition handle_get_contacts :: "'db World \<Rightarrow> sid \<Rightarrow> ('db, unit) handler" where
  "handle_get_contacts w session st =
    (if \<not> authenticated (sessions st session) then
       returning (send w session NOT_AUTHENTICATED st)
     else
       (case get_contacts (database w) (user_id (sessions st session)) (db st) of
          (Inl e, d) \<Rightarrow> (Inl e, st\<lparr>db := d\<rparr>)
        | (Inr contact_usernames, d) \<Rightarrow>
            returning (send w session
              (ContactListMessage
                 (map (\<lambda>name. ContactInfo name
                         (if map_of (clients st) name \<noteq> None then ONLINE else OFFLINE))
                    contact_usernames))
              (st\<lparr>db := d\<rparr>))))"

definition handle_add_contact :: "'db World \<Rightarrow> sid \<Rightarrow> str \<Rightarrow> ('db, unit) handler" where
  "handle_add_contact w session msg_contact st =
    (if \<not> authenticated (sessions st session) then
       returning (send w session NOT_AUTHENTICATED st)
     else
       let contact = strip msg_contact in
       if contact = [] then
         returning (send w session
           (ResponseMessage ADD_CONTACT FAIL (lit ''Invalid username'')) st)
       else
         (case add_contact (database w) (user_id (sessions st session)) contact (db st) of
            (Inl e, d) \<Rightarrow> (Inl e, st\<lparr>db := d\<rparr>)
          | (Inr (success, message), d) \<Rightarrow>
              then_do
                (send w session
                   (ResponseMessage ADD_CONTACT (if success then SUCCESS else FAIL) message)
                   (st\<lparr>db := d\<rparr>))
                (\<lambda>sent st'. if success then handle_get_contacts w session st'
                            else (Inr (), st'))))"

definition handle_remove_contact :: "'db World \<Rightarrow> sid \<Rightarrow> str \<Rightarrow> ('db, unit) handler" where
  "handle_remove_contact w session msg_contact st =
    (if \<not> authenticated (sessions st session) then
       returning (send w session NOT_AUTHENTICATED st)
     else
       (case remove_contact (database w) (user_id (sessions st session))
               (strip msg_contact) (db st) of
          (Inl e, d) \<Rightarrow> (Inl e, st\<lparr>db := d\<rparr>)
        | (Inr (success, message), d) \<Rightarrow>
            then_do
              (send w session
                 (ResponseMessage REMOVE_CONTACT (if success then SUCCESS else FAIL) message)
                 (st\<lparr>db := d\<rparr>))
              (\<lambda>sent st'. if success then handle_get_contacts w session st'
                          else (Inr (), st'))))"

definition handle_search_user :: "'db World \<Rightarrow> sid \<Rightarrow> str \<Rightarrow> ('db, unit) handler" where
  "handle_search_user w session msg_query st =
    (if \<not> authenticated (sessions st session) then
       returning (send w session NOT_AUTHENTICATED st)
     else
       let query = strip msg_query in
       if length query < 1 then
         returning (send w session (UserSearchResultMessage []) st)
       else
         (case search_users (database w) query (user_id (sessions st session)) (db st) of
            (Inl e, d) \<Rightarrow> (Inl e, st\<lparr>db := d\<rparr>)
          | (Inr users, d) \<Rightarrow>
              returning (send w session (UserSearchResultMessage users) (st\<lparr>db := d\<rparr>))))"

definition handle_earthquake :: "'db World \<Rightarrow> sid \<Rightarrow> str \<Rightarrow> int \<Rightarrow> ('db, unit) handler" where
  "handle_earthquake w session to msg_intensity st =
    (if \<not> authenticated (sessions st session) then
       returning (send w session NOT_AUTHENTICATED st)
     else
       let recipient = strip to;
           intensity = max 1 (min 10 msg_intensity)
       in
         (case map_of (clients st) recipient of
            Some recipient_session \<Rightarrow>
              (case username (sessions st session) of
                 None \<Rightarrow> (Inl AttributeError, st)
               | Some sender \<Rightarrow>
                   returning (send w recipient_session
                     (EarthquakeRecvMessage sender intensity) st))
          | None \<Rightarrow>
              returning (send w session (ErrorMessage (lit ''User is offline'')) st)))"

definition handle_avatar_set :: "'db World \<Rightarrow> sid \<Rightarrow> bytes \<Rightarrow> ('db, unit) handler" where
  "handle_avatar_set w session avatar_data st =
    (if \<not> authenticated (sessions st session) then
       returning (send w session NOT_AUTHENTICATED st)
     else if length avatar_data > MAX_AVATAR_SIZE then
       returning (send w session
         (ResponseMessage AVATAR_SET FAIL (lit ''Avatar too large (max 512KB)'')) st)
     else
       (case set_avatar (database w) (user_id (sessions st session)) avatar_data (db st) of
          (Inl e, d) \<Rightarrow> (Inl e, st\<lparr>db := d\<rparr>)
        | (Inr ok, d) \<Rightarrow>
            if ok then
              returning (send w session
                (ResponseMessage AVATAR_SET SUCCESS (lit ''Avatar updated'')) (st\<lparr>db := d\<rparr>))
            else
              returning (send w session
                (ResponseMessage AVATAR_SET FAIL (lit ''Failed to update avatar''))
                (st\<lparr>db := d\<rparr>))))"

definition handle_avatar_get :: "'db World \<Rightarrow> sid \<Rightarrow> str \<Rightarrow> ('db, unit) handler" where
  "handle_avatar_get w session msg_username st =
    (if \<not> authenticated (sessions st session) then
       returning (send w session NOT_AUTHENTICATED st)
     else
       let uname = strip msg_username in
       (case get_avatar (database w) uname (db st) of
          (Inl e, d) \<Rightarrow> (Inl e, st\<lparr>db := d\<rparr>)
        | (Inr avatar_data, d) \<Rightarrow>
            returning (send w session
              (AvatarDataMessage uname (case avatar_data of None \<Rightarrow> [] | Some b \<Rightarrow> b))
              (st\<lparr>db := d\<rparr>))))"

subsection \<open>The read loop of a connection\<close>

text \<open>
  One turn of the \<open>while True\<close> loop of \<open>_handle_client\<close> after a message has been
  received: the \<open>isinstance\<close> chain. \<open>Continue\<close> goes on to the next frame,
  \<open>Break\<close> leaves the loop.
\<close>

datatype loop = Continue | Break

definition continue :: "(error + unit) \<times> 'db IMServer \<Rightarrow> (error + loop) \<times> 'db IMServer" where
  "continue m = (case m of (Inl e, st) \<Rightarrow> (Inl e, st) | (Inr u, st) \<Rightarrow> (Inr Continue, st))"

definition break :: "(error + unit) \<times> 'db IMServer \<Rightarrow> (error + loop) \<times> 'db IMServer" where
  "break m = (case m of (Inl e, st) \<Rightarrow> (Inl e, st) | (Inr u, st) \<Rightarrow> (Inr Break, st))"

fun dispatch :: "'db World \<Rightarrow> sid \<Rightarrow> Message \<Rightarrow> ('db, loop) handler" where
  "dispatch w session (RegisterMessage u p) st = continue (handle_register w session u p st)"
| "dispatch w session (LoginMessage u p) st = continue (handle_login w session u p st)"
| "dispatch w session LogoutMessage st = break (handle_logout w session st)"
| "dispatch w session (SendMsgMessage to content msg_id) st =
    continue (handle_send_msg w session to content msg_id st)"
| "dispatch w session (AddContactMessage c) st = continue (handle_add_contact w session c st)"
| "dispatch w session (RemoveContactMessage c) st =
    continue (handle_remove_contact w session c st)"
| "dispatch w session ContactListReqMessage st = continue (handle_get_contacts w session st)"
| "dispatch w session (UserSearchMessage q) st = continue (handle_search_user w session q st)"
| "dispatch w session (EarthquakeSendMessage to i) st =
    continue (handle_earthquake w session to i st)"
| "dispatch w session (AvatarSetMessage b) st = continue (handle_avatar_set w session b st)"
| "dispatch w session (AvatarGetMessage u) st = continue (handle_avatar_get w session u st)"
| "dispatch w session msg st =
    continue (returning (send w session (ErrorMessage (lit ''Unknown command'')) st))"

text \<open>
  The loop itself. Every frame received takes at least the nine header bytes off the
  stream, so the loop ends. \<open>except Exception\<close> swallows what a handler raises, and
  \<open>finally\<close> runs \<open>_cleanup_session\<close> on every way out.
\<close>

lemma recv_message_consumes:
  "recv_message stream = (Some m, rest) \<Longrightarrow> length rest < length stream"
  by (auto simp: recv_message_def recv_exactly_def HEADER_SIZE_def Let_def
      split: if_splits option.splits sum.splits prod.splits)

function handle_loop :: "'db World \<Rightarrow> sid \<Rightarrow> bytes \<Rightarrow> 'db IMServer \<Rightarrow> 'db IMServer" where
  "handle_loop w session stream st =
    (case recv_message stream of
       (None, rest) \<Rightarrow> st
     | (Some msg, rest) \<Rightarrow>
         (case dispatch w session msg st of
            (Inl e, st') \<Rightarrow> st'
          | (Inr Break, st') \<Rightarrow> st'
          | (Inr Continue, st') \<Rightarrow> handle_loop w session rest st'))"
  by pat_completeness auto
termination
  by (relation "measure (\<lambda>(w, session, stream, st). length stream)")
     (auto dest: recv_message_consumes [OF sym])

declare handle_loop.simps [simp del]

definition handle_client :: "'db World \<Rightarrow> sid \<Rightarrow> bytes \<Rightarrow> ('db, unit) handler" where
  "handle_client w session stream st =
    cleanup_session w session (handle_loop w session stream st)"

subsection \<open>Notions the claims are stated with\<close>

text \<open>A message that \<open>encode_message\<close> turns into a frame, so that \<open>send\<close> reaches the socket.\<close>

definition encodable :: "Message \<Rightarrow> bool" where
  "encodable m = (\<exists>frame. encode_message m = Inr frame)"

text \<open>The frame of a message, as a peer puts it on the connection.\<close>

definition frame_of :: "Message \<Rightarrow> bytes" where
  "frame_of m = (case encode_message m of Inl e \<Rightarrow> [] | Inr frame \<Rightarrow> frame)"

text \<open>
  The eight message classes whose handlers start with the test
  \<open>if not session.authenticated\<close>.
\<close>

fun authenticated_only :: "Message \<Rightarrow> bool" where
  "authenticated_only (SendMsgMessage to content msg_id) = True"
| "authenticated_only (AddContactMessage c) = True"
| "authenticated_only (RemoveContactMessage c) = True"
| "authenticated_only ContactListReqMessage = True"
| "authenticated_only (UserSearchMessage q) = True"
| "authenticated_only (EarthquakeSendMessage to i) = True"
| "authenticated_only (AvatarSetMessage b) = True"
| "authenticated_only (AvatarGetMessage u) = True"
| "authenticated_only m = False"

subsection \<open>A small world for concrete runs\<close>

text \<open>
  A store that accepts every user with the password \<open>pw\<close> and counts the calls of
  \<open>authenticate_user\<close>; a server where carol (session 3) and dave (session 4) are
  online and session 2 has just connected; dave's socket is broken, every other write
  succeeds. \<open>after_alice\<close> and \<open>after_bob\<close> are the states after session 2 has
  logged in as alice and then as bob.
\<close>

definition alice :: str where "alice = lit ''alice''"
definition bob :: str where "bob = lit ''bob''"
definition carol :: str where "carol = lit ''carol''"
definition dave :: str where "dave = lit ''dave''"
definition pw :: str where "pw = lit ''pw''"

definition demo_db :: "nat Database" where
  "demo_db = \<lparr>
     register_user = (\<lambda>u p n. (Inr (True, lit ''Registration successful''), n)),
     authenticate_user = (\<lambda>u p n.
       (Inr (if p = pw then (True, lit ''Login successful'', Some 1)
             else (False, lit ''Invalid password'', None)), Suc n)),
     add_contact = (\<lambda>i c n. (Inr (False, lit ''User not found''), n)),
     remove_contact = (\<lambda>i c n. (Inr (False, lit ''User not found''), n)),
     get_contacts = (\<lambda>i n. (Inr [], n)),
     search_users = (\<lambda>q i n. (Inr [], n)),
     set_avatar = (\<lambda>i b n. (Inr True, n)),
     get_avatar = (\<lambda>u n. (Inr None, n))\<rparr>"

definition demo_world :: "nat World" where
  "demo_world = \<lparr>
     database = demo_db,
     sendall_ok = (\<lambda>c. c \<noteq> 4),
     now = lit ''2024-05-01T12:00:00'',
     isalnum = (\<lambda>s. s \<noteq> [] \<and>
       list_all (\<lambda>c. (48 \<le> c \<and> c \<le> 57) \<or> (65 \<le> c \<and> c \<le> 90) \<or> (97 \<le> c \<and> c \<le> 122)) s)\<rparr>"

definition logged_in :: "str \<Rightarrow> ClientSession" where
  "logged_in name = \<lparr>username = Some name, user_id = Some 1, authenticated = True, closed = False\<rparr>"

definition demo_server :: "nat IMServer" where
  "demo_server = \<lparr>
     db = 0,
     clients = [(carol, 3), (dave, 4)],
     sessions = (\<lambda>c. if c = 3 then logged_in carol else if c = 4 then logged_in dave
                       else new_session),
     wire = []\<rparr>"

definition after_alice :: "nat IMServer" where
  "after_alice = demo_server\<lparr>db := 1,
     sessions := (sessions demo_server)(2 :=
        \<lparr>username = Some alice, user_id = Some 1, authenticated = True, closed = False\<rparr>),
     clients := [(carol, 3), (dave, 4), (alice, 2)],
     wire := [(2, ResponseMessage LOGIN SUCCESS (lit ''Login successful''), True),
              (3, PresenceMessage alice ONLINE, True),
              (4, PresenceMessage alice ONLINE, False)]\<rparr>"

definition after_bob :: "nat IMServer" where
  "after_bob = demo_server\<lparr>db := 2,
     sessions := (sessions demo_server)(2 :=
        \<lparr>username = Some bob, user_id = Some 1, authenticated = True, closed = False\<rparr>),
     clients := [(carol, 3), (dave, 4), (alice, 2), (bob, 2)],
     wire := [(2, ResponseMessage LOGIN SUCCESS (lit ''Login successful''), True),
              (3, PresenceMessage alice ONLINE, True),
              (4, PresenceMessage alice ONLINE, False),
              (2, ResponseMessage LOGIN SUCCESS (lit ''Login successful''), True),
              (3, PresenceMessage bob ONLINE, True),
              (4, PresenceMessage bob ONLINE, False),
              (2, PresenceMessage bob ONLINE, True)]\<rparr>"


subsection \<open>The states a server can reach\<close>

text \<open>
  A server starts with no session registered. From then on a state changes when a
  handler thread handles a message it has received from its connection, or when it
  runs \<open>_cleanup_session\<close> at the end of a connection. Threads take turns, one
  handler call or one clean-up at a time; a login may also run as its two critical
  sections with other steps between them.
\<close>

definition idle_server :: "'db \<Rightarrow> 'db IMServer" where
  "idle_server d = \<lparr>db = d, clients = [], sessions = (\<lambda>c. new_session), wire = []\<rparr>"

inductive reachable :: "'db World \<Rightarrow> 'db IMServer \<Rightarrow> bool" for w :: "'db World" where
  start: "reachable w (idle_server d)"
| received: "reachable w st \<Longrightarrow> recv_message stream = (Some m, rest)
    \<Longrightarrow> reachable w (snd (dispatch w s m st))"
| guarded: "reachable w st \<Longrightarrow> reachable w (snd (login_guard w s uname st))"
| entered: "reachable w st \<Longrightarrow> recv_message stream = (Some (LoginMessage u p), rest)
    \<Longrightarrow> reachable w (snd (login_enter w s (strip u) p st))"
| cleaned: "reachable w st \<Longrightarrow> reachable w (snd (cleanup_session w s st))"

text \<open>
  What holds of the sessions and of the registry in every such state: a session has a
  name exactly when it is authenticated, the name can be written on the wire, a
  registered name occurs once in the registry, can be written on the wire, and belongs
  to an authenticated session.
\<close>

definition session_sound :: "ClientSession \<Rightarrow> bool" where
  "session_sound cs =
    (case username cs of
       None \<Rightarrow> \<not> authenticated cs
     | Some u \<Rightarrow> authenticated cs \<and> valid_str u)"

definition registry_sound :: "'db IMServer \<Rightarrow> bool" where
  "registry_sound st =
    (distinct (map fst (clients st))
     \<and> (\<forall>c. session_sound (sessions st c))
     \<and> list_all (\<lambda>(k, c). valid_str k \<and> authenticated (sessions st c)) (clients st))"

text \<open>Two states with the same sessions and the same registry.\<close>

definition same_registry :: "'db IMServer \<Rightarrow> 'db IMServer \<Rightarrow> bool" where
  "same_registry st st' = (sessions st' = sessions st \<and> clients st' = clients st)"


section \<open>Properties of the wire protocol\<close>

subsection \<open>UTF-8 round trip\<close>

lemma unat_of_nat_byte: "n < 256 \<Longrightarrow> unat (of_nat n :: byte) = n"
  by (simp add: unat_of_nat)

lemma comb3:
  fixes c :: nat
  shows "c = q1 * 64 + r1 \<Longrightarrow> q1 = q2 * 64 + r2 \<Longrightarrow> c = q2 * 4096 + r2 * 64 + r1"
  by (simp add: add_mult_distrib)

lemma comb4:
  fixes c :: nat
  shows "c = q1 * 64 + r1 \<Longrightarrow> q1 = q2 * 64 + r2 \<Longrightarrow> q2 = q3 * 64 + r3
    \<Longrightarrow> c = q3 * 262144 + r3 * 4096 + r2 * 64 + r1"
  by (simp add: add_mult_distrib)

lemma digits2:
  fixes c :: nat
  obtains q r where "c div 64 = q" "c mod 64 = r" "r < 64" "c = q * 64 + r"
  using that [of "c div 64" "c mod 64"] by simp

lemma digits3:
  fixes c :: nat
  obtains q r2 r1 where "c div 4096 = q" "c div 64 mod 64 = r2" "c mod 64 = r1"
    "r2 < 64" "r1 < 64" "c = q * 4096 + r2 * 64 + r1"
proof -
  have a: "c div 4096 = c div 64 div 64" by (simp add: div_mult2_eq)
  have b: "c = c div 64 * 64 + c mod 64" by simp
  have d: "c div 64 = c div 64 div 64 * 64 + c div 64 mod 64" by simp
  have "c = c div 64 div 64 * 4096 + c div 64 mod 64 * 64 + c mod 64"
    by (rule comb3 [OF b d])
  then show ?thesis using that [of "c div 4096" "c div 64 mod 64" "c mod 64"] a by simp
qed

lemma digits4:
  fixes c :: nat
  obtains q r3 r2 r1 where "c div 262144 = q" "c div 4096 mod 64 = r3"
    "c div 64 mod 64 = r2" "c mod 64 = r1"
    "r3 < 64" "r2 < 64" "r1 < 64" "c = q * 262144 + r3 * 4096 + r2 * 64 + r1"
proof -
  have a: "c div 4096 = c div 64 div 64" "c div 262144 = c div 64 div 64 div 64"
    by (simp_all add: div_mult2_eq)
  have b: "c = c div 64 * 64 + c mod 64" by simp
  have d: "c div 64 = c div 64 div 64 * 64 + c div 64 mod 64" by simp
  have e: "c div 64 div 64 = c div 64 div 64 div 64 * 64 + c div 64 div 64 mod 64" by simp
  have "c = c div 64 div 64 div 64 * 262144 + c div 64 div 64 mod 64 * 4096
            + c div 64 mod 64 * 64 + c mod 64"
    by (rule comb4 [OF b d e])
  then show ?thesis
    using that [of "c div 262144" "c div 4096 mod 64" "c div 64 mod 64" "c mod 64"] a by simp
qed

lemma decode_utf8_char:
  assumes "scalar_value c"
  shows "bytes_decode (utf8_char c @ bs) =
         (case bytes_decode bs of Inl e \<Rightarrow> Inl e | Inr s \<Rightarrow> Inr (c # s))"
proof -
  consider "c < 0x80" | "0x80 \<le> c" "c < 0x800" | "0x800 \<le> c" "c < 0x10000" | "0x10000 \<le> c"
    by linarith
  then show ?thesis
  proof cases
    case 1
    define b0 :: byte where "b0 = of_nat c"
    have v: "unat b0 = c" unfolding b0_def using 1 by (intro unat_of_nat_byte) simp
    have u: "utf8_char c = [b0]" using 1 by (simp add: utf8_char_def b0_def)
    show ?thesis unfolding u using v 1 by (simp split: sum.split)
  next
    case 2
    obtain q r where d: "c div 64 = q" "c mod 64 = r" "r < 64" "c = q * 64 + r"
      by (rule digits2)
    have a: "2 \<le> q" "q < 32" using 2 d(3,4) by arith+
    define b0 :: byte where "b0 = of_nat (192 + q)"
    define b1 :: byte where "b1 = of_nat (128 + r)"
    have v: "unat b0 = 192 + q" "unat b1 = 128 + r"
      unfolding b0_def b1_def using a d(3) by (intro unat_of_nat_byte; simp)+
    have u: "utf8_char c = [b0, b1]"
      using 2 d(1,2) by (simp add: utf8_char_def b0_def b1_def)
    show ?thesis unfolding u using v a d(3,4)
      by (simp add: continuation_def split: sum.split)
  next
    case 3
    obtain q r2 r1 where d: "c div 4096 = q" "c div 64 mod 64 = r2" "c mod 64 = r1"
      "r2 < 64" "r1 < 64" "c = q * 4096 + r2 * 64 + r1"
      by (rule digits3)
    have s: "\<not> (55296 \<le> c \<and> c \<le> 57343)" using assms by (simp add: scalar_value_def)
    have a: "q < 16" "q = 0 \<longrightarrow> 32 \<le> r2" "q = 13 \<longrightarrow> r2 < 32"
      using 3 s d(4,5,6) by arith+
    define b0 :: byte where "b0 = of_nat (224 + q)"
    define b1 :: byte where "b1 = of_nat (128 + r2)"
    define b2 :: byte where "b2 = of_nat (128 + r1)"
    have v: "unat b0 = 224 + q" "unat b1 = 128 + r2" "unat b2 = 128 + r1"
      unfolding b0_def b1_def b2_def using a d(4,5) by (intro unat_of_nat_byte; simp)+
    have u: "utf8_char c = [b0, b1, b2]"
      using 3 d(1,2,3) by (simp add: utf8_char_def b0_def b1_def b2_def)
    show ?thesis unfolding u using v a d(4,5,6)
      by (simp add: continuation_def split: sum.split)
  next
    case 4
    obtain q r3 r2 r1 where d: "c div 262144 = q" "c div 4096 mod 64 = r3"
      "c div 64 mod 64 = r2" "c mod 64 = r1"
      "r3 < 64" "r2 < 64" "r1 < 64" "c = q * 262144 + r3 * 4096 + r2 * 64 + r1"
      by (rule digits4)
    have s: "c < 1114112" using assms by (simp add: scalar_value_def)
    have a: "q \<le> 4" "q = 0 \<longrightarrow> 16 \<le> r3" "q = 4 \<longrightarrow> r3 < 16"
      using 4 s d(5,6,7,8) by arith+
    define b0 :: byte where "b0 = of_nat (240 + q)"
    define b1 :: byte where "b1 = of_nat (128 + r3)"
    define b2 :: byte where "b2 = of_nat (128 + r2)"
    define b3 :: byte where "b3 = of_nat (128 + r1)"
    have v: "unat b0 = 240 + q" "unat b1 = 128 + r3" "unat b2 = 128 + r2" "unat b3 = 128 + r1"
      unfolding b0_def b1_def b2_def b3_def using a d(5,6,7)
      by (intro unat_of_nat_byte; simp)+
    have u: "utf8_char c = [b0, b1, b2, b3]"
      using 4 d(1,2,3,4) by (simp add: utf8_char_def b0_def b1_def b2_def b3_def)
    show ?thesis unfolding u using v a d(5,6,7,8)
      by (simp add: continuation_def split: sum.split)
  qed
qed

lemma bytes_decode_utf8: "list_all scalar_value s \<Longrightarrow> bytes_decode (utf8 s) = Inr s"
  by (induction s) (simp_all add: utf8_def decode_utf8_char)

lemma str_encode_valid: "valid_str s \<Longrightarrow> str_encode s = Inr (utf8 s)"
  by (simp add: valid_str_def str_encode_def utf8_def)

lemma unat_be16:
  assumes "n < 65536"
  shows "unat (of_nat (n div 256) :: byte) * 256 + unat (of_nat (n mod 256) :: byte) = n"
proof -
  have "n div 256 < 256" using assms by arith
  then show ?thesis by (simp add: unat_of_nat_byte)
qed

lemma comb256:
  fixes n :: nat
  shows "n = q1 * 256 + r1 \<Longrightarrow> q1 = q2 * 256 + r2 \<Longrightarrow> q2 = q3 * 256 + r3
    \<Longrightarrow> n = q3 * 16777216 + r3 * 65536 + r2 * 256 + r1"
  by (simp add: add_mult_distrib)

lemma unat_be32:
  assumes "n < 4294967296"
  shows "unat (of_nat (n div 16777216) :: byte) * 16777216
       + unat (of_nat (n div 65536 mod 256) :: byte) * 65536
       + unat (of_nat (n div 256 mod 256) :: byte) * 256
       + unat (of_nat (n mod 256) :: byte) = n"
proof -
  have a: "n div 16777216 < 256" using assms by arith
  have b: "n div 65536 = n div 256 div 256" "n div 16777216 = n div 256 div 256 div 256"
    by (simp_all add: div_mult2_eq)
  have c1: "n = n div 256 * 256 + n mod 256" by simp
  have c2: "n div 256 = n div 256 div 256 * 256 + n div 256 mod 256" by simp
  have c3: "n div 256 div 256 = n div 256 div 256 div 256 * 256 + n div 256 div 256 mod 256"
    by simp
  have "n = n div 256 div 256 div 256 * 16777216 + n div 256 div 256 mod 256 * 65536
             + n div 256 mod 256 * 256 + n mod 256"
    by (rule comb256 [OF c1 c2 c3])
  then have "n div 16777216 * 16777216 + n div 65536 mod 256 * 65536
             + n div 256 mod 256 * 256 + n mod 256 = n"
    unfolding b by simp
  then show ?thesis using a by (simp add: unat_of_nat_byte)
qed

lemma length_be16 [simp]: "length (be16 n) = 2"
  by (simp add: be16_def)

lemma length_be32 [simp]: "length (be32 n) = 4"
  by (simp add: be32_def)

lemma reads_uint8: "n < 256 \<Longrightarrow> reads read_uint8 [of_nat n] n"
  by (simp add: reads_def read_uint8_def unpack_from_B_def unat_of_nat_byte nth_append)

lemma reads_uint16: "n < 65536 \<Longrightarrow> reads read_uint16 (be16 n) n"
  using unat_be16 [of n]
  by (simp add: reads_def read_uint16_def unpack_from_H_def be16_def nth_append)

lemma reads_uint32: "n < 4294967296 \<Longrightarrow> reads read_uint32 (be32 n) n"
  using unat_be32 [of n]
  by (simp add: reads_def read_uint32_def unpack_from_I_def be32_def nth_append)

lemma reads_then:
  assumes "reads m e1 x" and "reads (f x) e2 y"
  shows "reads (read_then m f) (e1 @ e2) y"
  unfolding reads_def
proof (intro allI)
  fix pre post
  have 1: "m \<lparr>data = pre @ e1 @ (e2 @ post), offset = length pre\<rparr>
      = Inr (x, \<lparr>data = pre @ e1 @ (e2 @ post), offset = length pre + length e1\<rparr>)"
    using assms(1) unfolding reads_def by blast
  have 2: "f x \<lparr>data = (pre @ e1) @ e2 @ post, offset = length (pre @ e1)\<rparr>
      = Inr (y, \<lparr>data = (pre @ e1) @ e2 @ post, offset = length (pre @ e1) + length e2\<rparr>)"
    using assms(2) unfolding reads_def by blast
  show "read_then m f \<lparr>data = pre @ (e1 @ e2) @ post, offset = length pre\<rparr> =
        Inr (y, \<lparr>data = pre @ (e1 @ e2) @ post, offset = length pre + length (e1 @ e2)\<rparr>)"
    using 1 2 by (simp add: read_then_def add.assoc)
qed

lemma reads_done: "reads (read_done x) [] x"
  by (simp add: reads_def read_done_def)

lemma reads_then_done:
  assumes "reads m e x"
  shows "reads (read_then m (\<lambda>v. read_done (g v))) e (g x)"
  using reads_then [OF assms, of "\<lambda>v. read_done (g v)" "[]" "g x"] reads_done [of "g x"]
  by simp

lemma reads_map:
  assumes "reads m e x" and "g x = Inr y"
  shows "reads (read_map m g) e y"
  using assms by (simp add: reads_def read_map_def)

lemma reads_string:
  assumes "valid_str s"
  shows "reads read_string (str_bytes s) s"
proof -
  have n: "length (utf8 s) < 65536" and d: "bytes_decode (utf8 s) = Inr s"
    using assms by (simp_all add: valid_str_def bytes_decode_utf8)
  have "reads read_uint16 (be16 (length (utf8 s))) (length (utf8 s))"
    using n by (rule reads_uint16)
  then show ?thesis
    unfolding reads_def str_bytes_def read_string_def
    using d by (simp add: slice_def add.assoc)
qed

lemma reads_bytes:
  assumes "length b < 4294967296"
  shows "reads read_bytes (be32 (length b) @ b) b"
proof -
  have "reads read_uint32 (be32 (length b)) (length b)"
    using assms by (rule reads_uint32)
  then show ?thesis
    unfolding reads_def read_bytes_def
    by (simp add: slice_def add.assoc)
qed


subsection \<open>Writing and reading back a payload\<close>

lemma write_uint8_ok: "0 \<le> v \<Longrightarrow> v < 256 \<Longrightarrow> write_uint8 v buf = Inr (buf @ [of_nat (nat v)])"
  by (simp add: write_uint8_def pack_B_def)

lemma write_uint8_nat: "n < 256 \<Longrightarrow> write_uint8 (int n) buf = Inr (buf @ [of_nat n])"
  by (simp add: write_uint8_def pack_B_def)

lemma write_uint16_nat: "n < 65536 \<Longrightarrow> write_uint16 (int n) buf = Inr (buf @ be16 n)"
  by (simp add: write_uint16_def pack_H_def)

lemma write_uint32_nat: "n < 4294967296 \<Longrightarrow> write_uint32 (int n) buf = Inr (buf @ be32 n)"
  by (simp add: write_uint32_def pack_I_def)

lemma write_string_ok: "valid_str s \<Longrightarrow> write_string s buf = Inr (buf @ str_bytes s)"
  by (simp add: write_string_def str_encode_valid write_uint16_nat str_bytes_def valid_str_def)

lemma write_bytes_ok:
  "length b < 4294967296 \<Longrightarrow> write_bytes b buf = Inr (buf @ be32 (length b) @ b)"
  by (simp add: write_bytes_def write_uint32_nat)

lemma and_then_Inr [simp]: "and_then (Inr x) f = f x"
  by (simp add: and_then_def)

lemma and_then_Inl [simp]: "and_then (Inl e) f = Inl e"
  by (simp add: and_then_def)

lemma PresenceStatus_value_lt: "PresenceStatus_value st < 256"
  by (cases st) simp_all

lemma AckStatus_value_lt: "AckStatus_value st < 256"
  by (cases st) simp_all

lemma ActionCode_value_lt: "ActionCode_value a < 256"
  by (cases a) simp_all

lemma ResponseCode_value_lt: "ResponseCode_value c < 256"
  by (cases c) simp_all

lemma PresenceStatus_of_value: "PresenceStatus_of (PresenceStatus_value st) = Inr st"
  by (cases st) (simp_all add: PresenceStatus_of_def)

lemma AckStatus_of_value: "AckStatus_of (AckStatus_value st) = Inr st"
  by (cases st) (simp_all add: AckStatus_of_def)

lemma ActionCode_of_value: "ActionCode_of (ActionCode_value a) = Inr a"
  by (cases a) (simp_all add: ActionCode_of_def)

lemma ResponseCode_of_value: "ResponseCode_of (ResponseCode_value c) = Inr c"
  by (cases c) (simp_all add: ResponseCode_of_def)

lemma Command_of_value: "Command_of (Command_value c) = Some c"
  by (cases c) (simp_all add: Command_of_def)

lemma Command_value_lt: "Command_value c < 65536"
  by (cases c) simp_all

lemma write_contacts_ok:
  "list_all valid_contact cs \<Longrightarrow>
   write_contacts cs buf = Inr (buf @ concat (map contact_bytes cs))"
proof (induction cs arbitrary: buf)
  case Nil
  then show ?case by simp
next
  case (Cons c cs)
  obtain name st where c: "c = ContactInfo name st" by (cases c)
  show ?case using Cons
    by (simp add: c write_string_ok write_uint8_nat PresenceStatus_value_lt)
qed

lemma write_users_ok:
  "list_all valid_str us \<Longrightarrow> write_users us buf = Inr (buf @ concat (map str_bytes us))"
  by (induction us arbitrary: buf) (simp_all add: write_string_ok)

lemma write_payload_ok:
  assumes "valid_fields m" and "list_count m \<le> 65535" and "length (payload_of m) < 4294967296"
  shows "write_payload m = Inr (payload_of m)"
  using assms
  by (cases m)
     (simp_all add: write_string_ok write_uint8_nat write_uint8_ok write_uint16_nat
        write_bytes_ok write_contacts_ok write_users_ok valid_uint8_def
        PresenceStatus_value_lt AckStatus_value_lt ActionCode_value_lt ResponseCode_value_lt)

lemma reads_PresenceStatus:
  "reads (read_map read_uint8 PresenceStatus_of) [of_nat (PresenceStatus_value st)] st"
  using reads_uint8 [OF PresenceStatus_value_lt, of st]
  by (simp add: reads_def read_map_def PresenceStatus_of_value)

lemma reads_AckStatus:
  "reads (read_map read_uint8 AckStatus_of) [of_nat (AckStatus_value st)] st"
  using reads_uint8 [OF AckStatus_value_lt, of st]
  by (simp add: reads_def read_map_def AckStatus_of_value)

lemma reads_ActionCode:
  "reads (read_map read_uint8 ActionCode_of) [of_nat (ActionCode_value a)] a"
  using reads_uint8 [OF ActionCode_value_lt, of a]
  by (simp add: reads_def read_map_def ActionCode_of_value)

lemma reads_ResponseCode:
  "reads (read_map read_uint8 ResponseCode_of) [of_nat (ResponseCode_value c)] c"
  using reads_uint8 [OF ResponseCode_value_lt, of c]
  by (simp add: reads_def read_map_def ResponseCode_of_value)

lemma reads_contacts:
  "list_all valid_contact cs \<Longrightarrow>
   reads (read_contacts (length cs)) (concat (map contact_bytes cs)) cs"
proof (induction cs)
  case Nil
  then show ?case by (simp add: reads_done)
next
  case (Cons c cs)
  obtain name st where c: "c = ContactInfo name st" by (cases c)
  have v: "valid_str name" and r: "reads (read_contacts (length cs)) (concat (map contact_bytes cs)) cs"
    using Cons by (simp_all add: c)
  note s = reads_PresenceStatus [of st]
  have "reads (read_contacts (Suc (length cs)))
          (str_bytes name @ [of_nat (PresenceStatus_value st)] @ concat (map contact_bytes cs))
          (ContactInfo name st # cs)"
    unfolding read_contacts.simps
    by (intro reads_then [OF reads_string [OF v]] reads_then [OF s] reads_then_done [OF r])
  then show ?case by (simp add: c)
qed

lemma reads_users:
  "list_all valid_str us \<Longrightarrow> reads (read_users (length us)) (concat (map str_bytes us)) us"
proof (induction us)
  case Nil
  then show ?case by (simp add: reads_done)
next
  case (Cons u us)
  have v: "valid_str u" and r: "reads (read_users (length us)) (concat (map str_bytes us)) us"
    using Cons by simp_all
  have "reads (read_users (Suc (length us))) (str_bytes u @ concat (map str_bytes us)) (u # us)"
    unfolding read_users.simps
    by (intro reads_then [OF reads_string [OF v]] reads_then_done [OF r])
  then show ?case by simp
qed


lemma reads_uint8_int:
  assumes "valid_uint8 v"
  shows "reads (read_then read_uint8 (\<lambda>i. read_done (g (int i)))) [of_nat (nat v)] (g v)"
proof -
  have "nat v < 256" "int (nat v) = v" using assms by (auto simp add: valid_uint8_def)
  then show ?thesis using reads_then_done [OF reads_uint8, of "nat v" "\<lambda>i. g (int i)"] by simp
qed

lemma reads_payload:
  assumes "valid_fields m" and "list_count m \<le> 65535" and "length (payload_of m) < 4294967296"
  shows "reads (read_payload (command m)) (payload_of m) m"
proof (cases m)
  case (RegisterMessage u p)
  then show ?thesis using assms
    by (auto intro!: reads_then reads_then_done reads_string)
next
  case (LoginMessage u p)
  then show ?thesis using assms
    by (auto intro!: reads_then reads_then_done reads_string)
next
  case LogoutMessage
  then show ?thesis by (simp add: reads_done)
next
  case (SendMsgMessage to content msg_id)
  then show ?thesis using assms
    by (auto intro!: reads_then reads_then_done reads_string)
next
  case (ReceiveMsgMessage from_user content msg_id timestamp)
  then show ?thesis using assms
    by (auto intro!: reads_then reads_then_done reads_string)
next
  case (MsgAckMessage msg_id status)
  then show ?thesis using assms
    by (auto intro!: reads_then reads_then_done reads_string reads_AckStatus)
next
  case (AddContactMessage contact)
  then show ?thesis using assms
    by (auto intro!: reads_then_done reads_string)
next
  case (RemoveContactMessage contact)
  then show ?thesis using assms
    by (auto intro!: reads_then_done reads_string)
next
  case ContactListReqMessage
  then show ?thesis by (simp add: reads_done)
next
  case (ContactListMessage contacts)
  then have "length contacts < 65536" "list_all valid_contact contacts" using assms by simp_all
  then show ?thesis unfolding ContactListMessage
    by (auto intro!: reads_then reads_then_done reads_uint16 reads_contacts)
next
  case (UserSearchMessage query)
  then show ?thesis using assms
    by (auto intro!: reads_then_done reads_string)
next
  case (UserSearchResultMessage users)
  then have "length users < 65536" "list_all valid_str users" using assms by simp_all
  then show ?thesis unfolding UserSearchResultMessage
    by (auto intro!: reads_then reads_then_done reads_uint16 reads_users)
next
  case (PresenceMessage username status)
  then show ?thesis using assms
    by (auto intro!: reads_then reads_then_done reads_string reads_PresenceStatus)
next
  case (ResponseMessage action code message)
  have "reads (read_payload QPROTO_RESPONSE)
     ([of_nat (ActionCode_value action)] @ [of_nat (ResponseCode_value code)] @ str_bytes message)
     (ResponseMessage action code message)"
    using assms unfolding ResponseMessage read_payload.simps
    by (intro reads_then [OF reads_ActionCode] reads_then [OF reads_ResponseCode]
          reads_then_done reads_string) simp
  then show ?thesis by (simp add: ResponseMessage)
next
  case (ErrorMessage message)
  then show ?thesis using assms
    by (auto intro!: reads_then_done reads_string)
next
  case (EarthquakeSendMessage to intensity)
  then show ?thesis using assms
    by (auto intro!: reads_then reads_string reads_uint8_int)
next
  case (EarthquakeRecvMessage from_user intensity)
  then show ?thesis using assms
    by (auto intro!: reads_then reads_string reads_uint8_int)
next
  case (AvatarSetMessage avatar_data)
  then show ?thesis using assms
    by (auto intro!: reads_then_done reads_bytes)
next
  case (AvatarGetMessage username)
  then show ?thesis using assms
    by (auto intro!: reads_then_done reads_string)
next
  case (AvatarDataMessage username avatar_data)
  then have v: "valid_str username" and l: "length avatar_data < 4294967296"
    using assms by simp_all
  have "reads (read_payload QPROTO_AVATAR_DATA)
     (str_bytes username @ be32 (length avatar_data) @ avatar_data)
     (AvatarDataMessage username avatar_data)"
    unfolding read_payload.simps
    by (intro reads_then [OF reads_string [OF v]] reads_then_done [OF reads_bytes [OF l]])
  then show ?thesis by (simp add: AvatarDataMessage)
next
  case (PlainMessage c)
  then show ?thesis using assms by simp
qed

lemma read_payload_whole:
  assumes "reads (read_payload c) p m"
  shows "\<exists>r. read_payload c \<lparr>data = p, offset = 0\<rparr> = Inr (m, r)"
  using assms [unfolded reads_def, rule_format, of "[]" "[]"] by simp

lemma decode_message_frame:
  assumes "reads (read_payload c) p m" and "length p < 4294967296"
  shows "decode_message (PROTOCOL_MAGIC @ [PROTOCOL_VERSION] @ be16 (Command_value c)
           @ be32 (length p) @ p) = Inr (Some m)"
proof -
  obtain r where r: "read_payload c \<lparr>data = p, offset = 0\<rparr> = Inr (m, r)"
    using read_payload_whole [OF assms(1)] by blast
  have c: "unat (of_nat (Command_value c div 256) :: byte) * 256
           + unat (of_nat (Command_value c mod 256) :: byte) = Command_value c"
    by (rule unat_be16 [OF Command_value_lt])
  note l = unat_be32 [OF assms(2)]
  show ?thesis
    using c l r
    by (simp add: decode_message_def HEADER_SIZE_def PROTOCOL_MAGIC_def be16_def be32_def
        slice_def Command_of_value Let_def)
qed

lemma encode_message_ok:
  assumes "valid_fields m" and "list_count m \<le> 65535" and "length (payload_of m) < 4294967296"
  shows "encode_message m = Inr (PROTOCOL_MAGIC @ [PROTOCOL_VERSION]
           @ be16 (Command_value (command m)) @ be32 (length (payload_of m)) @ payload_of m)"
  using assms(3) Command_value_lt [of "command m"]
  by (simp add: encode_message_def write_payload_ok [OF assms] pack_H_def pack_I_def)

subsection \<open>What a decoder returns is valid for the wire\<close>

lemma divmod64: "r < 64 \<Longrightarrow> (q * 64 + r) div 64 = q \<and> (q * 64 + r) mod 64 = (r::nat)"
  by simp

lemma utf8_char_1: "c < 128 \<Longrightarrow> utf8_char c = [of_nat c]"
  by (simp add: utf8_char_def)

lemma utf8_char_2:
  assumes "2 \<le> q" "q < 32" "r < 64"
  shows "utf8_char (q * 64 + r) = [of_nat (192 + q), of_nat (128 + r)]"
proof -
  have "128 \<le> q * 64 + r" "q * 64 + r < 2048" using assms by arith+
  then show ?thesis using assms(3) by (simp add: utf8_char_def)
qed

lemma digits3_of:
  assumes "r2 < 64" "r1 < 64"
  shows "(q * 4096 + r2 * 64 + r1) div 4096 = q
       \<and> (q * 4096 + r2 * 64 + r1) div 64 mod 64 = r2
       \<and> (q * 4096 + r2 * 64 + r1) mod 64 = (r1::nat)"
proof -
  let ?c = "q * 4096 + r2 * 64 + r1"
  have c: "?c = (q * 64 + r2) * 64 + r1" by (simp add: add_mult_distrib)
  have d1: "?c div 64 = q * 64 + r2 \<and> ?c mod 64 = r1"
    unfolding c by (rule divmod64 [OF assms(2)])
  have d2: "(q * 64 + r2) div 64 = q \<and> (q * 64 + r2) mod 64 = r2"
    by (rule divmod64 [OF assms(1)])
  have "?c div 4096 = ?c div 64 div 64" by (simp add: div_mult2_eq)
  then show ?thesis using d1 d2 by presburger
qed

lemma digits4_of:
  assumes "r3 < 64" "r2 < 64" "r1 < 64"
  shows "(q * 262144 + r3 * 4096 + r2 * 64 + r1) div 262144 = q
       \<and> (q * 262144 + r3 * 4096 + r2 * 64 + r1) div 4096 mod 64 = r3
       \<and> (q * 262144 + r3 * 4096 + r2 * 64 + r1) div 64 mod 64 = r2
       \<and> (q * 262144 + r3 * 4096 + r2 * 64 + r1) mod 64 = (r1::nat)"
proof -
  let ?c = "q * 262144 + r3 * 4096 + r2 * 64 + r1"
  have c: "?c = (q * 64 + r3) * 4096 + r2 * 64 + r1" by (simp add: add_mult_distrib)
  have d: "?c div 4096 = q * 64 + r3 \<and> ?c div 64 mod 64 = r2 \<and> ?c mod 64 = r1"
    unfolding c by (rule digits3_of [OF assms(2,3)])
  have d2: "(q * 64 + r3) div 64 = q \<and> (q * 64 + r3) mod 64 = r3"
    by (rule divmod64 [OF assms(1)])
  have "?c div 262144 = ?c div 4096 div 64" by (simp add: div_mult2_eq)
  then show ?thesis using d d2 by presburger
qed

lemma utf8_char_3:
  assumes "q < 16" "r2 < 64" "r1 < 64" "q = 0 \<longrightarrow> 32 \<le> r2"
  shows "utf8_char (q * 4096 + r2 * 64 + r1)
         = [of_nat (224 + q), of_nat (128 + r2), of_nat (128 + r1)]"
proof -
  let ?c = "q * 4096 + r2 * 64 + r1"
  have b: "\<not> ?c < 128" "\<not> ?c < 2048" "?c < 65536" using assms by arith+
  note d = digits3_of [OF assms(2,3), of q]
  have "utf8_char ?c = [of_nat (224 + ?c div 4096), of_nat (128 + ?c div 64 mod 64),
      of_nat (128 + ?c mod 64)]"
    unfolding utf8_char_def using b by (simp only: if_False if_True)
  then show ?thesis using d by presburger
qed

lemma utf8_char_4:
  assumes "q \<le> 4" "r3 < 64" "r2 < 64" "r1 < 64" "q = 0 \<longrightarrow> 16 \<le> r3"
  shows "utf8_char (q * 262144 + r3 * 4096 + r2 * 64 + r1)
         = [of_nat (240 + q), of_nat (128 + r3), of_nat (128 + r2), of_nat (128 + r1)]"
proof -
  let ?c = "q * 262144 + r3 * 4096 + r2 * 64 + r1"
  have b: "\<not> ?c < 128" "\<not> ?c < 2048" "\<not> ?c < 65536" using assms by arith+
  note d = digits4_of [OF assms(2,3,4), of q]
  have "utf8_char ?c = [of_nat (240 + ?c div 262144), of_nat (128 + ?c div 4096 mod 64),
      of_nat (128 + ?c div 64 mod 64), of_nat (128 + ?c mod 64)]"
    unfolding utf8_char_def using b by (simp only: if_False if_True)
  then show ?thesis using d by presburger
qed

lemma bytes_decode_Cons_cases:
  assumes "bytes_decode (b0 # bs) = Inr s"
  obtains
    (one) s' where "unat b0 < 128" "bytes_decode bs = Inr s'" "s = unat b0 # s'"
  | (two) b1 r s' where "194 \<le> unat b0" "unat b0 \<le> 223" "bs = b1 # r" "continuation b1"
      "bytes_decode r = Inr s'" "s = ((unat b0 - 192) * 64 + (unat b1 - 128)) # s'"
  | (three) b1 b2 r s' where "224 \<le> unat b0" "unat b0 \<le> 239" "bs = b1 # b2 # r"
      "continuation b1" "continuation b2"
      "unat b0 = 224 \<longrightarrow> 160 \<le> unat b1" "unat b0 = 237 \<longrightarrow> unat b1 < 160"
      "bytes_decode r = Inr s'"
      "s = ((unat b0 - 224) * 4096 + (unat b1 - 128) * 64 + (unat b2 - 128)) # s'"
  | (four) b1 b2 b3 r s' where "240 \<le> unat b0" "unat b0 \<le> 244" "bs = b1 # b2 # b3 # r"
      "continuation b1" "continuation b2" "continuation b3"
      "unat b0 = 240 \<longrightarrow> 144 \<le> unat b1" "unat b0 = 244 \<longrightarrow> unat b1 < 144"
      "bytes_decode r = Inr s'"
      "s = ((unat b0 - 240) * 262144 + (unat b1 - 128) * 4096 + (unat b2 - 128) * 64
            + (unat b3 - 128)) # s'"
proof -
  consider "unat b0 < 128" | "194 \<le> unat b0" "unat b0 \<le> 223"
    | "224 \<le> unat b0" "unat b0 \<le> 239" | "240 \<le> unat b0" "unat b0 \<le> 244"
    | "128 \<le> unat b0" "unat b0 < 194" | "244 < unat b0"
    by linarith
  then show ?thesis
  proof cases
    case 1
    then show ?thesis using assms one by (auto split: sum.splits)
  next
    case 2
    then show ?thesis using assms two by (auto split: sum.splits list.splits if_splits)
  next
    case 3
    then show ?thesis using assms three by (auto split: sum.splits list.splits if_splits)
  next
    case 4
    then show ?thesis using assms four by (auto split: sum.splits list.splits if_splits)
  next
    case 5
    then show ?thesis using assms by simp
  next
    case 6
    then show ?thesis using assms by simp
  qed
qed

lemma of_nat_unat_byte: "of_nat (unat b) = (b :: byte)"
  by simp

lemma bytes_decode_sound:
  "bytes_decode bs = Inr s \<Longrightarrow> list_all scalar_value s \<and> utf8 s = bs"
proof (induction bs arbitrary: s rule: length_induct)
  case (1 bs)
  have IH: "\<And>ys x. length ys < length bs \<Longrightarrow> bytes_decode ys = Inr x
      \<Longrightarrow> list_all scalar_value x \<and> utf8 x = ys"
    using 1(1) by blast
  show ?case
  proof (cases bs)
    case Nil
    then show ?thesis using 1(2) by (simp add: utf8_def)
  next
    case (Cons b0 rest)
    have dec: "bytes_decode (b0 # rest) = Inr s" using 1(2) Cons by simp
    from dec show ?thesis
    proof (cases rule: bytes_decode_Cons_cases)
      case (one s')
      have ih: "list_all scalar_value s' \<and> utf8 s' = rest"
        by (rule IH [OF _ one(2)]) (simp add: Cons)
      have "utf8_char (unat b0) = [b0]" using one(1) by (simp add: utf8_char_1)
      moreover have "scalar_value (unat b0)" using one(1) by (simp add: scalar_value_def)
      ultimately show ?thesis using ih one(3) Cons by (simp add: utf8_def)
    next
      case (two b1 r s')
      have ih: "list_all scalar_value s' \<and> utf8 s' = r"
        by (rule IH [OF _ two(5)]) (simp add: Cons two(3))
      define q where "q = unat b0 - 192"
      define r1 where "r1 = unat b1 - 128"
      have c1: "128 \<le> unat b1" "unat b1 \<le> 191"
        using two(4) by (simp_all add: continuation_def)
      have b: "2 \<le> q" "q < 32" "r1 < 64" "192 + q = unat b0" "128 + r1 = unat b1"
        unfolding q_def r1_def using two(1,2) c1 by linarith+
      have u: "utf8_char (q * 64 + r1) = [b0, b1]"
        using utf8_char_2 [OF b(1,2,3)] unfolding b(4,5) by simp
      have "q * 64 + r1 < 2048" using b(2,3) by linarith
      then have sv: "scalar_value (q * 64 + r1)"
        unfolding scalar_value_def by linarith
      show ?thesis using ih u sv two(3,6) Cons unfolding q_def r1_def by (simp add: utf8_def)
    next
      case (three b1 b2 r s')
      have ih: "list_all scalar_value s' \<and> utf8 s' = r"
        by (rule IH [OF _ three(8)]) (simp add: Cons three(3))
      define q where "q = unat b0 - 224"
      define r2 where "r2 = unat b1 - 128"
      define r1 where "r1 = unat b2 - 128"
      have c1: "128 \<le> unat b1" "unat b1 \<le> 191" "128 \<le> unat b2" "unat b2 \<le> 191"
        using three(4,5) by (simp_all add: continuation_def)
      have b: "q < 16" "r2 < 64" "r1 < 64"
        unfolding q_def r2_def r1_def using three(1,2) c1 by linarith+
      have b0: "q = 0 \<longrightarrow> 32 \<le> r2"
      proof
        assume "q = 0"
        then have "unat b0 = 224" unfolding q_def using three(1) by linarith
        then have "160 \<le> unat b1" using three(6) by simp
        then show "32 \<le> r2" unfolding r2_def by linarith
      qed
      have b13: "q = 13 \<longrightarrow> r2 < 32"
      proof
        assume "q = 13"
        then have "unat b0 = 237" unfolding q_def using three(1) by linarith
        then have "unat b1 < 160" using three(7) by simp
        then show "r2 < 32" unfolding r2_def using c1 by linarith
      qed
      have e: "224 + q = unat b0" "128 + r2 = unat b1" "128 + r1 = unat b2"
        unfolding q_def r2_def r1_def using three(1) c1 by linarith+
      have u: "utf8_char (q * 4096 + r2 * 64 + r1) = [b0, b1, b2]"
        using utf8_char_3 [OF b(1,2,3) b0] unfolding e by simp
      have lt: "q * 4096 + r2 * 64 + r1 < 1114112" using b by linarith
      consider "q < 13" | "q = 13" | "13 < q" by linarith
      then have ns: "\<not> (55296 \<le> q * 4096 + r2 * 64 + r1 \<and> q * 4096 + r2 * 64 + r1 \<le> 57343)"
      proof cases
        case 1
        then show ?thesis using b by linarith
      next
        case 2
        then have "r2 < 32" using b13 by simp
        then show ?thesis using 2 b by linarith
      next
        case 3
        then show ?thesis by linarith
      qed
      have sv: "scalar_value (q * 4096 + r2 * 64 + r1)"
        unfolding scalar_value_def using lt ns by simp
      show ?thesis using ih u sv three(3,9) Cons unfolding q_def r2_def r1_def
        by (simp add: utf8_def)
    next
      case (four b1 b2 b3 r s')
      have ih: "list_all scalar_value s' \<and> utf8 s' = r"
        by (rule IH [OF _ four(9)]) (simp add: Cons four(3))
      define q where "q = unat b0 - 240"
      define r3 where "r3 = unat b1 - 128"
      define r2 where "r2 = unat b2 - 128"
      define r1 where "r1 = unat b3 - 128"
      have c1: "128 \<le> unat b1" "unat b1 \<le> 191" "128 \<le> unat b2" "unat b2 \<le> 191"
        "128 \<le> unat b3" "unat b3 \<le> 191"
        using four(4,5,6) by (simp_all add: continuation_def)
      have b: "q \<le> 4" "r3 < 64" "r2 < 64" "r1 < 64"
        unfolding q_def r3_def r2_def r1_def using four(1,2) c1 by linarith+
      have b0: "q = 0 \<longrightarrow> 16 \<le> r3"
      proof
        assume "q = 0"
        then have "unat b0 = 240" unfolding q_def using four(1) by linarith
        then have "144 \<le> unat b1" using four(7) by simp
        then show "16 \<le> r3" unfolding r3_def by linarith
      qed
      have b4: "q = 4 \<longrightarrow> r3 < 16"
      proof
        assume "q = 4"
        then have "unat b0 = 244" unfolding q_def using four(1) by linarith
        then have "unat b1 < 144" using four(8) by simp
        then show "r3 < 16" unfolding r3_def using c1 by linarith
      qed
      have e: "240 + q = unat b0" "128 + r3 = unat b1" "128 + r2 = unat b2"
        "128 + r1 = unat b3"
        unfolding q_def r3_def r2_def r1_def using four(1) c1 by linarith+
      have u: "utf8_char (q * 262144 + r3 * 4096 + r2 * 64 + r1) = [b0, b1, b2, b3]"
        using utf8_char_4 [OF b(1,2,3,4) b0] unfolding e by simp
      have ge: "65536 \<le> q * 262144 + r3 * 4096 + r2 * 64 + r1"
      proof (cases "q = 0")
        case True
        then show ?thesis using b0 by simp
      next
        case False
        then show ?thesis by linarith
      qed
      have lt: "q * 262144 + r3 * 4096 + r2 * 64 + r1 < 1114112"
      proof (cases "q = 4")
        case True
        then have "r3 < 16" using b4 by simp
        then show ?thesis using True b by linarith
      next
        case False
        then have "q \<le> 3" using b(1) by linarith
        then show ?thesis using b by linarith
      qed
      have sv: "scalar_value (q * 262144 + r3 * 4096 + r2 * 64 + r1)"
        unfolding scalar_value_def using lt ge by linarith
      show ?thesis using ih u sv four(3,10) Cons unfolding q_def r3_def r2_def r1_def
        by (simp add: utf8_def)
    qed
  qed
qed

lemma unat_byte_lt: "unat (b :: byte) < 256"
  using unsigned_less [of b, where ?'a = nat] by simp

lemma read_uint8_valid:
  "read_uint8 r = Inr (v, r') \<Longrightarrow> v < 256 \<and> data r' = data r"
  using unat_byte_lt
  by (auto simp: read_uint8_def unpack_from_B_def split: if_splits)

lemma read_uint16_valid:
  "read_uint16 r = Inr (v, r') \<Longrightarrow> v < 65536 \<and> data r' = data r"
proof -
  assume a: "read_uint16 r = Inr (v, r')"
  have "unat (data r ! offset r) * 256 + unat (data r ! (offset r + 1)) < 65536"
    using unat_byte_lt [of "data r ! offset r"] unat_byte_lt [of "data r ! (offset r + 1)"]
    by linarith
  then show ?thesis using a
    by (auto simp: read_uint16_def unpack_from_H_def split: if_splits)
qed

lemma read_uint32_valid: "read_uint32 r = Inr (v, r') \<Longrightarrow> data r' = data r"
  by (auto simp: read_uint32_def unpack_from_I_def split: if_splits)

lemma length_slice: "length (slice xs a b) \<le> b - a \<and> length (slice xs a b) \<le> length xs"
  by (simp add: slice_def)

lemma read_string_valid:
  assumes "read_string r = Inr (s, r')"
  shows "valid_str s \<and> data r' = data r"
proof -
  obtain len r1 where u: "read_uint16 r = Inr (len, r1)"
    and d: "bytes_decode (slice (data r1) (offset r1) (offset r1 + len)) = Inr s"
    and r': "r' = r1\<lparr>offset := offset r1 + len\<rparr>"
    using assms by (auto simp: read_string_def split: sum.splits prod.splits)
  have l: "len < 65536" "data r1 = data r" using read_uint16_valid [OF u] by simp_all
  have s: "list_all scalar_value s" "utf8 s = slice (data r1) (offset r1) (offset r1 + len)"
    using bytes_decode_sound [OF d] by simp_all
  have "length (utf8 s) \<le> len"
    unfolding s(2) using length_slice [of "data r1" "offset r1" "offset r1 + len"] by simp
  then show ?thesis using s(1) l r' by (simp add: valid_str_def)
qed

lemma read_bytes_valid:
  assumes "read_bytes r = Inr (b, r')"
  shows "length b \<le> length (data r) \<and> data r' = data r"
proof -
  obtain len r1 where u: "read_uint32 r = Inr (len, r1)"
    and b: "b = slice (data r1) (offset r1) (offset r1 + len)"
    and r': "r' = r1\<lparr>offset := offset r1 + len\<rparr>"
    using assms by (auto simp: read_bytes_def split: sum.splits prod.splits)
  show ?thesis
    using read_uint32_valid [OF u] length_slice [of "data r1" "offset r1" "offset r1 + len"] b r'
    by simp
qed

lemma read_thenE:
  assumes "read_then m f r = Inr (y, r')"
  obtains x r1 where "m r = Inr (x, r1)" "f x r1 = Inr (y, r')"
  using assms by (auto simp: read_then_def split: sum.splits prod.splits)

lemma read_doneE:
  assumes "read_done x r = Inr (y, r')"
  obtains "y = x" "r' = r"
  using assms by (auto simp: read_done_def)

lemma read_mapE:
  assumes "read_map m g r = Inr (y, r')"
  obtains x where "m r = Inr (x, r')" "g x = Inr y"
  using assms by (auto simp: read_map_def split: sum.splits prod.splits)

lemma read_contacts_valid:
  "read_contacts n r = Inr (cs, r')
   \<Longrightarrow> list_all valid_contact cs \<and> length cs = n \<and> data r' = data r"
proof (induction n arbitrary: r cs r')
  case 0
  then show ?case by (auto elim!: read_doneE)
next
  case (Suc n)
  from Suc.prems obtain name r1 st r2 cs' r3 where
    a: "read_string r = Inr (name, r1)"
    and b: "read_map read_uint8 PresenceStatus_of r1 = Inr (st, r2)"
    and c: "read_contacts n r2 = Inr (cs', r3)"
    and d: "cs = ContactInfo name st # cs'" "r' = r3"
    by (auto elim!: read_thenE read_doneE)
  obtain v where e: "read_uint8 r1 = Inr (v, r2)" using b by (auto elim!: read_mapE)
  show ?case
    using read_string_valid [OF a] read_uint8_valid [OF e] Suc.IH [OF c] d by simp
qed

lemma read_users_valid:
  "read_users n r = Inr (us, r')
   \<Longrightarrow> list_all valid_str us \<and> length us = n \<and> data r' = data r"
proof (induction n arbitrary: r us r')
  case 0
  then show ?case by (auto elim!: read_doneE)
next
  case (Suc n)
  from Suc.prems obtain u r1 us' r2 where
    a: "read_string r = Inr (u, r1)"
    and c: "read_users n r1 = Inr (us', r2)"
    and d: "us = u # us'" "r' = r2"
    by (auto elim!: read_thenE read_doneE)
  show ?case
    using read_string_valid [OF a] Suc.IH [OF c] d by simp
qed

lemma read_enum_valid:
  "read_map read_uint8 g r = Inr (y, r') \<Longrightarrow> data r' = data r"
  by (auto elim!: read_mapE dest: read_uint8_valid)

lemma read_payload_valid:
  assumes "read_payload c r = Inr (m, r')" and "length (data r) \<le> MAX_MESSAGE_SIZE"
  shows "valid_fields m \<and> list_count m \<le> 65535"
proof (cases c)
  case QPROTO_CONTACT_LIST
  from assms(1) obtain n r1 cs r2 where "read_uint16 r = Inr (n, r1)"
    "read_contacts n r1 = Inr (cs, r2)" "m = ContactListMessage cs"
    unfolding QPROTO_CONTACT_LIST by (auto elim!: read_thenE read_doneE)
  then show ?thesis using read_uint16_valid read_contacts_valid by fastforce
next
  case QPROTO_USER_SEARCH_RES
  from assms(1) obtain n r1 us r2 where "read_uint16 r = Inr (n, r1)"
    "read_users n r1 = Inr (us, r2)" "m = UserSearchResultMessage us"
    unfolding QPROTO_USER_SEARCH_RES by (auto elim!: read_thenE read_doneE)
  then show ?thesis using read_uint16_valid read_users_valid by fastforce
next
  case QPROTO_AVATAR_SET
  from assms(1) obtain b r1 where "read_bytes r = Inr (b, r1)" "m = AvatarSetMessage b"
    unfolding QPROTO_AVATAR_SET by (auto elim!: read_thenE read_doneE)
  then show ?thesis using read_bytes_valid assms(2) by (fastforce simp: valid_blob_def)
next
  case QPROTO_AVATAR_DATA
  from assms(1) obtain u r1 b r2 where "read_string r = Inr (u, r1)"
    "read_bytes r1 = Inr (b, r2)" "m = AvatarDataMessage u b"
    unfolding QPROTO_AVATAR_DATA by (auto elim!: read_thenE read_doneE)
  then show ?thesis
    using read_string_valid [of r u r1] read_bytes_valid [of r1 b r2] assms(2)
    by (simp add: valid_blob_def)
next
  case QPROTO_EARTHQUAKE_SEND
  from assms(1) obtain u r1 i r2 where "read_string r = Inr (u, r1)"
    "read_uint8 r1 = Inr (i, r2)" "m = EarthquakeSendMessage u (int i)"
    unfolding QPROTO_EARTHQUAKE_SEND by (auto elim!: read_thenE read_doneE)
  then show ?thesis
    using read_string_valid [of r u r1] read_uint8_valid [of r1 i r2]
    by (simp add: valid_uint8_def)
next
  case QPROTO_EARTHQUAKE_RECV
  from assms(1) obtain u r1 i r2 where "read_string r = Inr (u, r1)"
    "read_uint8 r1 = Inr (i, r2)" "m = EarthquakeRecvMessage u (int i)"
    unfolding QPROTO_EARTHQUAKE_RECV by (auto elim!: read_thenE read_doneE)
  then show ?thesis
    using read_string_valid [of r u r1] read_uint8_valid [of r1 i r2]
    by (simp add: valid_uint8_def)
qed (use assms(1) in \<open>auto elim!: read_thenE read_doneE read_mapE dest: read_string_valid\<close>)

lemma decode_message_valid:
  assumes "decode_message d = Inr (Some m)"
    and "unat (d ! 5) * 16777216 + unat (d ! 6) * 65536 + unat (d ! 7) * 256 + unat (d ! 8)
         \<le> MAX_MESSAGE_SIZE"
  shows "valid_fields m \<and> list_count m \<le> 65535"
proof -
  let ?n = "unat (d ! 5) * 16777216 + unat (d ! 6) * 65536 + unat (d ! 7) * 256 + unat (d ! 8)"
  let ?r = "\<lparr>data = slice d HEADER_SIZE (HEADER_SIZE + ?n), offset = 0\<rparr>"
  obtain c r' where "read_payload c ?r = Inr (m, r')"
    using assms(1)
    by (auto simp: decode_message_def Let_def split: if_splits option.splits sum.splits)
  moreover have "length (data ?r) \<le> MAX_MESSAGE_SIZE"
    using length_slice [of d HEADER_SIZE "HEADER_SIZE + ?n"] assms(2) by simp
  ultimately show ?thesis by (rule read_payload_valid)
qed

lemma recv_message_valid:
  assumes "recv_message stream = (Some m, rest)"
  shows "valid_fields m \<and> list_count m \<le> 65535"
proof -
  let ?n = "unat (stream ! 5) * 16777216 + unat (stream ! 6) * 65536 + unat (stream ! 7) * 256
            + unat (stream ! 8)"
  have l: "9 \<le> length stream" and n: "?n \<le> MAX_MESSAGE_SIZE"
    and d: "\<exists>p. decode_message (take 9 stream @ p) = Inr (Some m)"
    using assms
    by (auto simp: recv_message_def recv_exactly_def HEADER_SIZE_def Let_def
        split: if_splits option.splits sum.splits prod.splits intro: exI [of _ "[]"])
  obtain p where p: "decode_message (take 9 stream @ p) = Inr (Some m)" using d by blast
  have "unat ((take 9 stream @ p) ! 5) * 16777216 + unat ((take 9 stream @ p) ! 6) * 65536
        + unat ((take 9 stream @ p) ! 7) * 256 + unat ((take 9 stream @ p) ! 8)
        \<le> MAX_MESSAGE_SIZE"
    using n l by (simp add: nth_append)
  then show ?thesis by (rule decode_message_valid [OF p])
qed

lemma scalar_dropWhile: "list_all scalar_value s \<Longrightarrow> list_all scalar_value (dropWhile P s)"
  by (induction s) auto

lemma length_utf8_dropWhile: "length (utf8 (dropWhile P s)) \<le> length (utf8 s)"
  by (induction s) (auto simp: utf8_def)

lemma utf8_rev_length: "length (utf8 (rev s)) = length (utf8 s)"
  by (induction s) (auto simp: utf8_def)

lemma valid_str_strip: "valid_str s \<Longrightarrow> valid_str (strip s)"
proof -
  assume v: "valid_str s"
  let ?a = "dropWhile isspace s"
  let ?b = "dropWhile isspace (rev ?a)"
  have "list_all scalar_value ?a" using v by (simp add: valid_str_def scalar_dropWhile)
  then have "list_all scalar_value (rev ?a)" by (simp add: list_all_iff)
  then have 1: "list_all scalar_value ?b" by (rule scalar_dropWhile)
  have "length (utf8 ?b) \<le> length (utf8 (rev ?a))" by (rule length_utf8_dropWhile)
  also have "\<dots> = length (utf8 ?a)" by (rule utf8_rev_length)
  also have "\<dots> \<le> length (utf8 s)" by (rule length_utf8_dropWhile)
  finally have 2: "length (utf8 (rev ?b)) \<le> 65535"
    using v by (simp add: utf8_rev_length valid_str_def)
  show ?thesis unfolding strip_def valid_str_def using 1 2 by (simp add: list_all_iff)
qed


section \<open>Claims about the wire protocol\<close>

lemma utf8_replicate_ascii: "c < 128 \<Longrightarrow> utf8 (replicate n c) = replicate n (of_nat c)"
  by (induction n) (simp_all add: utf8_def utf8_char_def)

lemma valid_str_replicate_ascii: "c < 128 \<Longrightarrow> n \<le> 65535 \<Longrightarrow> valid_str (replicate n c)"
  by (simp add: valid_str_def utf8_replicate_ascii list_all_iff scalar_value_def)

lemma valid_str_Nil [simp]: "valid_str []"
  by (simp add: valid_str_def utf8_def)

text \<open>
  Claim C1 (round trip), as amended. For every message of a defined class whose fields
  are valid (strings that encode to at most 65535 UTF-8 bytes, blobs within the payload
  limit, \<open>uint8\<close> fields in 0..255), whose list has at most 65535 entries and whose
  payload is shorter than \<open>2^32\<close> bytes, \<open>encode_message\<close> returns a frame and
  \<open>decode_message\<close> of that frame returns the message itself. Strings of length zero
  and strings of 65535 bytes are among the valid ones.
\<close>

theorem encode_decode_roundtrip:
  assumes "valid_fields m" and "list_count m \<le> 65535"
    and "length (payload_of m) < 4294967296"
  shows "\<exists>bs. encode_message m = Inr bs \<and> decode_message bs = Inr (Some m)"
  using encode_message_ok [OF assms] decode_message_frame [OF reads_payload [OF assms] assms(3)]
  by simp

text \<open>
  The theorem at a message with an empty string, a string of 65535 bytes and a short one.
\<close>

theorem encode_decode_roundtrip_witness:
  "valid_fields (SendMsgMessage [] (replicate 65535 97) [109, 49])
   \<and> list_count (SendMsgMessage [] (replicate 65535 97) [109, 49]) \<le> 65535
   \<and> length (payload_of (SendMsgMessage [] (replicate 65535 97) [109, 49])) < 4294967296
   \<and> (\<exists>bs. encode_message (SendMsgMessage [] (replicate 65535 97) [109, 49]) = Inr bs
          \<and> decode_message bs = Inr (Some (SendMsgMessage [] (replicate 65535 97) [109, 49])))"
proof -
  have v: "valid_fields (SendMsgMessage [] (replicate 65535 97) [109, 49])"
    by (simp add: valid_str_replicate_ascii)
       (simp add: valid_str_def utf8_def utf8_char_def scalar_value_def)
  have c: "list_count (SendMsgMessage [] (replicate 65535 97) [109, 49]) \<le> 65535"
    by simp
  have l: "length (payload_of (SendMsgMessage [] (replicate 65535 97) [109, 49])) < 4294967296"
    by (simp add: str_bytes_def utf8_replicate_ascii) (simp add: utf8_def utf8_char_def)
  show ?thesis using v c l encode_decode_roundtrip [OF v c l] by blast
qed

text \<open>
  Claim C1 as stated fails: a search result of 65536 empty user names has only valid
  field values, and \<open>encode_message\<close> raises \<open>struct.error\<close> on its count, so there
  are no bytes to decode.
\<close>

theorem roundtrip_list_count_counterexample:
  "valid_fields (UserSearchResultMessage (replicate 65536 []))
   \<and> encode_message (UserSearchResultMessage (replicate 65536 [])) = Inl struct_error"
  by (simp add: list_all_iff encode_message_def write_uint16_def pack_H_def)

text \<open>
  Claim C2 (decoding fails on malformed input) fails in its last case, a string length
  that runs past the payload. The frame below is an add-contact request whose payload is
  three bytes: the length field 5 and the single byte \<open>a\<close>. \<open>read_string\<close>
  slices what is there and \<open>decode_message\<close> returns a message with the
  one-character name, where the claim has it fail. The other four cases are property X2.
\<close>

theorem decode_message_truncated_string:
  "decode_message [0x51, 0x50, 0x01, 0x02, 0x00, 0x00, 0x00, 0x00, 0x03, 0x00, 0x05, 0x61]
     = Inr (Some (AddContactMessage [0x61]))"
  by (simp add: decode_message_def HEADER_SIZE_def PROTOCOL_MAGIC_def PROTOCOL_VERSION_def
      slice_def Command_of_def read_then_def read_done_def read_string_def read_uint16_def
      unpack_from_H_def)

text \<open>The same with a blob: a declared length of 1000 and one byte present.\<close>

lemma decode_message_truncated_blob:
  "decode_message [0x51, 0x50, 0x01, 0x07, 0x00, 0x00, 0x00, 0x00, 0x05, 0x00, 0x00, 0x03, 0xE8, 0x2A]
     = Inr (Some (AvatarSetMessage [0x2A]))"
  by (simp add: decode_message_def HEADER_SIZE_def PROTOCOL_MAGIC_def PROTOCOL_VERSION_def
      slice_def Command_of_def read_then_def read_done_def read_bytes_def read_uint32_def
      unpack_from_I_def)

section \<open>Properties of the server\<close>

lemma length_str_bytes: "valid_str s \<Longrightarrow> length (str_bytes s) \<le> 65537"
  by (simp add: valid_str_def str_bytes_def)

lemma encodable_valid:
  "valid_fields m \<Longrightarrow> list_count m \<le> 65535 \<Longrightarrow> length (payload_of m) < 4294967296
   \<Longrightarrow> encodable m"
  unfolding encodable_def using encode_message_ok by blast

lemma encodable_Error: "valid_str s \<Longrightarrow> encodable (ErrorMessage s)"
  using length_str_bytes [of s] by (intro encodable_valid) simp_all

lemma encodable_Response: "valid_str s \<Longrightarrow> encodable (ResponseMessage a c s)"
  using length_str_bytes [of s] by (intro encodable_valid) simp_all

lemma encodable_MsgAck: "valid_str s \<Longrightarrow> encodable (MsgAckMessage s a)"
  using length_str_bytes [of s] by (intro encodable_valid) simp_all

lemma encodable_Presence: "valid_str s \<Longrightarrow> encodable (PresenceMessage s a)"
  using length_str_bytes [of s] by (intro encodable_valid) simp_all

lemma encodable_ReceiveMsg:
  "valid_str a \<Longrightarrow> valid_str b \<Longrightarrow> valid_str c \<Longrightarrow> valid_str d
   \<Longrightarrow> encodable (ReceiveMsgMessage a b c d)"
  using length_str_bytes [of a] length_str_bytes [of b] length_str_bytes [of c]
    length_str_bytes [of d]
  by (intro encodable_valid) simp_all

lemma encodable_EarthquakeRecv:
  "valid_str s \<Longrightarrow> encodable (EarthquakeRecvMessage s (max 1 (min 10 i)))"
  using length_str_bytes [of s] by (intro encodable_valid) (auto simp: valid_uint8_def)

lemma valid_str_literals:
  "valid_str (lit ''Not authenticated'')"
  "valid_str (lit ''User already logged in'')"
  "valid_str (lit ''User is offline'')"
  "valid_str (lit ''Unknown command'')"
  "valid_str (lit ''Goodbye!'')"
  by (simp_all add: lit_def valid_str_def utf8_def utf8_char_def scalar_value_def)

lemma send_encodable:
  "encodable m \<Longrightarrow>
   send w c m st = (Inr (sendall_ok w c), st\<lparr>wire := wire st @ [(c, m, sendall_ok w c)]\<rparr>)"
  by (auto simp: encodable_def send_def send_message_def)

lemma returning_send:
  "encodable m \<Longrightarrow>
   returning (send w c m st) = (Inr (), st\<lparr>wire := wire st @ [(c, m, sendall_ok w c)]\<rparr>)"
  by (simp add: send_encodable returning_def)

lemma broadcast_loop_wire:
  "encodable msg \<Longrightarrow>
   broadcast_loop w name msg items st =
     (Inr (), st\<lparr>wire := wire st @ map (\<lambda>(k, c). (c, msg, sendall_ok w c))
                                      (filter (\<lambda>(k, c). k \<noteq> name) items)\<rparr>)"
proof (induction items arbitrary: st)
  case Nil
  then show ?case by simp
next
  case (Cons item items)
  obtain k c where item: "item = (k, c)" by (cases item)
  show ?case using Cons
    by (simp add: item send_encodable then_do_def)
qed

lemma update_absent: "map_of al k = None \<Longrightarrow> AList.update k v al = al @ [(k, v)]"
  by (induction al) (auto split: if_splits)

lemma broadcast_presence_wire:
  assumes "authenticated (sessions st s)" and "username (sessions st s) = Some u"
    and "valid_str u"
  shows "broadcast_presence w s status st =
     (Inr (), st\<lparr>wire := wire st @ map (\<lambda>(k, c). (c, PresenceMessage u status, sendall_ok w c))
                                      (filter (\<lambda>(k, c). k \<noteq> u) (clients st))\<rparr>)"
  using assms
  by (simp add: broadcast_presence_def broadcast_loop_wire [OF encodable_Presence])

lemma cleanup_session_wire:
  assumes "authenticated (sessions st s)" and "username (sessions st s) = Some u"
    and "valid_str u" and "u \<noteq> []"
  shows "cleanup_session w s st =
     (Inr (), close s (st\<lparr>clients := AList.delete u (clients st),
        wire := wire st @ map (\<lambda>(k, c). (c, PresenceMessage u OFFLINE, sendall_ok w c))
                            (filter (\<lambda>(k, c). k \<noteq> u) (AList.delete u (clients st)))\<rparr>))"
proof -
  let ?st1 = "st\<lparr>clients := AList.delete u (clients st)\<rparr>"
  have "broadcast_presence w s OFFLINE ?st1 =
     (Inr (), ?st1\<lparr>wire := wire ?st1 @ map (\<lambda>(k, c). (c, PresenceMessage u OFFLINE, sendall_ok w c))
                                      (filter (\<lambda>(k, c). k \<noteq> u) (clients ?st1))\<rparr>)"
    using assms by (intro broadcast_presence_wire) simp_all
  then show ?thesis using assms by (simp add: cleanup_session_def then_do_def)
qed

lemma handle_login_present:
  assumes "map_of (clients st) (strip name) = Some other"
  shows "handle_login w s name password st =
     (Inr (), st\<lparr>wire := wire st @
        [(s, ResponseMessage LOGIN FAIL (lit ''User already logged in''), sendall_ok w s)]\<rparr>)"
  using assms
  by (simp add: handle_login_def returning_send [OF encodable_Response] valid_str_literals)

lemma handle_login_rejected:
  assumes "map_of (clients st) (strip name) = None"
    and "authenticate_user (database w) (strip name) password (db st)
           = (Inr (False, message, uid), d)"
    and "valid_str message"
  shows "handle_login w s name password st =
     (Inr (), st\<lparr>db := d, wire := wire st @
        [(s, ResponseMessage LOGIN FAIL message, sendall_ok w s)]\<rparr>)"
  using assms
  by (simp add: handle_login_def returning_send [OF encodable_Response])

lemma handle_login_accepted:
  assumes "map_of (clients st) (strip name) = None"
    and "authenticate_user (database w) (strip name) password (db st)
           = (Inr (True, message, uid), d)"
    and "valid_str message" and "valid_str (strip name)"
  shows "handle_login w s name password st =
     (Inr (), st\<lparr>db := d,
        sessions := (sessions st)(s := (sessions st s)
           \<lparr>username := Some (strip name), user_id := uid, authenticated := True\<rparr>),
        clients := clients st @ [(strip name, s)],
        wire := wire st @
          (s, ResponseMessage LOGIN SUCCESS message, sendall_ok w s)
          # map (\<lambda>(k, c). (c, PresenceMessage (strip name) ONLINE, sendall_ok w c))
              (filter (\<lambda>(k, c). k \<noteq> strip name) (clients st))\<rparr>)"
proof -
  let ?u = "strip name"
  let ?st1 = "st\<lparr>db := d,
       sessions := (sessions st)(s := (sessions st s)
         \<lparr>username := Some ?u, user_id := uid, authenticated := True\<rparr>),
       clients := AList.update ?u s (clients st)\<rparr>"
  let ?st2 = "?st1\<lparr>wire := wire ?st1 @
       [(s, ResponseMessage LOGIN SUCCESS message, sendall_ok w s)]\<rparr>"
  have up: "AList.update ?u s (clients st) = clients st @ [(?u, s)]"
    using assms(1) by (rule update_absent)
  have b: "broadcast_presence w s ONLINE ?st2 =
     (Inr (), ?st2\<lparr>wire := wire ?st2 @ map (\<lambda>(k, c). (c, PresenceMessage ?u ONLINE, sendall_ok w c))
                                      (filter (\<lambda>(k, c). k \<noteq> ?u) (clients ?st2))\<rparr>)"
    using assms(4) by (intro broadcast_presence_wire) simp_all
  show ?thesis
    using assms(1,2) b
    by (simp add: handle_login_def then_do_def send_encodable [OF encodable_Response [OF assms(3)]]
        up Let_def)
qed

text \<open>
  A login that no other thread interrupts is its first section followed, when that lets
  the login go on, by its second.
\<close>

lemma handle_login_sections:
  "handle_login w s name password st =
     then_do (login_guard w s (strip name) st)
       (\<lambda>free st'. if free then login_enter w s (strip name) password st' else (Inr (), st'))"
  by (simp add: handle_login_def login_guard_def login_enter_def Let_def then_do_def
        returning_def split: prod.splits sum.splits)

lemma login_guard_present:
  "map_of (clients st) uname \<noteq> None \<Longrightarrow>
   login_guard w s uname st =
     (Inr False, st\<lparr>wire := wire st @
        [(s, ResponseMessage LOGIN FAIL (lit ''User already logged in''), sendall_ok w s)]\<rparr>)"
  by (simp add: login_guard_def then_do_def send_encodable [OF encodable_Response]
        valid_str_literals)

lemma login_guard_absent:
  "map_of (clients st) uname = None \<Longrightarrow> login_guard w s uname st = (Inr True, st)"
  by (simp add: login_guard_def)

lemma login_enter_raise:
  "authenticate_user (database w) uname password (db st) = (Inl e, d)
   \<Longrightarrow> login_enter w s uname password st = (Inl e, st\<lparr>db := d\<rparr>)"
  by (simp add: login_enter_def)

lemma login_enter_rejected:
  "authenticate_user (database w) uname password (db st) = (Inr (False, message, uid), d)
   \<Longrightarrow> valid_str message
   \<Longrightarrow> login_enter w s uname password st =
       (Inr (), st\<lparr>db := d, wire := wire st @
          [(s, ResponseMessage LOGIN FAIL message, sendall_ok w s)]\<rparr>)"
  by (simp add: login_enter_def returning_send [OF encodable_Response])

lemma login_enter_accepted:
  assumes "authenticate_user (database w) uname password (db st)
           = (Inr (True, message, uid), d)"
    and "valid_str message" and "valid_str uname"
  shows "login_enter w s uname password st =
     (Inr (), st\<lparr>db := d,
        sessions := (sessions st)(s := (sessions st s)
           \<lparr>username := Some uname, user_id := uid, authenticated := True\<rparr>),
        clients := AList.update uname s (clients st),
        wire := wire st @
          (s, ResponseMessage LOGIN SUCCESS message, sendall_ok w s)
          # map (\<lambda>(k, c). (c, PresenceMessage uname ONLINE, sendall_ok w c))
              (filter (\<lambda>(k, c). k \<noteq> uname) (AList.update uname s (clients st)))\<rparr>)"
proof -
  let ?st1 = "st\<lparr>db := d,
       sessions := (sessions st)(s := (sessions st s)
         \<lparr>username := Some uname, user_id := uid, authenticated := True\<rparr>),
       clients := AList.update uname s (clients st)\<rparr>"
  let ?st2 = "?st1\<lparr>wire := wire ?st1 @
       [(s, ResponseMessage LOGIN SUCCESS message, sendall_ok w s)]\<rparr>"
  have b: "broadcast_presence w s ONLINE ?st2 =
     (Inr (), ?st2\<lparr>wire := wire ?st2 @
        map (\<lambda>(k, c). (c, PresenceMessage uname ONLINE, sendall_ok w c))
          (filter (\<lambda>(k, c). k \<noteq> uname) (clients ?st2))\<rparr>)"
    using assms(3) by (intro broadcast_presence_wire) simp_all
  show ?thesis
    using assms(1) b
    by (simp add: login_enter_def then_do_def
          send_encodable [OF encodable_Response [OF assms(2)]])
qed

lemma encodable_NOT_AUTHENTICATED: "encodable NOT_AUTHENTICATED"
  unfolding NOT_AUTHENTICATED_def by (rule encodable_Error) (rule valid_str_literals)

lemma dispatch_unauthenticated:
  assumes "\<not> authenticated (sessions st s)" and "authenticated_only m"
  shows "dispatch w s m st =
     (Inr Continue, st\<lparr>wire := wire st @ [(s, NOT_AUTHENTICATED, sendall_ok w s)]\<rparr>)"
  using assms
  by (cases m)
     (simp_all add: continue_def returning_send [OF encodable_NOT_AUTHENTICATED]
        handle_send_msg_def handle_add_contact_def handle_remove_contact_def
        handle_get_contacts_def handle_search_user_def handle_earthquake_def
        handle_avatar_set_def handle_avatar_get_def)

lemma handle_loop_Continue:
  assumes "recv_message stream = (Some m, rest)" and "dispatch w s m st = (Inr Continue, st')"
  shows "handle_loop w s stream st = handle_loop w s rest st'"
  using assms by (subst handle_loop.simps) simp

lemma handle_loop_Break:
  assumes "recv_message stream = (Some m, rest)" and "dispatch w s m st = (Inr Break, st')"
  shows "handle_loop w s stream st = st'"
  using assms by (subst handle_loop.simps) simp

lemma handle_loop_raise:
  assumes "recv_message stream = (Some m, rest)" and "dispatch w s m st = (Inl e, st')"
  shows "handle_loop w s stream st = st'"
  using assms by (subst handle_loop.simps) simp

lemma handle_loop_None:
  assumes "recv_message stream = (None, rest)"
  shows "handle_loop w s stream st = st"
  using assms by (subst handle_loop.simps) simp

lemma filter_key_absent: "k \<notin> fst ` set al \<Longrightarrow> filter (\<lambda>entry. fst entry = k) al = []"
  by (induction al) auto

lemma one_entry_per_key:
  "distinct (map fst al) \<Longrightarrow> map_of al k = Some v
   \<Longrightarrow> length (filter (\<lambda>entry. fst entry = k) al) = 1"
proof (induction al)
  case Nil
  then show ?case by simp
next
  case (Cons e al)
  show ?case
  proof (cases "fst e = k")
    case True
    then have "k \<notin> fst ` set al" using Cons.prems(1) by auto
    then show ?thesis using True by (simp add: filter_key_absent)
  next
    case False
    then have "map_of al k = Some v" using Cons.prems(2) by (cases e) auto
    then show ?thesis using False Cons by simp
  qed
qed

lemma delete_filter: "AList.delete u al = filter (\<lambda>(k, c). k \<noteq> u) al"
  by (induction al) auto

lemma filter_delete: "filter (\<lambda>(k, c). k \<noteq> u) (AList.delete u al) = AList.delete u al"
  by (simp add: delete_filter)

lemma recv_message_frame:
  assumes "valid_fields m" and "list_count m \<le> 65535"
    and "length (payload_of m) \<le> MAX_MESSAGE_SIZE"
  shows "recv_message (frame_of m @ rest) = (Some m, rest)"
proof -
  let ?p = "payload_of m"
  let ?h = "PROTOCOL_MAGIC @ [PROTOCOL_VERSION] @ be16 (Command_value (command m))
            @ be32 (length ?p)"
  have n: "length ?p < 4294967296" using assms(3) by (simp add: MAX_MESSAGE_SIZE_def)
  have f: "frame_of m = ?h @ ?p"
    by (simp add: frame_of_def encode_message_ok [OF assms(1,2) n])
  have lh: "length ?h = 9" by (simp add: PROTOCOL_MAGIC_def)
  have h: "recv_exactly HEADER_SIZE (frame_of m @ rest) = Some (?h, ?p @ rest)"
    unfolding f recv_exactly_def HEADER_SIZE_def using lh by simp
  have d: "decode_message (?h @ ?p) = Inr (Some m)"
    using decode_message_frame [OF reads_payload [OF assms(1,2) n] n] by simp
  have len: "unat (?h ! 5) * 16777216 + unat (?h ! 6) * 65536 + unat (?h ! 7) * 256
             + unat (?h ! 8) = length ?p"
    using unat_be32 [OF n] by (simp add: PROTOCOL_MAGIC_def be16_def be32_def)
  have mg: "slice ?h 0 2 = PROTOCOL_MAGIC" by (simp add: slice_def PROTOCOL_MAGIC_def)
  have p: "(if length ?p > 0 then recv_exactly (length ?p) (?p @ rest) else Some ([], ?p @ rest))
           = Some (?p, rest)"
    by (simp add: recv_exactly_def)
  show ?thesis
    unfolding recv_message_def h
    using assms(3) by (simp only: prod.case option.case mg len Let_def p d sum.case) simp
qed

lemma strip_names [simp]:
  "strip alice = alice" "strip bob = bob" "strip carol = carol" "strip dave = dave"
  by (simp_all add: strip_def isspace_def alice_def bob_def carol_def dave_def lit_def)

lemma names_distinct [simp]:
  "alice \<noteq> bob" "alice \<noteq> carol" "alice \<noteq> dave" "bob \<noteq> carol" "bob \<noteq> dave" "carol \<noteq> dave"
  "bob \<noteq> alice" "carol \<noteq> alice" "dave \<noteq> alice" "carol \<noteq> bob" "dave \<noteq> bob" "dave \<noteq> carol"
  "alice \<noteq> []" "bob \<noteq> []" "carol \<noteq> []" "dave \<noteq> []"
  by (simp_all add: alice_def bob_def carol_def dave_def lit_def)

lemma valid_names [simp]:
  "valid_str alice" "valid_str bob" "valid_str carol" "valid_str dave" "valid_str pw"
  "valid_str (lit ''Login successful'')" "valid_str (lit ''Invalid password'')"
  "valid_str (lit ''2024-05-01T12:00:00'')" "valid_str (lit ''hi'')" "valid_str (lit ''m1'')"
  by (simp_all add: alice_def bob_def carol_def dave_def pw_def lit_def valid_str_def
      utf8_def utf8_char_def scalar_value_def)

lemma demo_world_simps [simp]:
  "database demo_world = demo_db" "sendall_ok demo_world c = (c \<noteq> 4)"
  "now demo_world = lit ''2024-05-01T12:00:00''"
  by (simp_all add: demo_world_def)

lemma demo_db_auth [simp]:
  "authenticate_user demo_db u pw n = (Inr (True, lit ''Login successful'', Some 1), Suc n)"
  "authenticate_user demo_db u (lit ''wrong'') n
     = (Inr (False, lit ''Invalid password'', None), Suc n)"
  by (simp_all add: demo_db_def pw_def lit_def)

lemma demo_server_simps [simp]:
  "db demo_server = 0" "clients demo_server = [(carol, 3), (dave, 4)]" "wire demo_server = []"
  "sessions demo_server 2 = new_session" "sessions demo_server 3 = logged_in carol"
  "sessions demo_server 4 = logged_in dave"
  by (simp_all add: demo_server_def)

lemma session_simps [simp]:
  "authenticated new_session = False" "username new_session = None"
  "authenticated (logged_in n) = True" "username (logged_in n) = Some n"
  by (simp_all add: new_session_def logged_in_def)

lemma valid_fields_requests [simp]:
  "valid_fields ContactListReqMessage" "valid_fields LogoutMessage"
  "valid_fields (LoginMessage alice pw)" "valid_fields (LoginMessage bob pw)"
  by simp_all

lemma payload_small:
  "length (payload_of ContactListReqMessage) \<le> MAX_MESSAGE_SIZE"
  "length (payload_of LogoutMessage) \<le> MAX_MESSAGE_SIZE"
  "length (payload_of (LoginMessage alice pw)) \<le> MAX_MESSAGE_SIZE"
  "length (payload_of (LoginMessage bob pw)) \<le> MAX_MESSAGE_SIZE"
  using length_str_bytes [of alice] length_str_bytes [of bob] length_str_bytes [of pw]
  by (simp_all add: MAX_MESSAGE_SIZE_def)

lemma recv_message_Nil: "recv_message [] = (None, [])"
  by (simp add: recv_message_def recv_exactly_def HEADER_SIZE_def)

lemma login_alice:
  "dispatch demo_world 2 (LoginMessage alice pw) demo_server = (Inr Continue, after_alice)"
proof -
  have "handle_login demo_world 2 alice pw demo_server = (Inr (), after_alice)"
    unfolding after_alice_def
    by (subst handle_login_accepted [where message = "lit ''Login successful''"
          and uid = "Some 1" and d = 1])
       (simp_all add: new_session_def)
  then show ?thesis by (simp add: continue_def)
qed

lemma login_bob:
  "dispatch demo_world 2 (LoginMessage bob pw) after_alice = (Inr Continue, after_bob)"
proof -
  have "handle_login demo_world 2 bob pw after_alice = (Inr (), after_bob)"
    unfolding after_bob_def
    by (subst handle_login_accepted [where message = "lit ''Login successful''"
          and uid = "Some 1" and d = 2])
       (simp_all add: after_alice_def)
  then show ?thesis by (simp add: continue_def)
qed

lemma relogin_loop:
  "handle_loop demo_world 2
     (frame_of (LoginMessage alice pw) @ frame_of (LoginMessage bob pw)) demo_server
   = after_bob"
proof -
  have r1: "recv_message (frame_of (LoginMessage alice pw) @ frame_of (LoginMessage bob pw))
      = (Some (LoginMessage alice pw), frame_of (LoginMessage bob pw))"
    by (rule recv_message_frame [OF _ _ payload_small(3)]) simp_all
  have r2: "recv_message (frame_of (LoginMessage bob pw) @ [])
      = (Some (LoginMessage bob pw), [])"
    by (rule recv_message_frame [OF _ _ payload_small(4)]) simp_all
  have "handle_loop demo_world 2
      (frame_of (LoginMessage alice pw) @ frame_of (LoginMessage bob pw)) demo_server
      = handle_loop demo_world 2 (frame_of (LoginMessage bob pw)) after_alice"
    by (rule handle_loop_Continue [OF r1 login_alice])
  also have "\<dots> = handle_loop demo_world 2 [] after_bob"
    using handle_loop_Continue [OF r2 login_bob] by simp
  also have "\<dots> = after_bob"
    by (rule handle_loop_None [OF recv_message_Nil])
  finally show ?thesis .
qed


subsection \<open>The sessions and the registry in a reachable state\<close>

lemma same_registry_refl [simp]: "same_registry st st"
  by (simp add: same_registry_def)

lemma same_registry_trans:
  "same_registry a b \<Longrightarrow> same_registry b c \<Longrightarrow> same_registry a c"
  by (simp add: same_registry_def)

lemma same_registry_fields [simp]:
  "same_registry st (st'\<lparr>db := d\<rparr>) = same_registry st st'"
  "same_registry st (st'\<lparr>wire := x\<rparr>) = same_registry st st'"
  "same_registry (st\<lparr>db := d\<rparr>) st' = same_registry st st'"
  "same_registry (st\<lparr>wire := x\<rparr>) st' = same_registry st st'"
  by (simp_all add: same_registry_def)

lemma send_same: "same_registry st (snd (send w c m st))"
  by (simp add: send_def send_message_def split: sum.splits)

lemma send_same_eq [simp]: "same_registry a (snd (send w c m st)) = same_registry a st"
  using send_same [of st w c m] by (auto simp: same_registry_def)

lemma returning_same:
  "same_registry st (snd m) \<Longrightarrow> same_registry st (snd (returning m))"
  by (auto simp: returning_def split: prod.splits sum.splits)

lemma then_do_same:
  assumes "same_registry st (snd m)" and "\<And>x st'. same_registry st' (snd (f x st'))"
  shows "same_registry st (snd (then_do m f))"
proof (cases m)
  case (Pair r st1)
  show ?thesis
  proof (cases r)
    case (Inl e)
    then show ?thesis using assms(1) Pair by (simp add: then_do_def)
  next
    case (Inr x)
    have "same_registry st st1" using assms(1) Pair by simp
    then show ?thesis
      using same_registry_trans [OF _ assms(2) [of st1 x]] Pair Inr by (simp add: then_do_def)
  qed
qed

lemma broadcast_loop_same: "same_registry st (snd (broadcast_loop w name msg items st))"
proof (induction items arbitrary: st)
  case Nil
  then show ?case by simp
next
  case (Cons item items)
  obtain k c where item: "item = (k, c)" by (cases item)
  show ?case
    unfolding item broadcast_loop.simps
    by (auto intro!: then_do_same send_same Cons)
qed

lemma broadcast_presence_same: "same_registry st (snd (broadcast_presence w s status st))"
  by (auto simp: broadcast_presence_def broadcast_loop_same split: option.splits)

lemma handle_get_contacts_same: "same_registry st (snd (handle_get_contacts w s st))"
  by (auto simp: handle_get_contacts_def intro!: returning_same send_same
           split: prod.splits sum.splits)

lemma handle_register_same: "same_registry st (snd (handle_register w s u p st))"
  by (auto simp: handle_register_def Let_def intro!: returning_same send_same
           split: prod.splits sum.splits)

lemma handle_logout_same: "same_registry st (snd (handle_logout w s st))"
  by (auto simp: handle_logout_def intro!: returning_same send_same)

lemma handle_send_msg_same: "same_registry st (snd (handle_send_msg w s to content i st))"
  by (auto simp: handle_send_msg_def Let_def intro!: returning_same send_same then_do_same
           split: option.splits)

lemma handle_add_contact_same: "same_registry st (snd (handle_add_contact w s c st))"
  by (auto simp: handle_add_contact_def Let_def
           intro!: returning_same send_same then_do_same handle_get_contacts_same
           split: prod.splits sum.splits)

lemma handle_remove_contact_same: "same_registry st (snd (handle_remove_contact w s c st))"
  by (auto simp: handle_remove_contact_def Let_def
           intro!: returning_same send_same then_do_same handle_get_contacts_same
           split: prod.splits sum.splits)

lemma handle_search_user_same: "same_registry st (snd (handle_search_user w s q st))"
  by (auto simp: handle_search_user_def Let_def intro!: returning_same send_same
           split: prod.splits sum.splits)

lemma handle_earthquake_same: "same_registry st (snd (handle_earthquake w s to i st))"
  by (auto simp: handle_earthquake_def Let_def intro!: returning_same send_same
           split: option.splits)

lemma handle_avatar_set_same: "same_registry st (snd (handle_avatar_set w s b st))"
  by (auto simp: handle_avatar_set_def Let_def intro!: returning_same send_same
           split: prod.splits sum.splits)

lemma handle_avatar_get_same: "same_registry st (snd (handle_avatar_get w s u st))"
  by (auto simp: handle_avatar_get_def Let_def intro!: returning_same send_same
           split: prod.splits sum.splits)

lemma snd_continue [simp]: "snd (continue m) = snd m"
  by (simp add: continue_def split: prod.splits sum.splits)

lemma snd_break [simp]: "snd (break m) = snd m"
  by (simp add: break_def split: prod.splits sum.splits)

lemma registry_sound_same:
  "same_registry st st' \<Longrightarrow> registry_sound st \<Longrightarrow> registry_sound st'"
  by (clarsimp simp: same_registry_def registry_sound_def)

lemma registry_sound_fields [simp]:
  "registry_sound (st\<lparr>db := d\<rparr>) = registry_sound st"
  "registry_sound (st\<lparr>wire := x\<rparr>) = registry_sound st"
  by (simp_all add: registry_sound_def)

lemma registry_sound_send [simp]:
  "registry_sound (snd (send w c m st)) = registry_sound st"
  using send_same [of st w c m] by (clarsimp simp: same_registry_def registry_sound_def)

lemma registry_sound_returning [simp]:
  "registry_sound (snd (returning m)) = registry_sound (snd m)"
  by (auto simp: returning_def split: prod.splits sum.splits)

lemma registry_sound_broadcast_presence [simp]:
  "registry_sound (snd (broadcast_presence w s status st)) = registry_sound st"
  using broadcast_presence_same [of st w s status]
  by (clarsimp simp: same_registry_def registry_sound_def)


lemma distinct_update: "distinct (map fst al) \<Longrightarrow> distinct (map fst (AList.update k v al))"
  by (simp add: distinct_update)

lemma list_all_update:
  "list_all P al \<Longrightarrow> P (k, v) \<Longrightarrow> list_all P (AList.update k v al)"
  by (induction al) auto

lemma list_all_delete: "list_all P al \<Longrightarrow> list_all P (AList.delete k al)"
  by (induction al) auto

lemma list_all_mono: "list_all P al \<Longrightarrow> (\<And>x. P x \<Longrightarrow> Q x) \<Longrightarrow> list_all Q al"
  by (induction al) auto

lemma registry_sound_login:
  assumes "registry_sound st" and "valid_str u"
  shows "registry_sound
    (st\<lparr>db := d,
        sessions := (sessions st)(s := (sessions st s)
                      \<lparr>username := Some u, user_id := uid, authenticated := True\<rparr>),
        clients := AList.update u s (clients st)\<rparr>)"
proof -
  have d: "distinct (map fst (clients st))"
    and a: "\<forall>c. session_sound (sessions st c)"
    and l: "list_all (\<lambda>(k, c). valid_str k \<and> authenticated (sessions st c)) (clients st)"
    using assms(1) by (simp_all add: registry_sound_def)
  let ?S = "(sessions st)(s := (sessions st s)
                      \<lparr>username := Some u, user_id := uid, authenticated := True\<rparr>)"
  have "list_all (\<lambda>(k, c). valid_str k \<and> authenticated (?S c)) (clients st)"
    by (rule list_all_mono [OF l]) auto
  then have "list_all (\<lambda>(k, c). valid_str k \<and> authenticated (?S c))
               (AList.update u s (clients st))"
    by (rule list_all_update) (simp add: assms(2))
  moreover have "\<forall>c. session_sound (?S c)"
    using a assms(2) by (simp add: session_sound_def)
  ultimately show ?thesis
    using d by (simp add: registry_sound_def distinct_update)
qed

lemma then_do_sound:
  assumes "registry_sound (snd m)"
    and "\<And>x st'. registry_sound st' \<Longrightarrow> registry_sound (snd (f x st'))"
  shows "registry_sound (snd (then_do m f))"
proof (cases m)
  case (Pair r st1)
  then show ?thesis
    using assms by (cases r) (simp_all add: then_do_def)
qed

lemma registry_sound_login_guard:
  "registry_sound st \<Longrightarrow> registry_sound (snd (login_guard w s uname st))"
  by (simp add: login_guard_def then_do_sound)

lemma registry_sound_login_enter:
  assumes "registry_sound st" and "valid_str uname"
  shows "registry_sound (snd (login_enter w s uname p st))"
proof -
  obtain r d where a: "authenticate_user (database w) uname p (db st) = (r, d)"
    by (cases "authenticate_user (database w) uname p (db st)")
  show ?thesis
  proof (cases r)
    case (Inl e)
    then show ?thesis using a assms(1) by (simp add: login_enter_def)
  next
    case (Inr t)
    obtain success message uid where t: "t = (success, message, uid)" by (cases t)
    show ?thesis
    proof (cases success)
      case True
      have "registry_sound (snd (then_do
              (send w s (ResponseMessage LOGIN SUCCESS message)
                 (st\<lparr>db := d,
                     sessions := (sessions st)(s := (sessions st s)
                       \<lparr>username := Some uname, user_id := uid, authenticated := True\<rparr>),
                     clients := AList.update uname s (clients st)\<rparr>))
              (\<lambda>sent. broadcast_presence w s ONLINE)))"
        by (rule then_do_sound) (simp_all add: registry_sound_login [OF assms])
      then show ?thesis using a Inr t True by (simp add: login_enter_def)
    next
      case False
      then show ?thesis using a Inr t assms(1) by (simp add: login_enter_def)
    qed
  qed
qed

lemma registry_sound_handle_login:
  assumes "registry_sound st" and "valid_str u"
  shows "registry_sound (snd (handle_login w s u p st))"
proof -
  have v: "valid_str (strip u)" using assms(2) by (rule valid_str_strip)
  show ?thesis
    unfolding handle_login_sections
    by (rule then_do_sound)
       (simp_all add: registry_sound_login_guard registry_sound_login_enter assms(1) v)
qed

lemma session_sound_closed [simp]: "session_sound (cs\<lparr>closed := True\<rparr>) = session_sound cs"
  by (simp add: session_sound_def split: option.splits)

lemma registry_sound_close: "registry_sound st \<Longrightarrow> registry_sound (close s st)"
  by (auto simp: registry_sound_def close_def elim!: list_all_mono)

lemma registry_sound_delete:
  "registry_sound st \<Longrightarrow> registry_sound (st\<lparr>clients := AList.delete k (clients st)\<rparr>)"
  by (simp add: registry_sound_def distinct_delete list_all_delete)

lemma registry_sound_cleanup_session:
  assumes "registry_sound st"
  shows "registry_sound (snd (cleanup_session w s st))"
proof -
  have c: "registry_sound (close s st)" using assms by (rule registry_sound_close)
  have "registry_sound (snd (then_do
          (broadcast_presence w s OFFLINE (st\<lparr>clients := AList.delete name (clients st)\<rparr>))
          (\<lambda>u st'. (Inr (), close s st'))))" for name
    by (rule then_do_sound)
       (simp_all add: registry_sound_delete [OF assms] registry_sound_close)
  then show ?thesis
    using c by (simp add: cleanup_session_def split: option.splits)
qed

text \<open>Every other handler leaves the sessions and the registry as they are.\<close>

lemma dispatch_same:
  assumes "\<forall>u p. m \<noteq> LoginMessage u p"
  shows "same_registry st (snd (dispatch w s m st))"
  using assms
  by (cases m)
     (simp_all add: handle_register_same handle_logout_same handle_send_msg_same
        handle_add_contact_same handle_remove_contact_same handle_get_contacts_same
        handle_search_user_same handle_earthquake_same handle_avatar_set_same
        handle_avatar_get_same returning_same)

lemma registry_sound_dispatch:
  assumes "registry_sound st" and "valid_fields m"
  shows "registry_sound (snd (dispatch w s m st))"
proof (cases "\<exists>u p. m = LoginMessage u p")
  case True
  then obtain u p where m: "m = LoginMessage u p" by auto
  have "valid_str u" using assms(2) by (simp add: m)
  then show ?thesis using assms(1) by (simp add: m registry_sound_handle_login)
next
  case False
  then have "same_registry st (snd (dispatch w s m st))" by (simp add: dispatch_same)
  then show ?thesis using assms(1) by (rule registry_sound_same)
qed

lemma registry_sound_idle: "registry_sound (idle_server d)"
  by (simp add: registry_sound_def idle_server_def session_sound_def new_session_def)


section \<open>Claims about the server\<close>

text \<open>
  Claim C3 (send-message). The sender is authenticated as \<open>sender\<close>; the strings of
  the request, the sender's name and the timestamp are valid for the wire, as everything
  that arrived in a frame is (property X3) and as the name of a session is in every
  state the server reaches (property X5). If the stripped recipient or the content is empty the
  sender is acked \<open>INVALID_MESSAGE\<close> whatever the registry holds. Otherwise, if the
  registry maps the recipient to a session, exactly one receive-message event with the
  sender, the content, the same \<open>msg_id\<close> and the server's timestamp is written to
  that session, and the sender is acked \<open>DELIVERED\<close> if that write succeeded and
  \<open>DELIVERY_FAILED\<close> if not; if the registry does not hold the recipient the sender
  is acked \<open>USER_OFFLINE\<close> and nothing else is written.
\<close>

theorem handle_send_msg_delivery:
  assumes "authenticated (sessions st s)" and "username (sessions st s) = Some sender"
    and "valid_fields (SendMsgMessage to content msg_id)"
    and "valid_str sender" and "valid_str (now w)"
  shows "(strip to = [] \<or> content = [] \<longrightarrow>
            (\<forall>registry. handle_send_msg w s to content msg_id (st\<lparr>clients := registry\<rparr>) =
               (Inr (), st\<lparr>clients := registry, wire := wire st @
                  [(s, MsgAckMessage msg_id INVALID_MESSAGE, sendall_ok w s)]\<rparr>)))
       \<and> (strip to \<noteq> [] \<and> content \<noteq> [] \<longrightarrow>
            (\<forall>r. map_of (clients st) (strip to) = Some r \<longrightarrow>
               handle_send_msg w s to content msg_id st =
                 (Inr (), st\<lparr>wire := wire st @
                    [(r, ReceiveMsgMessage sender content msg_id (now w), sendall_ok w r),
                     (s, MsgAckMessage msg_id
                           (if sendall_ok w r then DELIVERED else DELIVERY_FAILED),
                      sendall_ok w s)]\<rparr>))
          \<and> (map_of (clients st) (strip to) = None \<longrightarrow>
               handle_send_msg w s to content msg_id st =
                 (Inr (), st\<lparr>wire := wire st @
                    [(s, MsgAckMessage msg_id USER_OFFLINE, sendall_ok w s)]\<rparr>)))"
proof -
  have v: "valid_str content" "valid_str msg_id" using assms(3) by simp_all
  note ack = returning_send [OF encodable_MsgAck [OF v(2)]]
  note fwd = send_encodable [OF encodable_ReceiveMsg [OF assms(4) v assms(5)]]
  show ?thesis
    using assms(1,2)
    by (auto simp: handle_send_msg_def Let_def ack fwd then_do_def)
qed

text \<open>Carol writes to dave, whose socket is broken: the forward fails, the ack says so.\<close>

theorem handle_send_msg_delivery_witness:
  "authenticated (sessions demo_server 3) \<and> username (sessions demo_server 3) = Some carol
   \<and> valid_fields (SendMsgMessage dave (lit ''hi'') (lit ''m1''))
   \<and> valid_str carol \<and> valid_str (now demo_world)
   \<and> strip dave \<noteq> [] \<and> lit ''hi'' \<noteq> []
   \<and> map_of (clients demo_server) (strip dave) = Some 4
   \<and> handle_send_msg demo_world 3 dave (lit ''hi'') (lit ''m1'') demo_server =
       (Inr (), demo_server\<lparr>wire :=
          [(4, ReceiveMsgMessage carol (lit ''hi'') (lit ''m1'') (lit ''2024-05-01T12:00:00''), False),
           (3, MsgAckMessage (lit ''m1'') DELIVERY_FAILED, True)]\<rparr>)
   \<and> map_of (clients demo_server) (strip alice) = None
   \<and> handle_send_msg demo_world 3 alice (lit ''hi'') (lit ''m1'') demo_server =
       (Inr (), demo_server\<lparr>wire := [(3, MsgAckMessage (lit ''m1'') USER_OFFLINE, True)]\<rparr>)
   \<and> valid_fields (SendMsgMessage dave [] (lit ''m1''))
   \<and> handle_send_msg demo_world 3 dave [] (lit ''m1'') (demo_server\<lparr>clients := []\<rparr>) =
       (Inr (), demo_server\<lparr>clients := [],
          wire := [(3, MsgAckMessage (lit ''m1'') INVALID_MESSAGE, True)]\<rparr>)"
proof -
  have h: "authenticated (sessions demo_server 3)" "username (sessions demo_server 3) = Some carol"
    by simp_all
  have v: "valid_fields (SendMsgMessage dave (lit ''hi'') (lit ''m1''))"
    "valid_fields (SendMsgMessage alice (lit ''hi'') (lit ''m1''))"
    "valid_fields (SendMsgMessage dave [] (lit ''m1''))"
    by simp_all
  have c: "valid_str carol" "valid_str (now demo_world)" by simp_all
  have n: "lit ''hi'' \<noteq> []" by (simp add: lit_def)
  show ?thesis
    using h v c n handle_send_msg_delivery [OF h v(1) c]
      handle_send_msg_delivery [OF h v(2) c] handle_send_msg_delivery [OF h v(3) c]
    by simp
qed

text \<open>
  Claim C4 (order of a login), as amended. A login runs in two critical sections. The
  first looks the stripped user name up in the registry: if the name is there, the login
  is refused with "User already logged in", that is all the handler does, and neither
  the store nor the registry is touched; if it is not, nothing is written and the login
  goes on. The second section runs in the state \<open>st2\<close> the server has by then:
  the store is asked; if it raises or refuses, the registry stays as it is; if it
  accepts and the name is still absent, the session is entered as a new last entry, the
  entries already there unchanged. What the assignment does to an entry made for the
  name between the two sections is no part of this claim (it is property X6).
\<close>

theorem handle_login_order:
  shows "(map_of (clients st) (strip name) \<noteq> None \<longrightarrow>
            login_guard w s (strip name) st =
              (Inr False, st\<lparr>wire := wire st @
                 [(s, ResponseMessage LOGIN FAIL (lit ''User already logged in''),
                   sendall_ok w s)]\<rparr>)
          \<and> handle_login w s name password st =
              (Inr (), st\<lparr>wire := wire st @
                 [(s, ResponseMessage LOGIN FAIL (lit ''User already logged in''),
                   sendall_ok w s)]\<rparr>))
       \<and> (map_of (clients st) (strip name) = None \<longrightarrow>
            login_guard w s (strip name) st = (Inr True, st)
          \<and> handle_login w s name password st = login_enter w s (strip name) password st)
       \<and> (\<forall>e d. authenticate_user (database w) (strip name) password (db st2) = (Inl e, d)
             \<longrightarrow> login_enter w s (strip name) password st2 = (Inl e, st2\<lparr>db := d\<rparr>))
       \<and> (\<forall>message uid d.
             authenticate_user (database w) (strip name) password (db st2)
               = (Inr (False, message, uid), d) \<and> valid_str message
             \<longrightarrow> login_enter w s (strip name) password st2 =
                (Inr (), st2\<lparr>db := d, wire := wire st2 @
                   [(s, ResponseMessage LOGIN FAIL message, sendall_ok w s)]\<rparr>))
       \<and> (\<forall>message uid d.
             authenticate_user (database w) (strip name) password (db st2)
               = (Inr (True, message, uid), d) \<and> valid_str message
             \<and> valid_str (strip name) \<and> map_of (clients st2) (strip name) = None
             \<longrightarrow> login_enter w s (strip name) password st2 =
                (Inr (), st2\<lparr>db := d,
                   sessions := (sessions st2)(s := (sessions st2 s)
                      \<lparr>username := Some (strip name), user_id := uid,
                       authenticated := True\<rparr>),
                   clients := clients st2 @ [(strip name, s)],
                   wire := wire st2 @
                     (s, ResponseMessage LOGIN SUCCESS message, sendall_ok w s)
                     # map (\<lambda>(k, c). (c, PresenceMessage (strip name) ONLINE, sendall_ok w c))
                         (filter (\<lambda>(k, c). k \<noteq> strip name) (clients st2))\<rparr>))"
proof (intro conjI impI allI)
  assume "map_of (clients st) (strip name) \<noteq> None"
  then show "login_guard w s (strip name) st =
      (Inr False, st\<lparr>wire := wire st @
         [(s, ResponseMessage LOGIN FAIL (lit ''User already logged in''), sendall_ok w s)]\<rparr>)"
    by (rule login_guard_present)
next
  assume "map_of (clients st) (strip name) \<noteq> None"
  then show "handle_login w s name password st =
      (Inr (), st\<lparr>wire := wire st @
         [(s, ResponseMessage LOGIN FAIL (lit ''User already logged in''), sendall_ok w s)]\<rparr>)"
    by (simp add: handle_login_sections login_guard_present then_do_def)
next
  assume "map_of (clients st) (strip name) = None"
  then show "login_guard w s (strip name) st = (Inr True, st)"
    by (rule login_guard_absent)
next
  assume "map_of (clients st) (strip name) = None"
  then show "handle_login w s name password st = login_enter w s (strip name) password st"
    by (simp add: handle_login_sections login_guard_absent then_do_def)
next
  fix e d
  assume "authenticate_user (database w) (strip name) password (db st2) = (Inl e, d)"
  then show "login_enter w s (strip name) password st2 = (Inl e, st2\<lparr>db := d\<rparr>)"
    by (rule login_enter_raise)
next
  fix message uid d
  assume a: "authenticate_user (database w) (strip name) password (db st2)
           = (Inr (False, message, uid), d) \<and> valid_str message"
  show "login_enter w s (strip name) password st2 =
      (Inr (), st2\<lparr>db := d, wire := wire st2 @
         [(s, ResponseMessage LOGIN FAIL message, sendall_ok w s)]\<rparr>)"
    by (rule login_enter_rejected [OF conjunct1 [OF a] conjunct2 [OF a]])
next
  fix message uid d
  assume a: "authenticate_user (database w) (strip name) password (db st2)
           = (Inr (True, message, uid), d) \<and> valid_str message
             \<and> valid_str (strip name) \<and> map_of (clients st2) (strip name) = None"
  have up: "AList.update (strip name) s (clients st2) = clients st2 @ [(strip name, s)]"
    using a by (simp add: update_absent)
  have n: "filter (\<lambda>(k, c). k \<noteq> strip name) (clients st2 @ [(strip name, s)])
           = filter (\<lambda>(k, c). k \<noteq> strip name) (clients st2)"
    by simp
  show "login_enter w s (strip name) password st2 =
      (Inr (), st2\<lparr>db := d,
         sessions := (sessions st2)(s := (sessions st2 s)
            \<lparr>username := Some (strip name), user_id := uid, authenticated := True\<rparr>),
         clients := clients st2 @ [(strip name, s)],
         wire := wire st2 @
           (s, ResponseMessage LOGIN SUCCESS message, sendall_ok w s)
           # map (\<lambda>(k, c). (c, PresenceMessage (strip name) ONLINE, sendall_ok w c))
               (filter (\<lambda>(k, c). k \<noteq> strip name) (clients st2))\<rparr>)"
    using login_enter_accepted [OF conjunct1 [OF a] conjunct1 [OF conjunct2 [OF a]]
          conjunct1 [OF conjunct2 [OF conjunct2 [OF a]]], of s]
    by (simp add: up)
qed

text \<open>
  Session 2 logs in as carol, who is online; as alice, who is not, with a store that
  raises, with a wrong password, and with the right one.
\<close>

theorem handle_login_order_witness:
  "map_of (clients demo_server) (strip carol) \<noteq> None
   \<and> login_guard demo_world 2 (strip carol) demo_server =
       (Inr False, demo_server\<lparr>wire :=
          [(2, ResponseMessage LOGIN FAIL (lit ''User already logged in''), True)]\<rparr>)
   \<and> handle_login demo_world 2 carol pw demo_server =
       (Inr (), demo_server\<lparr>wire :=
          [(2, ResponseMessage LOGIN FAIL (lit ''User already logged in''), True)]\<rparr>)
   \<and> map_of (clients demo_server) (strip alice) = None
   \<and> login_guard demo_world 2 (strip alice) demo_server = (Inr True, demo_server)
   \<and> handle_login demo_world 2 alice pw demo_server =
       login_enter demo_world 2 (strip alice) pw demo_server
   \<and> authenticate_user
         (database (demo_world\<lparr>database := demo_db\<lparr>authenticate_user :=
            (\<lambda>u p n. (Inl DatabaseError, n))\<rparr>\<rparr>))
         (strip alice) pw (db demo_server) = (Inl DatabaseError, 0)
   \<and> login_enter
         (demo_world\<lparr>database := demo_db\<lparr>authenticate_user :=
            (\<lambda>u p n. (Inl DatabaseError, n))\<rparr>\<rparr>)
         2 (strip alice) pw demo_server = (Inl DatabaseError, demo_server\<lparr>db := 0\<rparr>)
   \<and> authenticate_user (database demo_world) (strip alice) (lit ''wrong'') (db demo_server)
       = (Inr (False, lit ''Invalid password'', None), 1)
   \<and> valid_str (lit ''Invalid password'')
   \<and> login_enter demo_world 2 (strip alice) (lit ''wrong'') demo_server =
       (Inr (), demo_server\<lparr>db := 1, wire :=
          [(2, ResponseMessage LOGIN FAIL (lit ''Invalid password''), True)]\<rparr>)
   \<and> authenticate_user (database demo_world) (strip alice) pw (db demo_server)
       = (Inr (True, lit ''Login successful'', Some 1), 1)
   \<and> valid_str (lit ''Login successful'') \<and> valid_str (strip alice)
   \<and> login_enter demo_world 2 (strip alice) pw demo_server =
       (Inr (), demo_server\<lparr>db := 1,
          sessions := (sessions demo_server)(2 := new_session
             \<lparr>username := Some alice, user_id := Some 1, authenticated := True\<rparr>),
          clients := [(carol, 3), (dave, 4), (alice, 2)],
          wire := [(2, ResponseMessage LOGIN SUCCESS (lit ''Login successful''), True),
                   (3, PresenceMessage alice ONLINE, True),
                   (4, PresenceMessage alice ONLINE, False)]\<rparr>)"
  using handle_login_order [where st = demo_server and ?st2.0 = demo_server and name = carol
          and w = demo_world and s = 2 and password = pw]
    handle_login_order [where st = demo_server and ?st2.0 = demo_server and name = alice
          and w = "demo_world\<lparr>database := demo_db\<lparr>authenticate_user :=
            (\<lambda>u p n. (Inl DatabaseError, n))\<rparr>\<rparr>" and s = 2 and password = pw]
    handle_login_order [where st = demo_server and ?st2.0 = demo_server and name = alice
          and w = demo_world and s = 2 and password = "lit ''wrong''"]
    handle_login_order [where st = demo_server and ?st2.0 = demo_server and name = alice
          and w = demo_world and s = 2 and password = pw]
  by simp

text \<open>
  Claim C4 as stated fails: authentication is not what a login starts with. Session 2
  asks for carol, who is online, with a wrong password. The store would have answered
  "Invalid password" and counted the call; the reply is "User already logged in" and the
  store's count is still 0.
\<close>

theorem handle_login_store_not_asked_counterexample:
  "map_of (clients demo_server) (strip carol) = Some 3
   \<and> authenticate_user (database demo_world) (strip carol) (lit ''wrong'') (db demo_server)
       = (Inr (False, lit ''Invalid password'', None), 1)
   \<and> handle_login demo_world 2 carol (lit ''wrong'') demo_server =
       (Inr (), demo_server\<lparr>wire :=
          [(2, ResponseMessage LOGIN FAIL (lit ''User already logged in''), True)]\<rparr>)
   \<and> db (snd (handle_login demo_world 2 carol (lit ''wrong'') demo_server)) = 0"
proof -
  have h: "map_of (clients demo_server) (strip carol) = Some 3" by simp
  show ?thesis using h handle_login_present [OF h, of demo_world 2 "lit ''wrong''"] by simp
qed

text \<open>
  Claim C5 (login for a name that is online). The registry is a dictionary: a name
  occurs in it once (property X5 for the states the server reaches). If the registry
  maps the stripped user name to a session, the reply is the login failure "User already
  logged in", no session changes (the requesting one keeps its user name unset and stays
  unauthenticated), the registry is the same list, it still maps the name to the session
  it did, and it holds exactly one entry for the name.
\<close>

theorem handle_login_name_taken:
  assumes "map_of (clients st) (strip name) = Some other"
    and "distinct (map fst (clients st))"
  shows "\<exists>st'. handle_login w s name password st = (Inr (), st')
      \<and> wire st' = wire st @
          [(s, ResponseMessage LOGIN FAIL (lit ''User already logged in''), sendall_ok w s)]
      \<and> sessions st' = sessions st
      \<and> clients st' = clients st
      \<and> map_of (clients st') (strip name) = Some other
      \<and> length (filter (\<lambda>entry. fst entry = strip name) (clients st')) = 1"
  using assms(1) one_entry_per_key [OF assms(2,1)]
  by (simp add: handle_login_present [OF assms(1)])

text \<open>Session 2 asks for carol while carol is online on session 3.\<close>

theorem handle_login_name_taken_witness:
  "map_of (clients demo_server) (strip carol) = Some 3
   \<and> distinct (map fst (clients demo_server))
   \<and> (\<exists>st'. handle_login demo_world 2 carol pw demo_server = (Inr (), st')
        \<and> wire st' = wire demo_server @
            [(2, ResponseMessage LOGIN FAIL (lit ''User already logged in''), True)]
        \<and> sessions st' = sessions demo_server
        \<and> clients st' = clients demo_server
        \<and> map_of (clients st') (strip carol) = Some 3
        \<and> length (filter (\<lambda>entry. fst entry = strip carol) (clients st')) = 1)"
proof -
  have h: "map_of (clients demo_server) (strip carol) = Some 3"
    "distinct (map fst (clients demo_server))"
    by simp_all
  show ?thesis
    using h handle_login_name_taken [OF h, of demo_world 2 pw]
    by simp
qed

text \<open>
  Claim C6 (commands before login), as amended. On a session that is not authenticated:
  for each of the eight commands send-message, add-contact, remove-contact,
  list-contacts, search-users, earthquake, set-avatar and get-avatar, the one thing
  written is the error "Not authenticated" to that session, nothing else changes, and
  the read loop goes on with the frames that follow; for a logout nothing is written,
  the state stays as it is, the read loop ends there whatever follows, and the
  connection is closed with nothing written.
\<close>

theorem unauthenticated_command_rejected:
  assumes "\<not> authenticated (sessions st s)"
  shows "(authenticated_only m \<longrightarrow>
            dispatch w s m st =
              (Inr Continue,
               st\<lparr>wire := wire st @
                  [(s, ErrorMessage (lit ''Not authenticated''), sendall_ok w s)]\<rparr>)
          \<and> (\<forall>stream rest. recv_message stream = (Some m, rest) \<longrightarrow>
                handle_loop w s stream st =
                handle_loop w s rest
                  (st\<lparr>wire := wire st @
                     [(s, ErrorMessage (lit ''Not authenticated''), sendall_ok w s)]\<rparr>)))
       \<and> dispatch w s LogoutMessage st = (Inr Break, st)
       \<and> (\<forall>stream rest. recv_message stream = (Some LogoutMessage, rest) \<longrightarrow>
              handle_loop w s stream st = st
            \<and> handle_client w s stream st = (Inr (), close s st)
            \<and> wire (close s st) = wire st)"
proof (intro conjI impI allI)
  assume m: "authenticated_only m"
  show d: "dispatch w s m st =
     (Inr Continue,
      st\<lparr>wire := wire st @ [(s, ErrorMessage (lit ''Not authenticated''), sendall_ok w s)]\<rparr>)"
    using dispatch_unauthenticated [OF assms m, of w] by (simp add: NOT_AUTHENTICATED_def)
  fix stream rest
  assume "recv_message stream = (Some m, rest)"
  then show "handle_loop w s stream st =
      handle_loop w s rest
        (st\<lparr>wire := wire st @
           [(s, ErrorMessage (lit ''Not authenticated''), sendall_ok w s)]\<rparr>)"
    by (rule handle_loop_Continue [OF _ d])
next
  show "dispatch w s LogoutMessage st = (Inr Break, st)"
    using assms by (simp add: handle_logout_def break_def)
next
  fix stream rest
  assume r: "recv_message stream = (Some LogoutMessage, rest)"
  have d: "dispatch w s LogoutMessage st = (Inr Break, st)"
    using assms by (simp add: handle_logout_def break_def)
  show l: "handle_loop w s stream st = st"
    by (rule handle_loop_Break [OF r d])
  show "handle_client w s stream st = (Inr (), close s st)"
    using assms by (simp add: handle_client_def l cleanup_session_def split: option.splits)
  show "wire (close s st) = wire st"
    by (simp add: close_def)
qed

text \<open>
  Session 2 asks for its contact list before any login, a second frame follows; and
  session 2 sends a logout before any login, followed by a frame that is never read.
\<close>

theorem unauthenticated_command_rejected_witness:
  "\<not> authenticated (sessions demo_server 2) \<and> authenticated_only ContactListReqMessage
   \<and> dispatch demo_world 2 ContactListReqMessage demo_server =
       (Inr Continue,
        demo_server\<lparr>wire := [(2, ErrorMessage (lit ''Not authenticated''), True)]\<rparr>)
   \<and> recv_message (frame_of ContactListReqMessage @ frame_of LogoutMessage)
       = (Some ContactListReqMessage, frame_of LogoutMessage)
   \<and> handle_loop demo_world 2 (frame_of ContactListReqMessage @ frame_of LogoutMessage)
        demo_server =
      handle_loop demo_world 2 (frame_of LogoutMessage)
        (demo_server\<lparr>wire := [(2, ErrorMessage (lit ''Not authenticated''), True)]\<rparr>)
   \<and> dispatch demo_world 2 LogoutMessage demo_server = (Inr Break, demo_server)
   \<and> recv_message (frame_of LogoutMessage @ frame_of ContactListReqMessage)
       = (Some LogoutMessage, frame_of ContactListReqMessage)
   \<and> handle_loop demo_world 2 (frame_of LogoutMessage @ frame_of ContactListReqMessage)
        demo_server = demo_server
   \<and> handle_client demo_world 2 (frame_of LogoutMessage @ frame_of ContactListReqMessage)
        demo_server = (Inr (), close 2 demo_server)
   \<and> wire (close 2 demo_server) = wire demo_server"
proof -
  have h: "\<not> authenticated (sessions demo_server 2)"
    by simp
  have r: "recv_message (frame_of ContactListReqMessage @ frame_of LogoutMessage)
       = (Some ContactListReqMessage, frame_of LogoutMessage)"
    by (rule recv_message_frame) (simp_all add: payload_small)
  have q: "recv_message (frame_of LogoutMessage @ frame_of ContactListReqMessage)
       = (Some LogoutMessage, frame_of ContactListReqMessage)"
    by (rule recv_message_frame) (simp_all add: payload_small)
  have a: "authenticated_only ContactListReqMessage"
    by simp
  note t = unauthenticated_command_rejected [OF h, of ContactListReqMessage demo_world]
  note c = mp [OF conjunct1 [OF t] a]
  note l = mp [OF spec [OF spec [OF conjunct2 [OF conjunct2 [OF t]]]] q]
  show ?thesis
    using h a r q conjunct1 [OF c] mp [OF spec [OF spec [OF conjunct2 [OF c]]] r]
      conjunct1 [OF conjunct2 [OF t]] l
    by simp
qed

text \<open>
  Claim C6 as stated fails for logout, which is neither register nor login: on a session
  that is not authenticated \<open>_handle_logout\<close> writes nothing and the loop breaks.
  The frame after the logout is never read, and the connection is closed with nothing
  written at all.
\<close>

theorem logout_unauthenticated_counterexample:
  "\<not> authenticated (sessions demo_server 2)
   \<and> dispatch demo_world 2 LogoutMessage demo_server = (Inr Break, demo_server)
   \<and> handle_client demo_world 2 (frame_of LogoutMessage @ frame_of ContactListReqMessage)
        demo_server = (Inr (), close 2 demo_server)
   \<and> wire (close 2 demo_server) = []"
proof -
  have d: "dispatch demo_world 2 LogoutMessage demo_server = (Inr Break, demo_server)"
    by (simp add: handle_logout_def break_def)
  have r: "recv_message (frame_of LogoutMessage @ frame_of ContactListReqMessage)
       = (Some LogoutMessage, frame_of ContactListReqMessage)"
    by (rule recv_message_frame) (simp_all add: payload_small)
  have l: "handle_loop demo_world 2 (frame_of LogoutMessage @ frame_of ContactListReqMessage)
        demo_server = demo_server"
    by (rule handle_loop_Break [OF r d])
  show ?thesis
    using d by (simp add: handle_client_def l cleanup_session_def close_def)
qed

text \<open>
  Claim C7 (cleanup once per login) fails on this run: the peer of session 2 sends a
  login for alice, a login for bob, and closes. Both logins succeed. The cleanup removes
  the entry of bob and announces bob offline; the entry of alice stays in the registry,
  bound to the closed session, and no offline event for alice is ever written. The
  events for bob go to session 2 itself as well, through the entry of alice.
\<close>

theorem relogin_leaves_registry_entry:
  "handle_client demo_world 2
     (frame_of (LoginMessage alice pw) @ frame_of (LoginMessage bob pw)) demo_server =
   (Inr (), demo_server\<lparr>db := 2,
      sessions := (sessions demo_server)(2 :=
         \<lparr>username = Some bob, user_id = Some 1, authenticated = True, closed = True\<rparr>),
      clients := [(carol, 3), (dave, 4), (alice, 2)],
      wire := [(2, ResponseMessage LOGIN SUCCESS (lit ''Login successful''), True),
               (3, PresenceMessage alice ONLINE, True),
               (4, PresenceMessage alice ONLINE, False),
               (2, ResponseMessage LOGIN SUCCESS (lit ''Login successful''), True),
               (3, PresenceMessage bob ONLINE, True),
               (4, PresenceMessage bob ONLINE, False),
               (2, PresenceMessage bob ONLINE, True),
               (3, PresenceMessage bob OFFLINE, True),
               (4, PresenceMessage bob OFFLINE, False),
               (2, PresenceMessage bob OFFLINE, True)]\<rparr>)"
proof -
  have c: "cleanup_session demo_world 2 after_bob =
     (Inr (), close 2 (after_bob\<lparr>clients := AList.delete bob (clients after_bob),
        wire := wire after_bob @ map (\<lambda>(k, c). (c, PresenceMessage bob OFFLINE, sendall_ok demo_world c))
                            (filter (\<lambda>(k, c). k \<noteq> bob) (AList.delete bob (clients after_bob)))\<rparr>))"
    by (rule cleanup_session_wire) (simp_all add: after_bob_def)
  show ?thesis
    unfolding handle_client_def relogin_loop c
    by (simp add: after_bob_def close_def)
qed

text \<open>
  Claim C8 (presence fan-out: a user never receives its own presence event) fails on
  this run: the peer of session 2 sends a login for alice and then a login for bob. The
  registry then holds alice and bob for session 2, and the event that bob is online is
  written to carol, to dave, and through the entry of alice to session 2, which is
  bob's own.
\<close>

theorem relogin_presence_reaches_own_session:
  "username (sessions (handle_loop demo_world 2
      (frame_of (LoginMessage alice pw) @ frame_of (LoginMessage bob pw)) demo_server) 2)
     = Some bob
   \<and> clients (handle_loop demo_world 2
      (frame_of (LoginMessage alice pw) @ frame_of (LoginMessage bob pw)) demo_server)
     = [(carol, 3), (dave, 4), (alice, 2), (bob, 2)]
   \<and> wire (handle_loop demo_world 2
      (frame_of (LoginMessage alice pw) @ frame_of (LoginMessage bob pw)) demo_server)
     = [(2, ResponseMessage LOGIN SUCCESS (lit ''Login successful''), True),
        (3, PresenceMessage alice ONLINE, True),
        (4, PresenceMessage alice ONLINE, False),
        (2, ResponseMessage LOGIN SUCCESS (lit ''Login successful''), True),
        (3, PresenceMessage bob ONLINE, True),
        (4, PresenceMessage bob ONLINE, False),
        (2, PresenceMessage bob ONLINE, True)]"
  unfolding relogin_loop by (simp add: after_bob_def)

text \<open>
  Claim C9 (the user name is set once) fails on this run: session 2 logs in as alice and
  then, on the same connection, as bob. The second login is accepted, the user name of
  the session changes from alice to bob, and the registry holds both names for the one
  session.
\<close>

theorem second_login_rebinds_username:
  "\<exists>st1 st2.
     dispatch demo_world 2 (LoginMessage alice pw) demo_server = (Inr Continue, st1)
     \<and> username (sessions st1 2) = Some alice
     \<and> dispatch demo_world 2 (LoginMessage bob pw) st1 = (Inr Continue, st2)
     \<and> username (sessions st2 2) = Some bob
     \<and> clients st2 = [(carol, 3), (dave, 4), (alice, 2), (bob, 2)]"
  using login_alice login_bob
  by (intro exI [of _ after_alice] exI [of _ after_bob])
     (simp add: after_alice_def after_bob_def)

text \<open>
  Claim C10 (earthquake signal). The sender is authenticated as \<open>sender\<close>, a name
  valid for the wire, as the name of a session is in every state the server reaches
  (property X5). If the registry maps the stripped recipient to a session, the one
  thing written is the forward to that session, with the intensity clamped to 1..10:
  when that write fails the sender gets no reply of any kind. If the registry does not
  hold the recipient, the one thing written is the error "User is offline" to the sender.
\<close>

theorem handle_earthquake_replies:
  assumes "authenticated (sessions st s)" and "username (sessions st s) = Some sender"
    and "valid_str sender"
  shows "(\<forall>r. map_of (clients st) (strip to) = Some r \<longrightarrow>
            handle_earthquake w s to intensity st =
              (Inr (), st\<lparr>wire := wire st @
                 [(r, EarthquakeRecvMessage sender (max 1 (min 10 intensity)),
                   sendall_ok w r)]\<rparr>))
       \<and> (map_of (clients st) (strip to) = None \<longrightarrow>
            handle_earthquake w s to intensity st =
              (Inr (), st\<lparr>wire := wire st @
                 [(s, ErrorMessage (lit ''User is offline''), sendall_ok w s)]\<rparr>))"
  using assms(1,2)
  by (auto simp: handle_earthquake_def Let_def
      returning_send [OF encodable_EarthquakeRecv [OF assms(3)]]
      returning_send [OF encodable_Error] valid_str_literals)

text \<open>
  Carol shakes dave, whose socket is broken: one failed write, nothing to carol. Carol
  shakes alice, who is offline: the error goes to carol.
\<close>

theorem handle_earthquake_replies_witness:
  "authenticated (sessions demo_server 3) \<and> username (sessions demo_server 3) = Some carol
   \<and> valid_str carol
   \<and> map_of (clients demo_server) (strip dave) = Some 4 \<and> \<not> sendall_ok demo_world 4
   \<and> handle_earthquake demo_world 3 dave 99 demo_server =
       (Inr (), demo_server\<lparr>wire := [(4, EarthquakeRecvMessage carol 10, False)]\<rparr>)
   \<and> map_of (clients demo_server) (strip alice) = None
   \<and> handle_earthquake demo_world 3 alice 99 demo_server =
       (Inr (), demo_server\<lparr>wire := [(3, ErrorMessage (lit ''User is offline''), True)]\<rparr>)"
proof -
  have h: "authenticated (sessions demo_server 3)" "username (sessions demo_server 3) = Some carol"
    "valid_str carol"
    by simp_all
  show ?thesis
    using h handle_earthquake_replies [OF h, of dave demo_world 99]
      handle_earthquake_replies [OF h, of alice demo_world 99]
    by simp
qed

section \<open>Further properties\<close>

text \<open>
  Property X1 (recipients of a presence event, by registry key). For a user \<open>u\<close> with a name valid for the wire: the
  broadcast for an authenticated session of \<open>u\<close> writes one presence event naming
  \<open>u\<close> and the status to the session of every registry entry whose key is not
  \<open>u\<close>, in registry order, whether or not the earlier writes succeeded, and writes
  nothing else. The cleanup of such a session (logout, or any other end of the
  connection) removes the entry of \<open>u\<close> and does so with status \<open>OFFLINE\<close>; an
  accepted login of \<open>u\<close> answers the login and does so with status \<open>ONLINE\<close>.
\<close>

theorem presence_fan_out:
  assumes "valid_str u"
  shows "(authenticated (sessions st s) \<and> username (sessions st s) = Some u \<longrightarrow>
            broadcast_presence w s status st =
              (Inr (), st\<lparr>wire := wire st @
                 map (\<lambda>(k, c). (c, PresenceMessage u status, sendall_ok w c))
                   (filter (\<lambda>(k, c). k \<noteq> u) (clients st))\<rparr>))
       \<and> (authenticated (sessions st s) \<and> username (sessions st s) = Some u \<and> u \<noteq> [] \<longrightarrow>
            cleanup_session w s st =
              (Inr (), close s (st\<lparr>clients := AList.delete u (clients st),
                 wire := wire st @
                   map (\<lambda>(k, c). (c, PresenceMessage u OFFLINE, sendall_ok w c))
                     (filter (\<lambda>(k, c). k \<noteq> u) (clients st))\<rparr>)))
       \<and> (\<forall>name password message uid d.
            strip name = u \<and> map_of (clients st) u = None
            \<and> authenticate_user (database w) u password (db st) = (Inr (True, message, uid), d)
            \<and> valid_str message \<longrightarrow>
            wire (snd (handle_login w s name password st)) =
              wire st @ (s, ResponseMessage LOGIN SUCCESS message, sendall_ok w s)
                # map (\<lambda>(k, c). (c, PresenceMessage u ONLINE, sendall_ok w c))
                    (filter (\<lambda>(k, c). k \<noteq> u) (clients st)))"
proof (intro conjI impI allI)
  assume "authenticated (sessions st s) \<and> username (sessions st s) = Some u"
  then show "broadcast_presence w s status st =
      (Inr (), st\<lparr>wire := wire st @
         map (\<lambda>(k, c). (c, PresenceMessage u status, sendall_ok w c))
           (filter (\<lambda>(k, c). k \<noteq> u) (clients st))\<rparr>)"
    using assms by (intro broadcast_presence_wire) simp_all
next
  assume a: "authenticated (sessions st s) \<and> username (sessions st s) = Some u \<and> u \<noteq> []"
  have "cleanup_session w s st =
     (Inr (), close s (st\<lparr>clients := AList.delete u (clients st),
        wire := wire st @ map (\<lambda>(k, c). (c, PresenceMessage u OFFLINE, sendall_ok w c))
                            (filter (\<lambda>(k, c). k \<noteq> u) (AList.delete u (clients st)))\<rparr>))"
    using a assms by (intro cleanup_session_wire) simp_all
  then show "cleanup_session w s st =
      (Inr (), close s (st\<lparr>clients := AList.delete u (clients st),
         wire := wire st @
           map (\<lambda>(k, c). (c, PresenceMessage u OFFLINE, sendall_ok w c))
             (filter (\<lambda>(k, c). k \<noteq> u) (clients st))\<rparr>))"
    by (simp add: filter_delete) (simp add: delete_filter)
next
  fix name password message uid d
  assume a: "strip name = u \<and> map_of (clients st) u = None
            \<and> authenticate_user (database w) u password (db st) = (Inr (True, message, uid), d)
            \<and> valid_str message"
  have "handle_login w s name password st =
     (Inr (), st\<lparr>db := d,
        sessions := (sessions st)(s := (sessions st s)
           \<lparr>username := Some (strip name), user_id := uid, authenticated := True\<rparr>),
        clients := clients st @ [(strip name, s)],
        wire := wire st @
          (s, ResponseMessage LOGIN SUCCESS message, sendall_ok w s)
          # map (\<lambda>(k, c). (c, PresenceMessage (strip name) ONLINE, sendall_ok w c))
              (filter (\<lambda>(k, c). k \<noteq> strip name) (clients st))\<rparr>)"
    using a assms by (intro handle_login_accepted) simp_all
  then show "wire (snd (handle_login w s name password st)) =
      wire st @ (s, ResponseMessage LOGIN SUCCESS message, sendall_ok w s)
        # map (\<lambda>(k, c). (c, PresenceMessage u ONLINE, sendall_ok w c))
            (filter (\<lambda>(k, c). k \<noteq> u) (clients st))"
    using a by simp
qed

text \<open>
  Carol's session broadcasts and is cleaned up while dave, with a broken socket, is the
  one other entry; alice logs in on session 2 and carol and dave are told.
\<close>

theorem presence_fan_out_witness:
  "valid_str carol \<and> authenticated (sessions demo_server 3)
   \<and> username (sessions demo_server 3) = Some carol \<and> carol \<noteq> []
   \<and> broadcast_presence demo_world 3 ONLINE demo_server =
       (Inr (), demo_server\<lparr>wire := [(4, PresenceMessage carol ONLINE, False)]\<rparr>)
   \<and> cleanup_session demo_world 3 demo_server =
       (Inr (), close 3 (demo_server\<lparr>clients := [(dave, 4)],
          wire := [(4, PresenceMessage carol OFFLINE, False)]\<rparr>))
   \<and> valid_str alice \<and> strip alice = alice \<and> map_of (clients demo_server) alice = None
   \<and> authenticate_user (database demo_world) alice pw (db demo_server)
       = (Inr (True, lit ''Login successful'', Some 1), 1)
   \<and> valid_str (lit ''Login successful'')
   \<and> wire (snd (handle_login demo_world 2 alice pw demo_server)) =
       [(2, ResponseMessage LOGIN SUCCESS (lit ''Login successful''), True),
        (3, PresenceMessage alice ONLINE, True),
        (4, PresenceMessage alice ONLINE, False)]"
proof -
  have c: "valid_str carol" and a: "valid_str alice" by simp_all
  show ?thesis
    using presence_fan_out [OF c, of demo_server 3 demo_world ONLINE]
      presence_fan_out [OF a, of demo_server 2 demo_world ONLINE]
    by simp
qed

text \<open>
  Property X2 (framing rejection). A buffer shorter than the nine header bytes makes
  \<open>decode_message\<close> return \<open>None\<close>; with nine bytes or more, a magic other than
  \<open>QP\<close>, then a version other than 1, then a command code that is no member of
  \<open>Command\<close> makes it raise. No message is returned in any of the four cases.
\<close>

theorem decode_message_rejects:
  "(length d < 9 \<longrightarrow> decode_message d = Inr None)
   \<and> (9 \<le> length d \<and> take 2 d \<noteq> [0x51, 0x50] \<longrightarrow> decode_message d = Inl InvalidMagic)
   \<and> (9 \<le> length d \<and> take 2 d = [0x51, 0x50] \<and> d ! 2 \<noteq> 0x01
        \<longrightarrow> decode_message d = Inl UnsupportedVersion)
   \<and> (9 \<le> length d \<and> take 2 d = [0x51, 0x50] \<and> d ! 2 = 0x01
        \<and> Command_of (unat (d ! 3) * 256 + unat (d ! 4)) = None
        \<longrightarrow> decode_message d = Inl UnknownCommand)"
  by (simp add: decode_message_def HEADER_SIZE_def PROTOCOL_MAGIC_def PROTOCOL_VERSION_def
      slice_def Let_def)

text \<open>Three bytes; a wrong magic; version 2; the command code 0x0909.\<close>

theorem decode_message_rejects_witness:
  "decode_message [0x51, 0x50, 0x01] = Inr None
   \<and> decode_message [0x51, 0x51, 0x01, 0x00, 0x03, 0x00, 0x00, 0x00, 0x00] = Inl InvalidMagic
   \<and> decode_message [0x51, 0x50, 0x02, 0x00, 0x03, 0x00, 0x00, 0x00, 0x00]
       = Inl UnsupportedVersion
   \<and> decode_message [0x51, 0x50, 0x01, 0x09, 0x09, 0x00, 0x00, 0x00, 0x00]
       = Inl UnknownCommand"
  using decode_message_rejects [of "[0x51, 0x50, 0x01]"]
    decode_message_rejects [of "[0x51, 0x51, 0x01, 0x00, 0x03, 0x00, 0x00, 0x00, 0x00]"]
    decode_message_rejects [of "[0x51, 0x50, 0x02, 0x00, 0x03, 0x00, 0x00, 0x00, 0x00]"]
    decode_message_rejects [of "[0x51, 0x50, 0x01, 0x09, 0x09, 0x00, 0x00, 0x00, 0x00]"]
  by (simp add: Command_of_def)

text \<open>
  Property X3 (what the dispatcher is handed). Every message that \<open>recv_message\<close>
  returns has fields valid for the wire (its strings encode to at most 65535 bytes, its
  blobs are within \<open>MAX_MESSAGE_SIZE\<close>, its \<open>uint8\<close> fields are in 0..255), its
  list has at most 65535 entries, and the stream left is shorter than the stream before.
\<close>

theorem received_message_valid:
  assumes "recv_message stream = (Some m, rest)"
  shows "valid_fields m \<and> list_count m \<le> 65535 \<and> length rest < length stream"
  using recv_message_valid [OF assms] recv_message_consumes [OF assms] by simp

text \<open>A login frame followed by a logout frame.\<close>

theorem received_message_valid_witness:
  "recv_message (frame_of (LoginMessage alice pw) @ frame_of LogoutMessage)
     = (Some (LoginMessage alice pw), frame_of LogoutMessage)
   \<and> valid_fields (LoginMessage alice pw) \<and> list_count (LoginMessage alice pw) \<le> 65535
   \<and> length (frame_of LogoutMessage)
       < length (frame_of (LoginMessage alice pw) @ frame_of LogoutMessage)"
proof -
  have r: "recv_message (frame_of (LoginMessage alice pw) @ frame_of LogoutMessage)
     = (Some (LoginMessage alice pw), frame_of LogoutMessage)"
    by (rule recv_message_frame [OF _ _ payload_small(3)]) simp_all
  show ?thesis using r received_message_valid [OF r] by simp
qed

text \<open>
  Property X4 (a frame sent is the message received). For a message with valid fields,
  at most 65535 list entries and a payload within \<open>MAX_MESSAGE_SIZE\<close>,
  \<open>encode_message\<close> returns its frame, and \<open>recv_message\<close> on a stream that starts
  with that frame returns the message and the rest of the stream.
\<close>

theorem frame_received:
  assumes "valid_fields m" and "list_count m \<le> 65535"
    and "length (payload_of m) \<le> MAX_MESSAGE_SIZE"
  shows "encode_message m = Inr (frame_of m) \<and> recv_message (frame_of m @ rest) = (Some m, rest)"
proof -
  have "length (payload_of m) < 4294967296" using assms(3) by (simp add: MAX_MESSAGE_SIZE_def)
  then have "encode_message m = Inr (frame_of m)"
    using encode_message_ok [OF assms(1,2)] by (simp add: frame_of_def)
  then show ?thesis using recv_message_frame [OF assms] by simp
qed

text \<open>A login frame followed by one more byte.\<close>

theorem frame_received_witness:
  "valid_fields (LoginMessage alice pw) \<and> list_count (LoginMessage alice pw) \<le> 65535
   \<and> length (payload_of (LoginMessage alice pw)) \<le> MAX_MESSAGE_SIZE
   \<and> encode_message (LoginMessage alice pw) = Inr (frame_of (LoginMessage alice pw))
   \<and> recv_message (frame_of (LoginMessage alice pw) @ [0x51])
       = (Some (LoginMessage alice pw), [0x51])"
proof -
  have h: "valid_fields (LoginMessage alice pw)" "list_count (LoginMessage alice pw) \<le> 65535"
    by simp_all
  show ?thesis
    using h payload_small(3) frame_received [OF h payload_small(3), of "[0x51]"] by simp
qed

text \<open>
  Property X6 (two logins for one name that interleave). The assignment
  \<open>self.clients[username] = session\<close> of the second section is unconditional: it is
  no insert-if-absent. Sessions 2 and 5 both ask to log in as alice, who is offline.
  Both pass the first section before either runs the second. Session 2 is entered and
  answered with success; then session 5 is answered with success as well and its
  assignment replaces the entry of session 2. Both sessions are authenticated as alice,
  and the registry knows session 5 only.
\<close>

theorem interleaved_logins_overwrite_entry:
  "login_guard demo_world 2 (strip alice) demo_server = (Inr True, demo_server)
   \<and> login_guard demo_world 5 (strip alice) demo_server = (Inr True, demo_server)
   \<and> login_enter demo_world 2 (strip alice) pw demo_server = (Inr (), after_alice)
   \<and> map_of (clients after_alice) alice = Some 2
   \<and> login_enter demo_world 5 (strip alice) pw after_alice =
       (Inr (), after_alice\<lparr>db := 2,
          sessions := (sessions after_alice)(5 :=
             \<lparr>username = Some alice, user_id = Some 1, authenticated = True,
              closed = False\<rparr>),
          clients := [(carol, 3), (dave, 4), (alice, 5)],
          wire := wire after_alice @
             [(5, ResponseMessage LOGIN SUCCESS (lit ''Login successful''), True),
              (3, PresenceMessage alice ONLINE, True),
              (4, PresenceMessage alice ONLINE, False)]\<rparr>)"
proof -
  have g: "login_guard demo_world c (strip alice) demo_server = (Inr True, demo_server)" for c
    by (simp add: login_guard_def)
  have a: "login_enter demo_world 2 (strip alice) pw demo_server = (Inr (), after_alice)"
    unfolding after_alice_def
    by (subst login_enter_accepted [where message = "lit ''Login successful''"
          and uid = "Some 1" and d = 1])
       (simp_all add: new_session_def)
  have b: "login_enter demo_world 5 (strip alice) pw after_alice =
       (Inr (), after_alice\<lparr>db := 2,
          sessions := (sessions after_alice)(5 :=
             \<lparr>username = Some alice, user_id = Some 1, authenticated = True,
              closed = False\<rparr>),
          clients := [(carol, 3), (dave, 4), (alice, 5)],
          wire := wire after_alice @
             [(5, ResponseMessage LOGIN SUCCESS (lit ''Login successful''), True),
              (3, PresenceMessage alice ONLINE, True),
              (4, PresenceMessage alice ONLINE, False)]\<rparr>)"
    by (subst login_enter_accepted [where message = "lit ''Login successful''"
          and uid = "Some 1" and d = 2])
       (simp_all add: after_alice_def demo_server_def new_session_def)
  show ?thesis
    using g [of 2] g [of 5] a b by (simp add: after_alice_def)
qed


text \<open>
  Property X5 (what every reachable state satisfies). In every state that a server
  reaches from the start by handling received messages, by the two sections of a login
  run apart, and by cleaning sessions up, the names in the registry are pairwise
  different, a session has a name exactly when it is authenticated, and every session
  name and every registered name is a string that can be written on the wire (Unicode
  scalar values, at most 65535 bytes in UTF-8); every registered session is
  authenticated. So the hypotheses on the sender's name in claims C3 and C10 and on the
  registry in claim C5 hold whenever the server is in a reachable state.
\<close>

theorem reachable_registry_sound:
  assumes "reachable w st"
  shows "registry_sound st"
  using assms
proof (induction rule: reachable.induct)
  case (start d)
  show ?case by (rule registry_sound_idle)
next
  case (received st stream m rest s)
  have "valid_fields m" using recv_message_valid [OF received(2)] by simp
  then show ?case using received.IH by (simp add: registry_sound_dispatch)
next
  case (guarded st s uname)
  then show ?case by (simp add: registry_sound_login_guard)
next
  case (entered st stream u p rest s)
  have "valid_fields (LoginMessage u p)" using recv_message_valid [OF entered(2)] by simp
  then have "valid_str (strip u)" by (simp add: valid_str_strip)
  then show ?case using entered.IH by (simp add: registry_sound_login_enter)
next
  case (cleaned st s)
  then show ?case by (simp add: registry_sound_cleanup_session)
qed

text \<open>The state after a first login on a server with no session.\<close>

theorem reachable_registry_sound_witness:
  "reachable demo_world (snd (dispatch demo_world 2 (LoginMessage alice pw) (idle_server 0)))
   \<and> registry_sound (snd (dispatch demo_world 2 (LoginMessage alice pw) (idle_server 0)))"
proof -
  have h: "valid_fields (LoginMessage alice pw)" "list_count (LoginMessage alice pw) \<le> 65535"
    by simp_all
  have "reachable demo_world (snd (dispatch demo_world 2 (LoginMessage alice pw) (idle_server 0)))"
    by (rule reachable.received [OF reachable.start recv_message_frame [OF h payload_small(3), of "[]"]])
  from reachable_registry_sound [OF this] this show ?thesis by simp
qed

end
